theory Spec2Isabelle
  imports Main "HOL-Library.AList"
begin

section \<open>The Noxy compiler: data model\<close>

text \<open>
  The development follows \<^verbatim>\<open>compiler.py\<close>. Python exceptions are values of the type
  \<open>error\<close>; a function that may raise returns \<open>error + 'a\<close> with \<open>Inl\<close> for the
  exception. Message texts are kept where they are ASCII and written without accents
  otherwise.
\<close>

datatype error =
    NoxyError string
  | NoxySyntaxError string nat nat
  | NoxySemanticError string
  | PyTypeError string
  | PyNameError string
  | PyValueError string
  | PyNotImplementedError string
  | PyAttributeError string
  | PyRecursionError string

text \<open>\<^verbatim>\<open>NoxyError.format_error\<close> for an error without a location, which is what
  \<^verbatim>\<open>str(e)\<close> yields.\<close>

definition format_error :: "string \<Rightarrow> string" where
  "format_error message = ''Erro: '' @ message"

subsection \<open>Token kinds\<close>

text \<open>The members of the enumeration \<^verbatim>\<open>TokenType\<close>; \<^verbatim>\<open>INT\<close> is written
  \<open>INT_TOKEN\<close>.\<close>

datatype TokenType =
    NUMBER | FLOAT | STRING | FSTRING | IDENTIFIER | TRUE | FALSE | NULL
  | LET | GLOBAL | IF | THEN | ELSE | END | WHILE | DO | PRINT | FUNC | RETURN
  | STRUCT | REF | BREAK | USE | SELECT
  | INT_TOKEN | FLOAT_TYPE | STRING_TYPE | STR_TYPE | VOID | BOOL
  | PLUS | MINUS | MULTIPLY | DIVIDE | MODULO | ASSIGN | GT | LT | GTE | LTE | EQ | NEQ
  | ARROW | CONCAT | AND | OR | NOT
  | LPAREN | RPAREN | LBRACKET | RBRACKET | LBRACE | RBRACE | COMMA | COLON
  | SEMICOLON | DOT
  | ZEROS
  | EOF

subsection \<open>Source-language types\<close>

datatype noxy_type =
    IntType
  | FloatType
  | StringType
  | StrType
  | ArrayType noxy_type "nat option"
  | VoidType
  | FunctionType "noxy_type list" noxy_type
  | BoolType
  | NullType
  | StructType string "(string \<times> noxy_type) list"
  | ReferenceType noxy_type bool

subsection \<open>Abstract syntax\<close>

text \<open>
  One constructor per node class, with the fields in the order of the dataclass. A field
  that may hold \<^verbatim>\<open>None\<close> is an \<open>option\<close>. The value of a float literal is kept as
  its digits. The parts of an f-string are literal text (\<open>Inl\<close>) or a parsed expression
  (\<open>Inr\<close>).
\<close>

datatype node =
    NumberNode int
  | FloatNode string
  | StringNode string
  | FStringNode "(string + node) list"
  | ArrayNode "node list" noxy_type
  | ZerosNode nat noxy_type
  | ArrayAccessNode string node
  | IdentifierNode string
  | BinaryOpNode node TokenType node
  | CastNode node noxy_type
  | ConcatNode node node
  | AssignmentNode string "noxy_type option" "node option" bool
  | ArrayAssignmentNode string node node
  | PrintNode node
  | IfNode node "node list" "node list option"
  | WhileNode node "node list"
  | FunctionNode string "(string \<times> noxy_type) list" noxy_type "node list"
  | ReturnNode "node option"
  | CallNode string "node list"
  | StructDefinitionNode string "(string \<times> noxy_type) list"
  | StructAccessNode string string
  | StructAccessFromArrayNode node string
  | StructAssignmentNode string string node
  | NestedStructAssignmentNode string "string list" node
  | ArrayFieldAssignmentNode string node "string list" node
  | StructConstructorNode string "node list"
  | ProgramNode "node list"
  | BooleanNode bool
  | NullNode
  | UnaryOpNode TokenType node
  | ReferenceNode node
  | BreakNode
  | StringCharAccessNode string node
  | UseNode string "string list option" bool

section \<open>Lexer\<close>

text \<open>
  Source text is a list of characters. The character classes of Python
  (\<^verbatim>\<open>isspace\<close>, \<^verbatim>\<open>isdigit\<close>, \<^verbatim>\<open>isalpha\<close>, \<^verbatim>\<open>isalnum\<close>) are given on
  the code points below 128 for letters and digits, and below 256 for white space.
\<close>

abbreviation dquote :: char where "dquote \<equiv> CHR 0x22"
abbreviation backslash :: char where "backslash \<equiv> CHR 0x5C"
abbreviation newline :: char where "newline \<equiv> CHR 0x0A"

definition isspace :: "char \<Rightarrow> bool" where
  "isspace c = (of_char c \<in> {9, 10, 11, 12, 13, 28, 29, 30, 31, 32, 133, 160 :: nat})"

definition isdigit :: "char \<Rightarrow> bool" where
  "isdigit c = (48 \<le> (of_char c :: nat) \<and> (of_char c :: nat) \<le> 57)"

definition isalpha :: "char \<Rightarrow> bool" where
  "isalpha c = ((65 \<le> (of_char c :: nat) \<and> (of_char c :: nat) \<le> 90) \<or>
                (97 \<le> (of_char c :: nat) \<and> (of_char c :: nat) \<le> 122))"

definition isalnum :: "char \<Rightarrow> bool" where
  "isalnum c = (isalpha c \<or> isdigit c)"

subsection \<open>Tokens\<close>

text \<open>A part of an f-string token: literal text, or the tuples
  \<^verbatim>\<open>('EXPR', text)\<close> and \<^verbatim>\<open>('EXPR_FORMAT', text, spec)\<close>.\<close>

datatype fstring_part = Text string | EXPR string | EXPR_FORMAT string string

text \<open>The value of a token. A float literal keeps its digits.\<close>

datatype token_value =
    StrVal string
  | IntVal nat
  | FloatVal string
  | PartsVal "fstring_part list"

datatype Token =
  Token (tok_type: TokenType) (tok_value: token_value) (tok_line: nat) (tok_column: nat)

record lexer =
  source :: string
  position :: nat
  line :: nat
  column :: nat
  tokens :: "Token list"

definition Lexer :: "string \<Rightarrow> lexer" where
  "Lexer src = \<lparr>source = src, position = 0, line = 1, column = 1, tokens = []\<rparr>"

text \<open>\<^verbatim>\<open>_current_char\<close> and \<^verbatim>\<open>_peek_char\<close> return the empty string past the end;
  that is \<open>None\<close> here.\<close>

definition current_char :: "lexer \<Rightarrow> char option" where
  "current_char lx =
     (if position lx < length (source lx) then Some (source lx ! position lx) else None)"

definition peek_char :: "lexer \<Rightarrow> char option" where
  "peek_char lx =
     (if position lx + 1 < length (source lx) then Some (source lx ! (position lx + 1))
      else None)"

definition advance :: "lexer \<Rightarrow> lexer" where
  "advance lx =
     (if position lx < length (source lx) \<and> source lx ! position lx = newline
      then lx\<lparr>line := line lx + 1, column := 1, position := position lx + 1\<rparr>
      else lx\<lparr>column := column lx + 1, position := position lx + 1\<rparr>)"

text \<open>The escape sequences of string and f-string literals.\<close>

definition escape :: "char \<Rightarrow> char" where
  "escape escape_char =
     (if escape_char = CHR ''n'' then newline
      else if escape_char = CHR ''t'' then CHR 0x09
      else if escape_char = dquote then dquote
      else if escape_char = backslash then backslash
      else if escape_char = CHR ''0'' then CHR 0x00
      else escape_char)"

subsection \<open>White space and comments\<close>

function skip_comment :: "lexer \<Rightarrow> lexer" where
  "skip_comment lx =
     (if position lx < length (source lx) \<and> source lx ! position lx \<noteq> newline
      then skip_comment (advance lx) else lx)"
  by pat_completeness auto
termination
  by (relation "measure (\<lambda>lx. length (source lx) - position lx)") (auto simp: advance_def)

declare skip_comment.simps [simp del]

lemma skip_comment_position:
  "position lx \<le> position (skip_comment lx) \<and> source (skip_comment lx) = source lx"
proof (induction lx rule: skip_comment.induct)
  case (1 lx)
  show ?case
  proof (cases "position lx < length (source lx) \<and> source lx ! position lx \<noteq> newline")
    case True
    with 1 have "position (advance lx) \<le> position (skip_comment (advance lx))"
      "source (skip_comment (advance lx)) = source (advance lx)" by auto
    moreover have "position lx \<le> position (advance lx)" "source (advance lx) = source lx"
      by (auto simp: advance_def)
    moreover have "skip_comment lx = skip_comment (advance lx)"
      using True by (subst skip_comment.simps) simp
    ultimately show ?thesis by simp
  next
    case False
    then have "skip_comment lx = lx" by (subst skip_comment.simps) auto
    then show ?thesis by simp
  qed
qed

text \<open>\<^verbatim>\<open>_skip_whitespace_and_comments\<close>. A comment starts with two slashes; the inner
  loop stops at the newline, which the next round skips as white space.\<close>

function skip_whitespace_and_comments :: "lexer \<Rightarrow> lexer" where
  "skip_whitespace_and_comments lx =
     (if position lx < length (source lx) then
        if isspace (source lx ! position lx) then skip_whitespace_and_comments (advance lx)
        else if position lx + 1 < length (source lx) \<and> source lx ! position lx = CHR ''/''
                \<and> source lx ! (position lx + 1) = CHR ''/''
        then skip_whitespace_and_comments (skip_comment lx)
        else lx
      else lx)"
  by pat_completeness auto
termination
proof (relation "measure (\<lambda>lx. length (source lx) - position lx)")
  show "wf (measure (\<lambda>lx. length (source lx) - position lx))" by simp
next
  fix lx :: lexer
  assume "position lx < length (source lx)" "isspace (source lx ! position lx)"
  then show "(advance lx, lx) \<in> measure (\<lambda>lx. length (source lx) - position lx)"
    by (auto simp: advance_def)
next
  fix lx :: lexer
  assume a: "position lx < length (source lx)" "\<not> isspace (source lx ! position lx)"
    "position lx + 1 < length (source lx) \<and> source lx ! position lx = CHR ''/''
                \<and> source lx ! (position lx + 1) = CHR ''/''"
  have "skip_comment lx = skip_comment (advance lx)"
    using a by (subst skip_comment.simps) simp
  moreover have "position (advance lx) \<le> position (skip_comment (advance lx))"
    "source (skip_comment (advance lx)) = source (advance lx)"
    using skip_comment_position[of "advance lx"] by auto
  moreover have "position (advance lx) = position lx + 1" "source (advance lx) = source lx"
    by (auto simp: advance_def)
  ultimately have "position lx < position (skip_comment lx)"
    "source (skip_comment lx) = source lx" by simp_all
  then show "(skip_comment lx, lx) \<in> measure (\<lambda>lx. length (source lx) - position lx)"
    using a(1) by simp
qed

declare skip_whitespace_and_comments.simps [simp del]

subsection \<open>String literals\<close>

text \<open>The loop of \<^verbatim>\<open>_read_string\<close>, up to the closing quote or the end of the
  source.\<close>

function read_string_loop :: "lexer \<Rightarrow> string \<Rightarrow> lexer \<times> string" where
  "read_string_loop lx string_value =
     (if position lx < length (source lx) \<and> source lx ! position lx \<noteq> dquote then
        if source lx ! position lx = backslash then
          if position (advance lx) < length (source (advance lx))
          then read_string_loop (advance (advance lx))
                 (string_value @ [escape (source (advance lx) ! position (advance lx))])
          else read_string_loop (advance lx) string_value
        else read_string_loop (advance lx) (string_value @ [source lx ! position lx])
      else (lx, string_value))"
  by pat_completeness auto
termination
  by (relation "measure (\<lambda>(lx, s). length (source lx) - position lx)")
     (auto simp: advance_def)

declare read_string_loop.simps [simp del]

text \<open>\<^verbatim>\<open>_read_string\<close>: the token takes \<^verbatim>\<open>self.line\<close> as it is after the closing
  quote, and the column saved before the opening quote.\<close>

definition read_string :: "lexer \<Rightarrow> error + lexer" where
  "read_string lx =
     (let start_column = column lx;
          (lx2, string_value) = read_string_loop (advance lx) []
      in if position lx2 < length (source lx2)
         then (let lx3 = advance lx2
               in Inr (lx3\<lparr>tokens := tokens lx3 @
                              [Token STRING (StrVal string_value) (line lx3) start_column]\<rparr>))
         else Inl (NoxySyntaxError ''String nao terminada - esperado aspas''
                     (line lx2) (column lx2)))"

subsection \<open>F-strings\<close>

text \<open>\<^verbatim>\<open>str.strip()\<close>.\<close>

definition strip :: "string \<Rightarrow> string" where
  "strip s = rev (dropWhile isspace (rev (dropWhile isspace s)))"

text \<open>
  The text between the braces of an embedded expression becomes a part of the token
  (the lines of \<^verbatim>\<open>_read_fstring\<close> from \<^verbatim>\<open>expr_content = expr_text.strip()\<close> to the
  two \<^verbatim>\<open>parts.append\<close>): \<^verbatim>\<open>split(':', 1)\<close> cuts at the first colon.
\<close>

definition expression_part :: "string \<Rightarrow> fstring_part" where
  "expression_part expr_text =
     (let expr_content = strip expr_text
      in if CHR '':'' \<in> set expr_content
         then (let expr_part = takeWhile (\<lambda>c. c \<noteq> CHR '':'') expr_content;
                   format_part = tl (dropWhile (\<lambda>c. c \<noteq> CHR '':'') expr_content);
                   format_spec = strip format_part
               in if format_spec \<noteq> [] then EXPR_FORMAT (strip expr_part) format_spec
                  else EXPR (strip expr_part))
         else EXPR expr_content)"

text \<open>The inner loop of \<^verbatim>\<open>_read_fstring\<close>: the text of an embedded expression, up to
  the brace that closes it.\<close>

function read_fstring_expr :: "lexer \<Rightarrow> string \<Rightarrow> nat \<Rightarrow> lexer \<times> string \<times> nat" where
  "read_fstring_expr lx expr_text brace_count =
     (if position lx < length (source lx) \<and> brace_count > 0 then
        read_fstring_expr (advance lx)
          (if (if source lx ! position lx = CHR ''{'' then brace_count + 1
               else if source lx ! position lx = CHR ''}'' then brace_count - 1
               else brace_count) > 0
           then expr_text @ [source lx ! position lx] else expr_text)
          (if source lx ! position lx = CHR ''{'' then brace_count + 1
           else if source lx ! position lx = CHR ''}'' then brace_count - 1
           else brace_count)
      else (lx, expr_text, brace_count))"
  by pat_completeness auto
termination
  by (relation "measure (\<lambda>(lx, s, n). length (source lx) - position lx)")
     (auto simp: advance_def)

declare read_fstring_expr.simps [simp del]

lemma read_fstring_expr_position:
  "position lx \<le> position (fst (read_fstring_expr lx expr_text brace_count)) \<and>
   source (fst (read_fstring_expr lx expr_text brace_count)) = source lx"
proof (induction lx expr_text brace_count rule: read_fstring_expr.induct)
  case (1 lx expr_text brace_count)
  show ?case
  proof (cases "position lx < length (source lx) \<and> brace_count > 0")
    case True
    have adv: "position lx \<le> position (advance lx)" "source (advance lx) = source lx"
      by (auto simp: advance_def)
    from True 1 adv show ?thesis
      by (subst (1 2) read_fstring_expr.simps) (auto simp del: One_nat_def)
  next
    case False
    then show ?thesis by (subst (1 2) read_fstring_expr.simps) auto
  qed
qed

text \<open>The outer loop of \<^verbatim>\<open>_read_fstring\<close>, up to the closing quote or the end of the
  source.\<close>

function read_fstring_loop ::
    "lexer \<Rightarrow> fstring_part list \<Rightarrow> string \<Rightarrow> error + (lexer \<times> fstring_part list \<times> string)" where
  "read_fstring_loop lx parts current_text =
     (if position lx < length (source lx) \<and> source lx ! position lx \<noteq> dquote then
        if source lx ! position lx = CHR ''{'' then
          (case read_fstring_expr (advance lx) [] 1 of
             (lx', expr_text, brace_count) \<Rightarrow>
               if brace_count > 0
               then Inl (NoxySyntaxError ''F-string nao terminada - esperado chave''
                           (line lx') (column lx'))
               else read_fstring_loop lx'
                      ((if current_text \<noteq> [] then parts @ [Text current_text] else parts)
                         @ [expression_part expr_text])
                      [])
        else if source lx ! position lx = backslash then
          if position (advance lx) < length (source (advance lx))
          then read_fstring_loop (advance (advance lx)) parts
                 (current_text @ [escape (source (advance lx) ! position (advance lx))])
          else read_fstring_loop (advance lx) parts current_text
        else read_fstring_loop (advance lx) parts (current_text @ [source lx ! position lx])
      else Inr (lx, parts, current_text))"
  by pat_completeness auto
termination
proof (relation "measure (\<lambda>(lx, ps, s). length (source lx) - position lx)", goal_cases)
  case 1
  then show ?case by simp
next
  case (2 lx parts current_text lx' y expr_text brace_count)
  have "position (advance lx) \<le> position (fst (read_fstring_expr (advance lx) [] 1))"
    "source (fst (read_fstring_expr (advance lx) [] 1)) = source (advance lx)"
    using read_fstring_expr_position[of "advance lx" "[]" 1] by auto
  moreover have "position (advance lx) = position lx + 1" "source (advance lx) = source lx"
    by (auto simp: advance_def)
  moreover have "fst (read_fstring_expr (advance lx) [] 1) = lx'" using 2 by (metis fst_conv)
  ultimately have "position lx < position lx'" "source lx' = source lx" by simp_all
  then show ?case using 2 by simp
qed (auto simp: advance_def)

declare read_fstring_loop.simps [simp del]

text \<open>\<^verbatim>\<open>_read_fstring\<close>: as for a string, the token takes the line at the end of the
  literal and the column of its first character.\<close>

definition read_fstring :: "lexer \<Rightarrow> error + lexer" where
  "read_fstring lx =
     (let start_column = column lx
      in case read_fstring_loop (advance (advance lx)) [] [] of
           Inl e \<Rightarrow> Inl e
         | Inr (lx2, parts, current_text) \<Rightarrow>
             (let parts' = (if current_text \<noteq> [] then parts @ [Text current_text] else parts)
              in if position lx2 < length (source lx2)
                 then (let lx3 = advance lx2
                       in Inr (lx3\<lparr>tokens := tokens lx3 @
                                      [Token FSTRING (PartsVal parts') (line lx3) start_column]\<rparr>))
                 else Inl (NoxySyntaxError ''F-string nao terminada - esperado aspas''
                             (line lx2) (column lx2))))"

subsection \<open>Numbers, identifiers, operators\<close>

text \<open>\<^verbatim>\<open>int(number_str)\<close> on a string of decimal digits.\<close>

definition int_of_digits :: "string \<Rightarrow> nat" where
  "int_of_digits number_str = foldl (\<lambda>n c. 10 * n + (of_char c - 48)) 0 number_str"

function read_number_loop :: "lexer \<Rightarrow> string \<Rightarrow> bool \<Rightarrow> lexer \<times> string \<times> bool" where
  "read_number_loop lx number_str has_dot =
     (if position lx < length (source lx) \<and>
         (isdigit (source lx ! position lx) \<or> source lx ! position lx = CHR ''.'') then
        if source lx ! position lx = CHR ''.'' \<and> has_dot then (lx, number_str, has_dot)
        else read_number_loop (advance lx) (number_str @ [source lx ! position lx])
               (has_dot \<or> source lx ! position lx = CHR ''.'')
      else (lx, number_str, has_dot))"
  by pat_completeness auto
termination
  by (relation "measure (\<lambda>(lx, s, b). length (source lx) - position lx)")
     (auto simp: advance_def)

declare read_number_loop.simps [simp del]

definition read_number :: "lexer \<Rightarrow> lexer" where
  "read_number lx =
     (let start_column = column lx;
          (lx2, number_str, has_dot) = read_number_loop lx [] False
      in if has_dot
         then lx2\<lparr>tokens := tokens lx2 @ [Token FLOAT (FloatVal number_str) (line lx2) start_column]\<rparr>
         else lx2\<lparr>tokens := tokens lx2 @
                      [Token NUMBER (IntVal (int_of_digits number_str)) (line lx2) start_column]\<rparr>)"

function read_identifier_loop :: "lexer \<Rightarrow> string \<Rightarrow> lexer \<times> string" where
  "read_identifier_loop lx identifier =
     (if position lx < length (source lx) \<and>
         (isalnum (source lx ! position lx) \<or> source lx ! position lx = CHR ''_'')
      then read_identifier_loop (advance lx) (identifier @ [source lx ! position lx])
      else (lx, identifier))"
  by pat_completeness auto
termination
  by (relation "measure (\<lambda>(lx, s). length (source lx) - position lx)")
     (auto simp: advance_def)

declare read_identifier_loop.simps [simp del]

definition keyword_types :: "(string \<times> TokenType) list" where
  "keyword_types =
     [(''let'', LET), (''global'', GLOBAL), (''if'', IF), (''then'', THEN), (''else'', ELSE),
      (''end'', END), (''while'', WHILE), (''do'', DO), (''print'', PRINT), (''func'', FUNC),
      (''return'', RETURN), (''int'', INT_TOKEN), (''float'', FLOAT_TYPE), (''string'', STRING_TYPE),
      (''str'', STR_TYPE), (''void'', VOID), (''bool'', BOOL), (''true'', TRUE),
      (''false'', FALSE), (''null'', NULL), (''struct'', STRUCT), (''ref'', REF),
      (''zeros'', ZEROS), (''break'', BREAK), (''use'', USE), (''select'', SELECT)]"

definition read_identifier :: "lexer \<Rightarrow> lexer" where
  "read_identifier lx =
     (let start_column = column lx;
          (lx2, identifier) = read_identifier_loop lx []
      in lx2\<lparr>tokens := tokens lx2 @
                  [Token (case map_of keyword_types identifier of None \<Rightarrow> IDENTIFIER | Some t \<Rightarrow> t)
                     (StrVal identifier) (line lx2) start_column]\<rparr>)"

definition two_char_ops :: "(string \<times> TokenType) list" where
  "two_char_ops =
     [(''>='', GTE), (''<='', LTE), (''=='', EQ), (''!='', NEQ), (''->'', ARROW), (''++'', CONCAT)]"

definition operators :: "(char \<times> TokenType) list" where
  "operators =
     [(CHR ''+'', PLUS), (CHR ''-'', MINUS), (CHR ''*'', MULTIPLY), (CHR ''/'', DIVIDE),
      (CHR ''%'', MODULO), (CHR ''='', ASSIGN), (CHR ''>'', GT), (CHR ''<'', LT),
      (CHR ''('', LPAREN), (CHR '')'', RPAREN), (CHR ''['', LBRACKET), (CHR '']'', RBRACKET),
      (CHR ''{'', LBRACE), (CHR ''}'', RBRACE), (CHR '','', COMMA), (CHR '':'', COLON),
      (CHR '';'', SEMICOLON), (CHR ''.'', DOT), (CHR ''&'', AND), (CHR ''|'', OR),
      (CHR ''!'', NOT)]"

text \<open>\<^verbatim>\<open>_read_operator\<close>, called with a character under the cursor.\<close>

definition read_operator :: "lexer \<Rightarrow> error + lexer" where
  "read_operator lx =
     (let start_column = column lx;
          char = source lx ! position lx;
          two_char = char # (case peek_char lx of None \<Rightarrow> [] | Some next_char \<Rightarrow> [next_char])
      in case map_of two_char_ops two_char of
           Some t \<Rightarrow>
             Inr (advance (advance
                    (lx\<lparr>tokens := tokens lx @ [Token t (StrVal two_char) (line lx) start_column]\<rparr>)))
         | None \<Rightarrow>
             (case map_of operators char of
                Some t \<Rightarrow>
                  Inr (advance
                         (lx\<lparr>tokens := tokens lx @ [Token t (StrVal [char]) (line lx) start_column]\<rparr>))
              | None \<Rightarrow> Inl (NoxySyntaxError (''Caractere invalido '' @ [char]) (line lx) (column lx))))"

subsection \<open>The main loop\<close>

text \<open>One round of the loop of \<^verbatim>\<open>tokenize\<close> after white space is skipped: the
  reader is chosen by the character under the cursor.\<close>

definition read_token :: "lexer \<Rightarrow> error + lexer" where
  "read_token lx =
     (if current_char lx = Some (CHR ''f'') \<and> peek_char lx = Some dquote then read_fstring lx
      else if current_char lx = Some dquote then read_string lx
      else if isdigit (source lx ! position lx) then Inr (read_number lx)
      else if isalpha (source lx ! position lx) \<or> source lx ! position lx = CHR ''_''
      then Inr (read_identifier lx)
      else read_operator lx)"


lemma advance_position [simp]:
  "position (advance lx) = position lx + 1" "source (advance lx) = source lx"
  by (simp_all add: advance_def)

lemma skip_whitespace_position:
  "position lx \<le> position (skip_whitespace_and_comments lx) \<and>
   source (skip_whitespace_and_comments lx) = source lx"
proof (induction lx rule: skip_whitespace_and_comments.induct)
  case (1 lx)
  show ?case
  proof (cases "position lx < length (source lx)")
    case False
    then have "skip_whitespace_and_comments lx = lx"
      by (subst skip_whitespace_and_comments.simps) simp
    then show ?thesis by simp
  next
    case lt: True
    show ?thesis
    proof (cases "isspace (source lx ! position lx)")
      case True
      then have "skip_whitespace_and_comments lx = skip_whitespace_and_comments (advance lx)"
        using lt by (subst skip_whitespace_and_comments.simps) simp
      with 1(1)[OF lt True] show ?thesis by simp
    next
      case ns: False
      show ?thesis
      proof (cases "position lx + 1 < length (source lx) \<and> source lx ! position lx = CHR ''/''
                \<and> source lx ! (position lx + 1) = CHR ''/''")
        case True
        then have "skip_whitespace_and_comments lx = skip_whitespace_and_comments (skip_comment lx)"
          using lt ns by (subst skip_whitespace_and_comments.simps) simp
        with 1(2)[OF lt ns True] skip_comment_position[of lx] show ?thesis by simp
      next
        case False
        then have "skip_whitespace_and_comments lx = lx"
          using lt ns by (subst skip_whitespace_and_comments.simps) auto
        then show ?thesis by simp
      qed
    qed
  qed
qed

lemma read_string_loop_position:
  "position lx \<le> position (fst (read_string_loop lx string_value)) \<and>
   source (fst (read_string_loop lx string_value)) = source lx"
proof (induction lx string_value rule: read_string_loop.induct)
  case (1 lx string_value)
  show ?case
    using 1 by (subst (1 2) read_string_loop.simps) (auto simp del: One_nat_def)
qed

lemma read_string_progress:
  assumes "read_string lx = Inr lx'"
  shows "position lx < position lx' \<and> source lx' = source lx"
proof -
  obtain lx2 sv where l: "read_string_loop (advance lx) [] = (lx2, sv)" by (cases "read_string_loop (advance lx) []")
  with read_string_loop_position[of "advance lx" "[]"]
  have "position lx < position lx2" "source lx2 = source lx" by auto
  moreover from assms l have "lx' = (advance lx2)\<lparr>tokens := tokens (advance lx2) @
      [Token STRING (StrVal sv) (line (advance lx2)) (column lx)]\<rparr>"
    by (auto simp: read_string_def Let_def split: if_splits)
  ultimately show ?thesis by simp
qed

lemma read_fstring_loop_position:
  "read_fstring_loop lx parts current_text = Inr (lx', parts', text') \<Longrightarrow>
   position lx \<le> position lx' \<and> source lx' = source lx"
proof (induction lx parts current_text rule: read_fstring_loop.induct)
  case (1 lx parts current_text)
  show ?case
  proof (cases "position lx < length (source lx) \<and> source lx ! position lx \<noteq> dquote")
    case False
    with 1(5) have "lx' = lx" by (subst (asm) read_fstring_loop.simps) auto
    then show ?thesis by simp
  next
    case c: True
    show ?thesis
    proof (cases "source lx ! position lx = CHR ''{''")
      case True
      obtain lx1 et bc where e: "read_fstring_expr (advance lx) [] 1 = (lx1, et, bc)"
        by (cases "read_fstring_expr (advance lx) [] 1")
      have p1: "position lx < position lx1" "source lx1 = source lx"
        using read_fstring_expr_position[of "advance lx" "[]" 1] e by auto
      from 1(5) c True e have bc: "\<not> bc > 0"
        by (subst (asm) read_fstring_loop.simps) (auto split: if_splits)
      from 1(5) c True e bc have
        "read_fstring_loop lx1 ((if current_text \<noteq> [] then parts @ [Text current_text] else parts)
             @ [expression_part et]) [] = Inr (lx', parts', text')"
        by (subst (asm) read_fstring_loop.simps) (simp del: One_nat_def)
      from 1(1)[OF c True e[symmetric] refl bc this] p1 show ?thesis by simp
    next
      case nb: False
      show ?thesis
      proof (cases "source lx ! position lx = backslash")
        case True
        show ?thesis
        proof (cases "position (advance lx) < length (source (advance lx))")
          case t2: True
          from 1(5) c nb True t2 have
            "read_fstring_loop (advance (advance lx)) parts
               (current_text @ [escape (source (advance lx) ! position (advance lx))])
             = Inr (lx', parts', text')"
            by (subst (asm) read_fstring_loop.simps) (simp del: One_nat_def advance_position)
          from 1(2)[OF c nb True t2 this] show ?thesis by simp
        next
          case f2: False
          from 1(5) c nb True f2 have
            "read_fstring_loop (advance lx) parts current_text = Inr (lx', parts', text')"
            by (subst (asm) read_fstring_loop.simps) (simp del: One_nat_def advance_position)
          from 1(3)[OF c nb True f2 this] show ?thesis by simp
        qed
      next
        case False
        from 1(5) c nb False have
          "read_fstring_loop (advance lx) parts (current_text @ [source lx ! position lx])
             = Inr (lx', parts', text')"
          by (subst (asm) read_fstring_loop.simps) (simp del: One_nat_def)
        from 1(4)[OF c nb False this] show ?thesis by simp
      qed
    qed
  qed
qed

lemma read_fstring_progress:
  assumes "read_fstring lx = Inr lx'"
  shows "position lx < position lx' \<and> source lx' = source lx"
proof -
  from assms obtain lx2 ps ct where l: "read_fstring_loop (advance (advance lx)) [] [] = Inr (lx2, ps, ct)"
    by (auto simp: read_fstring_def Let_def split: sum.splits)
  from read_fstring_loop_position[OF l]
  have "position lx < position lx2" "source lx2 = source lx" by auto
  moreover from assms l have "position lx' = position (advance lx2)" "source lx' = source (advance lx2)"
    by (auto simp: read_fstring_def Let_def split: if_splits)
  ultimately show ?thesis by simp
qed

lemma read_number_loop_position:
  "position lx \<le> position (fst (read_number_loop lx number_str has_dot)) \<and>
   source (fst (read_number_loop lx number_str has_dot)) = source lx"
proof (induction lx number_str has_dot rule: read_number_loop.induct)
  case (1 lx number_str has_dot)
  show ?case
    using 1 by (subst (1 2) read_number_loop.simps) (auto simp del: One_nat_def)
qed

lemma read_number_progress:
  assumes "position lx < length (source lx)" "isdigit (source lx ! position lx)"
  shows "position lx < position (read_number lx) \<and> source (read_number lx) = source lx"
proof -
  have nd: "source lx ! position lx \<noteq> CHR ''.''" using assms(2) by (auto simp: isdigit_def)
  have "read_number_loop lx [] False =
        read_number_loop (advance lx) ([] @ [source lx ! position lx]) False"
    using assms nd by (subst read_number_loop.simps) simp
  moreover have "position (advance lx) \<le> position (fst (read_number_loop (advance lx) ([] @ [source lx ! position lx]) False))"
    "source (fst (read_number_loop (advance lx) ([] @ [source lx ! position lx]) False)) = source lx"
    using read_number_loop_position[of "advance lx"] by auto
  ultimately have "position lx < position (fst (read_number_loop lx [] False))"
    "source (fst (read_number_loop lx [] False)) = source lx" by auto
  then show ?thesis
    by (cases "read_number_loop lx [] False") (auto simp: read_number_def Let_def)
qed

lemma read_identifier_loop_position:
  "position lx \<le> position (fst (read_identifier_loop lx ident)) \<and>
   source (fst (read_identifier_loop lx ident)) = source lx"
proof (induction lx ident rule: read_identifier_loop.induct)
  case (1 lx ident)
  show ?case
    using 1 by (subst (1 2) read_identifier_loop.simps) (auto simp del: One_nat_def)
qed

lemma read_identifier_progress:
  assumes "position lx < length (source lx)"
    "isalpha (source lx ! position lx) \<or> source lx ! position lx = CHR ''_''"
  shows "position lx < position (read_identifier lx) \<and> source (read_identifier lx) = source lx"
proof -
  have "read_identifier_loop lx [] =
        read_identifier_loop (advance lx) ([] @ [source lx ! position lx])"
    using assms by (subst read_identifier_loop.simps) (auto simp: isalnum_def)
  moreover have "position (advance lx) \<le> position (fst (read_identifier_loop (advance lx) ([] @ [source lx ! position lx])))"
    "source (fst (read_identifier_loop (advance lx) ([] @ [source lx ! position lx]))) = source lx"
    using read_identifier_loop_position[of "advance lx"] by auto
  ultimately have "position lx < position (fst (read_identifier_loop lx []))"
    "source (fst (read_identifier_loop lx [])) = source lx" by auto
  then show ?thesis
    by (cases "read_identifier_loop lx []") (auto simp: read_identifier_def Let_def)
qed

lemma read_operator_progress:
  assumes "read_operator lx = Inr lx'"
  shows "position lx < position lx' \<and> source lx' = source lx"
  using assms by (auto simp: read_operator_def Let_def split: option.splits)

lemma read_token_progress:
  assumes "position lx < length (source lx)" "read_token lx = Inr lx'"
  shows "position lx < position lx' \<and> source lx' = source lx"
  using assms read_fstring_progress[of lx lx'] read_string_progress[of lx lx']
    read_number_progress[of lx] read_identifier_progress[of lx] read_operator_progress[of lx lx']
  by (auto simp: read_token_def split: if_splits)

text \<open>The loop of \<^verbatim>\<open>tokenize\<close>.\<close>

function tokenize_loop :: "lexer \<Rightarrow> error + lexer" where
  "tokenize_loop lx =
     (if position lx < length (source lx) then
        if position (skip_whitespace_and_comments lx) \<ge> length (source (skip_whitespace_and_comments lx))
        then Inr (skip_whitespace_and_comments lx)
        else (case read_token (skip_whitespace_and_comments lx) of
                Inl e \<Rightarrow> Inl e
              | Inr lx' \<Rightarrow> tokenize_loop lx')
      else Inr lx)"
  by pat_completeness auto
termination
proof (relation "measure (\<lambda>lx. length (source lx) - position lx)", goal_cases)
  case 1
  then show ?case by simp
next
  case (2 lx lx')
  have "position lx \<le> position (skip_whitespace_and_comments lx)"
    "source (skip_whitespace_and_comments lx) = source lx"
    using skip_whitespace_position[of lx] by auto
  moreover have "position (skip_whitespace_and_comments lx) < position lx'"
    "source lx' = source (skip_whitespace_and_comments lx)"
    using read_token_progress[of "skip_whitespace_and_comments lx" lx'] 2 by auto
  ultimately show ?case using 2(1) by simp
qed

declare tokenize_loop.simps [simp del]

text \<open>\<^verbatim>\<open>Lexer(source).tokenize()\<close>\<close>

definition tokenize :: "string \<Rightarrow> error + Token list" where
  "tokenize src =
     (case tokenize_loop (Lexer src) of
        Inl e \<Rightarrow> Inl e
      | Inr lx \<Rightarrow> Inr (tokens lx @ [Token EOF (StrVal []) (line lx) (column lx)]))"

subsection \<open>Positions and brace depth, as the specification words them\<close>

text \<open>The line and column (both from 1) of the character at an offset of the source: the
  line is one more than the number of newlines before it, the column one more than the
  number of characters after the last of them.\<close>

definition location_of :: "string \<Rightarrow> nat \<Rightarrow> nat \<times> nat" where
  "location_of src offset =
     (1 + length (filter (\<lambda>c. c = newline) (take offset src)),
      1 + length (takeWhile (\<lambda>c. c \<noteq> newline) (rev (take offset src))))"

text \<open>The brace depth of every colon of an expression text, relative to the text: depth
  0 is the top level of the expression.\<close>

fun colon_depths :: "string \<Rightarrow> nat \<Rightarrow> nat list" where
  "colon_depths [] depth = []"
| "colon_depths (c # cs) depth =
     (if c = CHR ''{'' then colon_depths cs (depth + 1)
      else if c = CHR ''}'' then colon_depths cs (depth - 1)
      else if c = CHR '':'' then depth # colon_depths cs depth
      else colon_depths cs depth)"

text \<open>Two sources: a string literal with a newline inside, and an f-string whose
  expression has a colon inside inner braces only.\<close>

definition two_line_string :: string where
  "two_line_string = ''let x = '' @ [dquote] @ ''a'' @ [newline] @ ''b'' @ [dquote]"

definition nested_colon_fstring :: string where
  "nested_colon_fstring = ''f'' @ [dquote] @ ''{ {a:b} }'' @ [dquote]"

section \<open>Module resolver\<close>

subsection \<open>Exported symbols\<close>

datatype symbol_type = SymFunction | SymVariable | SymStruct

text \<open>The entry of a symbol in a module's export dictionary: its \<^verbatim>\<open>'type'\<close> and its
  \<^verbatim>\<open>'node'\<close> (the other keys repeat field_list of the node).\<close>

datatype symbol_info = SymbolInfo (sym_type: symbol_type) (sym_node: node)

type_synonym module_symbols = "(string \<times> symbol_info) list"

text \<open>\<^verbatim>\<open>ModuleManager._extract_exported_symbols\<close>: a later statement with the same name
  replaces the entry of an earlier one.\<close>

fun export_statement :: "module_symbols \<Rightarrow> node \<Rightarrow> module_symbols" where
  "export_statement symbols (FunctionNode name params return_type body) =
     AList.update name (SymbolInfo SymFunction (FunctionNode name params return_type body)) symbols"
| "export_statement symbols (AssignmentNode identifier var_type val is_global) =
     (if is_global
      then AList.update identifier
             (SymbolInfo SymVariable (AssignmentNode identifier var_type val is_global)) symbols
      else symbols)"
| "export_statement symbols (StructDefinitionNode name field_list) =
     AList.update name (SymbolInfo SymStruct (StructDefinitionNode name field_list)) symbols"
| "export_statement symbols _ = symbols"

definition extract_exported_symbols :: "node list \<Rightarrow> module_symbols" where
  "extract_exported_symbols statements = foldl export_statement [] statements"

subsection \<open>Names used by a function body\<close>

text \<open>
  \<^verbatim>\<open>visit_node\<close> inside \<^verbatim>\<open>_analyze_function_dependencies\<close>: the names it adds to
  \<^verbatim>\<open>dependencies\<close>, in the order of the traversal, or the exception that ends the
  traversal. \<open>visit_then\<close> is one part of the traversal followed by another, and
  \<open>visit_all\<close> a loop over a list.
\<close>

fun visit_then :: "error + string list \<Rightarrow> error + string list \<Rightarrow> error + string list" where
  "visit_then (Inl e) rest = Inl e"
| "visit_then (Inr names) (Inl e) = Inl e"
| "visit_then (Inr names) (Inr names') = Inr (names @ names')"

definition visit_all :: "(error + string list) list \<Rightarrow> error + string list" where
  "visit_all results = foldr visit_then results (Inr [])"

text \<open>
  The last branch of \<^verbatim>\<open>visit_node\<close> walks every object that has a \<^verbatim>\<open>__dict__\<close>
  through its attributes. A member of the enumeration \<^verbatim>\<open>TokenType\<close> is such an object:
  its \<^verbatim>\<open>__dict__\<close> holds \<^verbatim>\<open>__objclass__\<close>, the enumeration class, whose own
  \<^verbatim>\<open>__dict__\<close> holds the members. The walk goes from the member to the class and back to
  a member without end, until Python raises \<^verbatim>\<open>RecursionError\<close>.
\<close>

definition visit_token_type :: "TokenType \<Rightarrow> error + string list" where
  "visit_token_type member = Inl (PyRecursionError ''maximum recursion depth exceeded'')"

text \<open>
  The node classes with a branch of their own come first. Every other class goes through
  the last branch, attribute by attribute in the order of the dataclass: a string, a
  number, a truth value, a tuple or a dictionary has no \<^verbatim>\<open>__dict__\<close> and adds nothing;
  a type of the source language is walked through its own attributes, which are of these
  kinds or types again, and adds nothing; a node, and each item of a list, is visited.
\<close>

fun visit_node :: "node \<Rightarrow> error + string list" where
  "visit_node (IdentifierNode name) = Inr [name]"
| "visit_node (CallNode function_name arguments) =
     visit_then (Inr [function_name]) (visit_all (map visit_node arguments))"
| "visit_node (StructConstructorNode struct_name arguments) =
     visit_then (Inr [struct_name]) (visit_all (map visit_node arguments))"
| "visit_node (AssignmentNode identifier var_type val is_global) =
     (case val of None \<Rightarrow> Inr [] | Some v \<Rightarrow> visit_node v)"
| "visit_node (BinaryOpNode left operator right) =
     visit_then (visit_node left) (visit_node right)"
| "visit_node (ArrayAccessNode array_name index) =
     visit_then (Inr [array_name]) (visit_node index)"
| "visit_node (IfNode condition then_branch else_branch) =
     visit_then (visit_node condition)
       (visit_then (visit_all (map visit_node then_branch))
          (case else_branch of None \<Rightarrow> Inr [] | Some stmts \<Rightarrow> visit_all (map visit_node stmts)))"
| "visit_node (WhileNode condition body) =
     visit_then (visit_node condition) (visit_all (map visit_node body))"
| "visit_node (ReturnNode val) = (case val of None \<Rightarrow> Inr [] | Some v \<Rightarrow> visit_node v)"
| "visit_node (NumberNode n) = Inr []"
| "visit_node (FloatNode f) = Inr []"
| "visit_node (StringNode s) = Inr []"
| "visit_node (FStringNode parts) =
     visit_all (map (\<lambda>part. case part of Inl text \<Rightarrow> Inr [] | Inr e \<Rightarrow> visit_node e) parts)"
| "visit_node (ArrayNode elements element_type) = visit_all (map visit_node elements)"
| "visit_node (ZerosNode n element_type) = Inr []"
| "visit_node (CastNode expression target_type) = visit_node expression"
| "visit_node (ConcatNode left right) = visit_then (visit_node left) (visit_node right)"
| "visit_node (ArrayAssignmentNode array_name index val) =
     visit_then (visit_node index) (visit_node val)"
| "visit_node (PrintNode expression) = visit_node expression"
| "visit_node (FunctionNode name params return_type body) = visit_all (map visit_node body)"
| "visit_node (StructDefinitionNode name field_list) = Inr []"
| "visit_node (StructAccessNode struct_name field_name) = Inr []"
| "visit_node (StructAccessFromArrayNode base_access field_path) = visit_node base_access"
| "visit_node (StructAssignmentNode struct_name field_name val) = visit_node val"
| "visit_node (NestedStructAssignmentNode struct_name field_path val) = visit_node val"
| "visit_node (ArrayFieldAssignmentNode array_name index field_path val) =
     visit_then (visit_node index) (visit_node val)"
| "visit_node (ProgramNode statements) = visit_all (map visit_node statements)"
| "visit_node (BooleanNode b) = Inr []"
| "visit_node NullNode = Inr []"
| "visit_node (UnaryOpNode operator operand) =
     visit_then (visit_token_type operator) (visit_node operand)"
| "visit_node (ReferenceNode expression) = visit_node expression"
| "visit_node BreakNode = Inr []"
| "visit_node (StringCharAccessNode s index) = visit_node index"
| "visit_node (UseNode module_name selected_symbols import_all) = Inr []"

definition builtin_functions :: "string list" where
  "builtin_functions =
     [''printf'', ''malloc'', ''free'', ''strlen'', ''strcpy'', ''strcat'', ''to_str'',
      ''array_to_str'', ''to_int'', ''to_float'', ''ord'', ''length'', ''print'', ''to_str'']"

text \<open>
  \<^verbatim>\<open>_analyze_function_dependencies\<close>. The result is a Python set; it is given here as a
  list without repetitions. Only a \<^verbatim>\<open>FunctionNode\<close> is ever passed.
\<close>

fun analyze_function_dependencies :: "node \<Rightarrow> error + string list" where
  "analyze_function_dependencies (FunctionNode name params return_type body) =
     (case visit_all (map visit_node body) of
        Inl e \<Rightarrow> Inl e
      | Inr dependencies \<Rightarrow>
          Inr (remdups (filter (\<lambda>dep. dep \<notin> set builtin_functions \<and> dep \<notin> set (map fst params))
                          dependencies)))"
| "analyze_function_dependencies _ = Inr []"

subsection \<open>Dependency collection\<close>

text \<open>
  \<^verbatim>\<open>_collect_dependencies\<close> calls itself from a loop over the dependencies of a
  function, with the set \<^verbatim>\<open>collected\<close> shared by all calls. The first argument bounds
  the depth of the recursion; \<open>None\<close> means the bound was reached.
  \<open>collect_each\<close> is the loop.
\<close>

fun collect_dependencies ::
    "nat \<Rightarrow> module_symbols \<Rightarrow> string \<Rightarrow> string set \<Rightarrow> (error + string set) option"
  and collect_each ::
    "nat \<Rightarrow> module_symbols \<Rightarrow> string list \<Rightarrow> string set \<Rightarrow> (error + string set) option" where
  "collect_dependencies 0 module_syms symbol_name collected = None"
| "collect_dependencies (Suc depth) module_syms symbol_name collected =
     (if symbol_name \<in> collected then Some (Inr collected)
      else case map_of module_syms symbol_name of
        None \<Rightarrow> Some (Inr collected)
      | Some symbol_info \<Rightarrow>
          (case sym_type symbol_info of
             SymFunction \<Rightarrow>
               (case analyze_function_dependencies (sym_node symbol_info) of
                  Inl e \<Rightarrow> Some (Inl e)
                | Inr dependencies \<Rightarrow>
                    collect_each depth module_syms dependencies (insert symbol_name collected))
           | _ \<Rightarrow> Some (Inr (insert symbol_name collected))))"
| "collect_each depth module_syms [] collected = Some (Inr collected)"
| "collect_each depth module_syms (dep # deps) collected =
     (if map_of module_syms dep \<noteq> None \<and> dep \<notin> collected
      then (case collect_dependencies depth module_syms dep collected of
              None \<Rightarrow> None
            | Some (Inl e) \<Rightarrow> Some (Inl e)
            | Some (Inr collected') \<Rightarrow> collect_each depth module_syms deps collected')
      else collect_each depth module_syms deps collected)"

subsection \<open>Loading a module\<close>

text \<open>
  What the module manager finds for a module name: no file, a file that does not lex or
  parse (with the message of the exception), or the statements of the parsed program.
\<close>

datatype module_file = NotFound | Unparsable string | Parsed "node list"

definition load_module :: "(string \<Rightarrow> module_file) \<Rightarrow> string \<Rightarrow> error + module_symbols" where
  "load_module modules module_name =
     (case modules module_name of
        NotFound \<Rightarrow> Inl (NoxyError (''Modulo '' @ module_name @ '' nao encontrado''))
      | Unparsable msg \<Rightarrow>
          Inl (NoxyError (''Erro ao carregar modulo '' @ module_name @ '': '' @ msg))
      | Parsed statements \<Rightarrow> Inr (extract_exported_symbols statements))"

subsection \<open>The use statement\<close>

type_synonym imported_symbols = "string \<rightharpoonup> symbol_info"

text \<open>The loop over \<^verbatim>\<open>use_node.selected_symbols\<close>: a requested symbol that the module
  does not export raises.\<close>

fun collect_selected ::
    "nat \<Rightarrow> module_symbols \<Rightarrow> string \<Rightarrow> string list \<Rightarrow> string set \<Rightarrow> (error + string set) option"
  where
  "collect_selected depth module_syms module_name [] symbols_to_import =
     Some (Inr symbols_to_import)"
| "collect_selected depth module_syms module_name (symbol_name # rest) symbols_to_import =
     (if map_of module_syms symbol_name \<noteq> None
      then (case collect_dependencies depth module_syms symbol_name symbols_to_import of
              None \<Rightarrow> None
            | Some (Inl e) \<Rightarrow> Some (Inl e)
            | Some (Inr symbols_to_import') \<Rightarrow>
                collect_selected depth module_syms module_name rest symbols_to_import')
      else Some (Inl (NoxyError (''Simbolo '' @ symbol_name @ '' nao encontrado no modulo ''
                                  @ module_name))))"

text \<open>The three ways of registering symbols in \<^verbatim>\<open>self.imported_symbols\<close>.\<close>

definition import_everything :: "module_symbols \<Rightarrow> imported_symbols \<Rightarrow> imported_symbols" where
  "import_everything module_syms imported =
     foldl (\<lambda>imp (symbol_name, symbol_info). imp(symbol_name \<mapsto> symbol_info))
       imported module_syms"

definition import_selected ::
    "module_symbols \<Rightarrow> string set \<Rightarrow> imported_symbols \<Rightarrow> imported_symbols" where
  "import_selected module_syms symbols_to_import imported =
     (\<lambda>symbol_name. if symbol_name \<in> symbols_to_import then map_of module_syms symbol_name
                     else imported symbol_name)"

definition import_namespace ::
    "string \<Rightarrow> module_symbols \<Rightarrow> imported_symbols \<Rightarrow> imported_symbols" where
  "import_namespace module_name module_syms imported =
     foldl (\<lambda>imp (symbol_name, symbol_info).
              imp(module_name @ ''.'' @ symbol_name \<mapsto> symbol_info))
       imported module_syms"

text \<open>\<^verbatim>\<open>except Exception as e: raise NoxyError(f"Erro ao processar import: {str(e)}")\<close>\<close>

fun wrap_import_error :: "error \<Rightarrow> error" where
  "wrap_import_error (NoxyError message) =
     NoxyError (''Erro ao processar import: '' @ format_error message)"
| "wrap_import_error (NoxySyntaxError message ln col) =
     NoxyError (''Erro ao processar import: '' @ format_error message)"
| "wrap_import_error (NoxySemanticError message) =
     NoxyError (''Erro ao processar import: '' @ format_error message)"
| "wrap_import_error (PyTypeError message) = NoxyError (''Erro ao processar import: '' @ message)"
| "wrap_import_error (PyNameError message) = NoxyError (''Erro ao processar import: '' @ message)"
| "wrap_import_error (PyValueError message) = NoxyError (''Erro ao processar import: '' @ message)"
| "wrap_import_error (PyNotImplementedError message) =
     NoxyError (''Erro ao processar import: '' @ message)"
| "wrap_import_error (PyAttributeError message) =
     NoxyError (''Erro ao processar import: '' @ message)"
| "wrap_import_error (PyRecursionError message) =
     NoxyError (''Erro ao processar import: '' @ message)"

text \<open>
  \<^verbatim>\<open>NoxyCompiler._handle_use_statement\<close>, on the field_list of the \<^verbatim>\<open>UseNode\<close>. The
  recursion of the dependency collection is given one level more than the module has
  symbols.
\<close>

definition handle_use_statement ::
    "(string \<Rightarrow> module_file) \<Rightarrow> string \<Rightarrow> string list option \<Rightarrow> bool \<Rightarrow> imported_symbols
     \<Rightarrow> (error + imported_symbols) option" where
  "handle_use_statement modules module_name selected_symbols import_all imported =
     (case load_module modules module_name of
        Inl e \<Rightarrow> Some (Inl (wrap_import_error e))
      | Inr module_syms \<Rightarrow>
          if import_all then Some (Inr (import_everything module_syms imported))
          else if selected_symbols \<noteq> None \<and> selected_symbols \<noteq> Some []
          then (case collect_selected (Suc (length module_syms)) module_syms module_name
                       (the selected_symbols) {} of
                  None \<Rightarrow> None
                | Some (Inl e) \<Rightarrow> Some (Inl (wrap_import_error e))
                | Some (Inr symbols_to_import) \<Rightarrow>
                    Some (Inr (import_selected module_syms symbols_to_import imported)))
          else Some (Inr (import_namespace module_name module_syms imported)))"

text \<open>\<^verbatim>\<open>NoxyCompiler._process_imports\<close>: the use statements of a program, in order.\<close>

fun process_imports ::
    "(string \<Rightarrow> module_file) \<Rightarrow> node list \<Rightarrow> imported_symbols \<Rightarrow> (error + imported_symbols) option"
  where
  "process_imports modules [] imported = Some (Inr imported)"
| "process_imports modules (UseNode module_name selected_symbols import_all # statements) imported =
     (case handle_use_statement modules module_name selected_symbols import_all imported of
        None \<Rightarrow> None
      | Some (Inl e) \<Rightarrow> Some (Inl e)
      | Some (Inr imported') \<Rightarrow> process_imports modules statements imported')"
| "process_imports modules (stmt # statements) imported =
     process_imports modules statements imported"

subsection \<open>Example modules\<close>

text \<open>A module \<^verbatim>\<open>utils\<close> in which \<^verbatim>\<open>g\<close> calls \<^verbatim>\<open>h\<close> and \<^verbatim>\<open>k\<close> stands alone.\<close>

definition utils_statements :: "node list" where
  "utils_statements =
     [FunctionNode ''g'' [] IntType [ReturnNode (Some (CallNode ''h'' []))],
      FunctionNode ''h'' [] IntType [ReturnNode (Some (NumberNode 1))],
      FunctionNode ''k'' [] IntType [ReturnNode (Some (NumberNode 2))]]"


text \<open>A module \<^verbatim>\<open>logic\<close> with one function, whose body negates its parameter:
  \<^verbatim>\<open>func negate(x: bool) -> bool return !x end\<close>.\<close>

definition logic_statements :: "node list" where
  "logic_statements =
     [FunctionNode ''negate'' [(''x'', BoolType)] BoolType
        [ReturnNode (Some (UnaryOpNode NOT (IdentifierNode ''x'')))]]"

text \<open>A module \<^verbatim>\<open>config\<close> with a struct, a global variable of that struct, and a
  function that reads a field of the variable:
  \<^verbatim>\<open>struct Config x: int end\<close>, \<^verbatim>\<open>let cfg: Config = Config(1)\<close>,
  \<^verbatim>\<open>func bump() -> int return cfg.x end\<close>.\<close>

definition config_statements :: "node list" where
  "config_statements =
     [StructDefinitionNode ''Config'' [(''x'', IntType)],
      AssignmentNode ''cfg'' (Some (StructType ''Config'' [(''x'', IntType)]))
        (Some (StructConstructorNode ''Config'' [NumberNode 1])) True,
      FunctionNode ''bump'' [] IntType [ReturnNode (Some (StructAccessNode ''cfg'' ''x''))]]"
section \<open>Code generator: types and the struct table\<close>

subsection \<open>Target types\<close>

text \<open>The types of the intermediate representation that the generator builds, and the
  basic types it fixes in its constructor.\<close>

datatype ir_type =
    IntTy nat
  | DoubleTy
  | VoidTy
  | PointerTy ir_type
  | ArrayTy ir_type nat
  | LiteralStructTy "ir_type list"
  | FunctionTy ir_type "ir_type list"

definition int_type :: ir_type where "int_type = IntTy 64"
definition float_type :: ir_type where "float_type = DoubleTy"
definition char_type :: ir_type where "char_type = IntTy 8"
definition string_type :: ir_type where "string_type = PointerTy (IntTy 8)"
definition void_type :: ir_type where "void_type = VoidTy"
definition bool_type :: ir_type where "bool_type = IntTy 1"

text \<open>\<^verbatim>\<open>ir.LiteralStructType([], packed=False)\<close>, the forward declaration of a struct
  that has no entry yet.\<close>

definition opaque_type :: ir_type where "opaque_type = LiteralStructTy []"

type_synonym struct_types = "string \<rightharpoonup> ir_type"

text \<open>\<^verbatim>\<open>_convert_type\<close>. It reads \<^verbatim>\<open>self.struct_types\<close> and, for an array of
  structs or a reference to a struct that has no entry, stores a forward declaration.\<close>

fun convert_type :: "struct_types \<Rightarrow> noxy_type \<Rightarrow> error + (ir_type \<times> struct_types)" where
  "convert_type st IntType = Inr (int_type, st)"
| "convert_type st FloatType = Inr (float_type, st)"
| "convert_type st StringType = Inr (string_type, st)"
| "convert_type st StrType = Inr (string_type, st)"
| "convert_type st BoolType = Inr (bool_type, st)"
| "convert_type st (ArrayType (StructType struct_name fs) (Some n)) =
     (case st struct_name of
        Some struct_type \<Rightarrow> Inr (ArrayTy struct_type n, st)
      | None \<Rightarrow> Inr (ArrayTy opaque_type n, st(struct_name \<mapsto> opaque_type)))"
| "convert_type st (ArrayType element_type (Some n)) =
     (case convert_type st element_type of
        Inl e \<Rightarrow> Inl e
      | Inr (element_lltype, st') \<Rightarrow> Inr (ArrayTy element_lltype n, st'))"
| "convert_type st (ArrayType element_type None) =
     (case convert_type st element_type of
        Inl e \<Rightarrow> Inl e
      | Inr (element_lltype, st') \<Rightarrow> Inr (PointerTy element_lltype, st'))"
| "convert_type st VoidType = Inr (void_type, st)"
| "convert_type st (ReferenceType (StructType struct_name fs) is_mutable) =
     (case st struct_name of
        Some struct_type \<Rightarrow> Inr (PointerTy struct_type, st)
      | None \<Rightarrow> Inr (PointerTy opaque_type, st(struct_name \<mapsto> opaque_type)))"
| "convert_type st (ReferenceType target_type is_mutable) =
     (case convert_type st target_type of
        Inl e \<Rightarrow> Inl e
      | Inr (target_lltype, st') \<Rightarrow> Inr (PointerTy target_lltype, st'))"
| "convert_type st (StructType struct_name fs) =
     (case st struct_name of
        Some struct_type \<Rightarrow> Inr (PointerTy struct_type, st)
      | None \<Rightarrow> Inl (PyTypeError (''Struct '' @ struct_name @ '' nao foi registrado'')))"
| "convert_type st (FunctionType param_types return_type) =
     Inl (PyTypeError ''Tipo nao suportado'')"
| "convert_type st NullType = Inl (PyTypeError ''Tipo nao suportado'')"

subsection \<open>Struct definitions\<close>

text \<open>A \<^verbatim>\<open>StructDefinitionNode\<close>: its name and its fields in declaration order.\<close>

type_synonym struct_def = "string \<times> (string \<times> noxy_type) list"

text \<open>
  What is stored for a struct name: by \<^verbatim>\<open>_process_struct_definition\<close> (\<open>Defined\<close>) or
  by \<^verbatim>\<open>_process_struct_with_placeholders\<close> (\<open>Placeheld\<close>). The list \<open>insertions\<close>
  below records these stores in the order in which they happen; the program itself keeps
  no such list.
\<close>

datatype struct_event = Defined string | Placeheld string

record struct_tables =
  struct_types :: struct_types
  struct_fields :: "string \<rightharpoonup> (string \<times> nat) list"
  struct_field_types :: "string \<rightharpoonup> (string \<times> noxy_type) list"
  struct_auto_references :: "string \<rightharpoonup> (nat \<times> string) list"
  insertions :: "struct_event list"

definition empty_struct_tables :: struct_tables where
  "empty_struct_tables =
     \<lparr>struct_types = Map.empty, struct_fields = Map.empty, struct_field_types = Map.empty,
      struct_auto_references = Map.empty, insertions = []\<rparr>"

text \<open>The type of one field in \<^verbatim>\<open>_process_struct_definition\<close>: a reference to a struct
  is a byte pointer, an embedded struct is the struct's own type (forward-declared when it
  has no entry), anything else goes through \<^verbatim>\<open>_convert_type\<close>.\<close>

fun definition_field_type :: "struct_types \<Rightarrow> noxy_type \<Rightarrow> error + (ir_type \<times> struct_types)" where
  "definition_field_type st (ReferenceType (StructType target_name fs) is_mutable) =
     Inr (PointerTy (IntTy 8), st)"
| "definition_field_type st (StructType field_struct fs) =
     (case st field_struct of
        None \<Rightarrow> Inr (opaque_type, st(field_struct \<mapsto> opaque_type))
      | Some t \<Rightarrow> Inr (t, st))"
| "definition_field_type st field_type = convert_type st field_type"

text \<open>The loop over the fields, shared by both ways of processing a struct: the field
  types collected so far and the struct table.\<close>

fun lower_fields ::
    "(struct_types \<Rightarrow> noxy_type \<Rightarrow> error + (ir_type \<times> struct_types)) \<Rightarrow> struct_types
     \<Rightarrow> (string \<times> noxy_type) list \<Rightarrow> ir_type list \<Rightarrow> error + (ir_type list \<times> struct_types)" where
  "lower_fields lower st [] field_types = Inr (field_types, st)"
| "lower_fields lower st ((field_name, field_type) # rest) field_types =
     (case lower st field_type of
        Inl e \<Rightarrow> Inl e
      | Inr (llvm_type, st') \<Rightarrow> lower_fields lower st' rest (field_types @ [llvm_type]))"

text \<open>The fields of a struct that refer to the struct itself, with their positions.\<close>

fun auto_references_of :: "string \<Rightarrow> (string \<times> noxy_type) list \<Rightarrow> nat \<Rightarrow> (nat \<times> string) list" where
  "auto_references_of struct_name [] i = []"
| "auto_references_of struct_name ((field_name, field_type) # rest) i =
     (case field_type of
        ReferenceType (StructType target_name fs) is_mutable \<Rightarrow>
          (if target_name = struct_name then [(i, field_name)] else [])
      | _ \<Rightarrow> [])
     @ auto_references_of struct_name rest (i + 1)"

text \<open>\<^verbatim>\<open>_process_struct_definition\<close>\<close>

definition process_struct_definition :: "struct_def \<Rightarrow> struct_tables \<Rightarrow> error + struct_tables" where
  "process_struct_definition struct_def tabs =
     (case lower_fields definition_field_type (struct_types tabs) (snd struct_def) [] of
        Inl e \<Rightarrow> Inl e
      | Inr (field_types, st) \<Rightarrow>
          Inr (tabs\<lparr>
            struct_types := st(fst struct_def \<mapsto> LiteralStructTy field_types),
            struct_fields := (struct_fields tabs)
              (fst struct_def \<mapsto> zip (map fst (snd struct_def)) [0 ..< length (snd struct_def)]),
            struct_field_types := (struct_field_types tabs)(fst struct_def \<mapsto> snd struct_def),
            struct_auto_references :=
              (if auto_references_of (fst struct_def) (snd struct_def) 0 \<noteq> []
               then (struct_auto_references tabs)
                      (fst struct_def \<mapsto> auto_references_of (fst struct_def) (snd struct_def) 0)
               else struct_auto_references tabs),
            insertions := insertions tabs @ [Defined (fst struct_def)]\<rparr>))"

text \<open>The type of one field in \<^verbatim>\<open>_process_struct_with_placeholders\<close>: an embedded
  struct that has no entry becomes a byte pointer.\<close>

fun placeholder_field_type :: "struct_types \<Rightarrow> noxy_type \<Rightarrow> error + (ir_type \<times> struct_types)" where
  "placeholder_field_type st (StructType field_struct fs) =
     (case st field_struct of
        None \<Rightarrow> Inr (PointerTy (IntTy 8), st)
      | Some t \<Rightarrow> convert_type st (StructType field_struct fs))"
| "placeholder_field_type st field_type = convert_type st field_type"

text \<open>\<^verbatim>\<open>_process_struct_with_placeholders\<close>\<close>

definition process_struct_with_placeholders ::
    "struct_def \<Rightarrow> struct_tables \<Rightarrow> error + struct_tables" where
  "process_struct_with_placeholders struct_def tabs =
     (case lower_fields placeholder_field_type (struct_types tabs) (snd struct_def) [] of
        Inl e \<Rightarrow> Inl e
      | Inr (field_types, st) \<Rightarrow>
          Inr (tabs\<lparr>
            struct_types := st(fst struct_def \<mapsto> LiteralStructTy field_types),
            struct_fields := (struct_fields tabs)
              (fst struct_def \<mapsto> zip (map fst (snd struct_def)) [0 ..< length (snd struct_def)]),
            struct_field_types := (struct_field_types tabs)(fst struct_def \<mapsto> snd struct_def),
            insertions := insertions tabs @ [Placeheld (fst struct_def)]\<rparr>))"

subsection \<open>Dependency order\<close>

text \<open>
  \<^verbatim>\<open>_get_struct_dependencies\<close>: the names of the structs that the fields embed by
  value. A reference field is no dependency. The result is a Python set, given here
  without repetitions in field order.
\<close>

fun get_struct_dependencies :: "struct_def \<Rightarrow> string list" where
  "get_struct_dependencies (struct_name, field_list) =
     remdups (concat (map (\<lambda>(field_name, field_type).
                             case field_type of StructType dep fs \<Rightarrow> [dep] | _ \<Rightarrow> [])
                          field_list))"

text \<open>The two sets local to \<^verbatim>\<open>_process_structs_in_dependency_order\<close>, with the
  generator's struct tables.\<close>

record order_state =
  processed :: "string set"
  processing :: "string set"
  tables :: struct_tables

text \<open>
  The nested function \<^verbatim>\<open>process_struct\<close>, which calls itself from the loop over the
  dependencies (\<open>process_dependencies\<close>). \<open>set_order\<close> is the order in which Python
  iterates over the set of dependencies. The first argument bounds the depth of the
  recursion; \<open>None\<close> means the bound was reached.
\<close>

fun process_struct ::
    "nat \<Rightarrow> (string list \<Rightarrow> string list) \<Rightarrow> struct_def list \<Rightarrow> struct_def \<Rightarrow> order_state
     \<Rightarrow> (error + order_state) option"
  and process_dependencies ::
    "nat \<Rightarrow> (string list \<Rightarrow> string list) \<Rightarrow> struct_def list \<Rightarrow> string list \<Rightarrow> order_state
     \<Rightarrow> (error + order_state) option" where
  "process_struct 0 set_order struct_definitions struct_def s = None"
| "process_struct (Suc depth) set_order struct_definitions struct_def s =
     (if fst struct_def \<in> processed s then Some (Inr s)
      else if fst struct_def \<in> processing s then
        (case process_struct_with_placeholders struct_def (tables s) of
           Inl e \<Rightarrow> Some (Inl e)
         | Inr tabs \<Rightarrow>
             Some (Inr (s\<lparr>tables := tabs,
                          processed := insert (fst struct_def) (processed s),
                          processing := processing s - {fst struct_def}\<rparr>)))
      else
        (case process_dependencies depth set_order struct_definitions
                (set_order (get_struct_dependencies struct_def))
                (s\<lparr>processing := insert (fst struct_def) (processing s)\<rparr>) of
           None \<Rightarrow> None
         | Some (Inl e) \<Rightarrow> Some (Inl e)
         | Some (Inr s1) \<Rightarrow>
             (case process_struct_definition struct_def (tables s1) of
                Inl e \<Rightarrow> Some (Inl e)
              | Inr tabs \<Rightarrow>
                  Some (Inr (s1\<lparr>tables := tabs,
                                processed := insert (fst struct_def) (processed s1),
                                processing := processing s1 - {fst struct_def}\<rparr>)))))"
| "process_dependencies depth set_order struct_definitions [] s = Some (Inr s)"
| "process_dependencies depth set_order struct_definitions (dep_name # deps) s =
     (case find (\<lambda>d. fst d = dep_name) struct_definitions of
        None \<Rightarrow> process_dependencies depth set_order struct_definitions deps s
      | Some dep_struct \<Rightarrow>
          (case process_struct depth set_order struct_definitions dep_struct s of
             None \<Rightarrow> None
           | Some (Inl e) \<Rightarrow> Some (Inl e)
           | Some (Inr s') \<Rightarrow> process_dependencies depth set_order struct_definitions deps s'))"

text \<open>The loop \<^verbatim>\<open>for struct_def in struct_definitions: process_struct(struct_def)\<close>.\<close>

fun process_each ::
    "nat \<Rightarrow> (string list \<Rightarrow> string list) \<Rightarrow> struct_def list \<Rightarrow> struct_def list \<Rightarrow> order_state
     \<Rightarrow> (error + order_state) option" where
  "process_each depth set_order struct_definitions [] s = Some (Inr s)"
| "process_each depth set_order struct_definitions (struct_def # rest) s =
     (case process_struct depth set_order struct_definitions struct_def s of
        None \<Rightarrow> None
      | Some (Inl e) \<Rightarrow> Some (Inl e)
      | Some (Inr s') \<Rightarrow> process_each depth set_order struct_definitions rest s')"

text \<open>\<^verbatim>\<open>_process_structs_in_dependency_order\<close>, from the struct tables of the generator
  to the tables after all definitions are processed. The recursion is given one level
  more than there are definitions.\<close>

definition process_structs_in_dependency_order ::
    "(string list \<Rightarrow> string list) \<Rightarrow> struct_def list \<Rightarrow> struct_tables
     \<Rightarrow> (error + struct_tables) option" where
  "process_structs_in_dependency_order set_order struct_definitions tabs =
     (case process_each (Suc (length struct_definitions)) set_order struct_definitions
             struct_definitions \<lparr>processed = {}, processing = {}, tables = tabs\<rparr> of
        None \<Rightarrow> None
      | Some (Inl e) \<Rightarrow> Some (Inl e)
      | Some (Inr s) \<Rightarrow> Some (Inr (tables s)))"

subsection \<open>Notions used in the verification of the dependency order\<close>

text \<open>The names of the set, and the names not yet met by the processing.\<close>

definition struct_names :: "struct_def list \<Rightarrow> string set" where
  "struct_names struct_definitions = fst ` set struct_definitions"

definition unseen :: "struct_def list \<Rightarrow> order_state \<Rightarrow> string set" where
  "unseen struct_definitions s = struct_names struct_definitions - (processed s \<union> processing s)"

text \<open>Whether a definition of a struct, full or with placeholders, has been stored.\<close>

definition has_event :: "string \<Rightarrow> struct_event list \<Rightarrow> bool" where
  "has_event b evs = (Defined b \<in> set evs \<or> Placeheld b \<in> set evs)"

text \<open>
  The structs of the set that the struct named \<open>a\<close> embeds by value, read from the
  first definition that carries the name; and the relation "embeds by value", whose
  transitive closure holds between \<open>b\<close> and \<open>a\<close> when a chain of non-reference fields
  leads from \<open>b\<close> to \<open>a\<close>.
\<close>

definition value_dependencies :: "struct_def list \<Rightarrow> string \<Rightarrow> string set" where
  "value_dependencies defs a =
     (case find (\<lambda>d. fst d = a) defs of
        None \<Rightarrow> {}
      | Some d \<Rightarrow> {b \<in> struct_names defs. \<exists>f fs. (f, StructType b fs) \<in> set (snd d)})"

definition value_dependency :: "struct_def list \<Rightarrow> (string \<times> string) set" where
  "value_dependency defs = {(a, b). b \<in> value_dependencies defs a}"

text \<open>
  The field types that are sure to be lowered: the basic types, a struct, a reference to a
  struct, an array of structs with a size, and arrays of and references to such types.
  Inside an array without size or a reference to a reference, a struct type is lowered
  only when the struct has an entry, and a function type or the type of \<^verbatim>\<open>null\<close> is
  never lowered.
\<close>

fun lowerable :: "noxy_type \<Rightarrow> bool" where
  "lowerable IntType = True"
| "lowerable FloatType = True"
| "lowerable StringType = True"
| "lowerable StrType = True"
| "lowerable BoolType = True"
| "lowerable VoidType = True"
| "lowerable (ArrayType (StructType struct_name fs) (Some n)) = True"
| "lowerable (ArrayType element_type array_size) = lowerable element_type"
| "lowerable (ReferenceType (StructType struct_name fs) is_mutable) = True"
| "lowerable (ReferenceType target_type is_mutable) = lowerable target_type"
| "lowerable (StructType struct_name fs) = False"
| "lowerable (FunctionType param_types return_type) = False"
| "lowerable NullType = False"

fun lowerable_field :: "noxy_type \<Rightarrow> bool" where
  "lowerable_field (StructType struct_name fs) = True"
| "lowerable_field field_type = lowerable field_type"

text \<open>
  A struct \<open>a\<close> is settled in the tables when its full definition has been stored, the
  entry of \<open>a\<close> in the struct table has one type per field of the definition, and each
  struct \<open>b\<close> of the set that a field embeds by value either had its full definition
  stored before, in which case the type of the field is the entry of \<open>b\<close>, or had only
  its definition with placeholders stored before and lies on a cycle of embedding
  through \<open>a\<close>.
\<close>

definition settled :: "struct_def list \<Rightarrow> string \<Rightarrow> struct_tables \<Rightarrow> bool" where
  "settled defs a tabs =
     (\<exists>pre post field_list tys.
        insertions tabs = pre @ Defined a # post \<and>
        find (\<lambda>d. fst d = a) defs = Some (a, field_list) \<and>
        struct_types tabs a = Some (LiteralStructTy tys) \<and> length tys = length field_list \<and>
        (\<forall>i f b fs. i < length field_list \<and> field_list ! i = (f, StructType b fs) \<and>
                    b \<in> struct_names defs \<longrightarrow>
           (Defined b \<in> set pre \<and> struct_types tabs b = Some (tys ! i))
           \<or> (Placeheld b \<in> set pre \<and> (b, a) \<in> (value_dependency defs)\<^sup>+)))"

text \<open>
  The invariant of the processing, for the set \<open>P\<close> of names whose processing is under
  way: these names are in one of the two sets of the processing; every other processed
  name is settled; a processed name has a definition stored; a name that has only a
  definition with placeholders stored is under way; a name whose full definition is
  stored is processed and no longer under way; a name for which something is stored is
  processed; and nothing is stored twice.
\<close>

definition order_inv :: "struct_def list \<Rightarrow> string set \<Rightarrow> order_state \<Rightarrow> bool" where
  "order_inv defs P s =
     (processing s \<subseteq> P \<and> P \<subseteq> processing s \<union> processed s \<and>
      (\<forall>a \<in> processed s - P. settled defs a (tables s)) \<and>
      (\<forall>a \<in> processed s. has_event a (insertions (tables s))) \<and>
      (\<forall>x. has_event x (insertions (tables s)) \<and> Defined x \<notin> set (insertions (tables s))
           \<longrightarrow> x \<in> P) \<and>
      (\<forall>x. Defined x \<in> set (insertions (tables s)) \<longrightarrow> x \<in> processed s - P) \<and>
      (\<forall>x. has_event x (insertions (tables s)) \<longrightarrow> x \<in> processed s) \<and>
      distinct (insertions (tables s)))"

text \<open>Three struct sets: \<^verbatim>\<open>Line\<close> embeds \<^verbatim>\<open>Point\<close> and is declared first; \<^verbatim>\<open>Egg\<close>
  and \<^verbatim>\<open>Hen\<close> embed each other; the name \<^verbatim>\<open>A\<close> is defined twice, the second time
  with a field that embeds \<^verbatim>\<open>B\<close>.\<close>

definition line_point :: "struct_def list" where
  "line_point =
     [(''Line'', [(''a'', StructType ''Point'' []), (''b'', StructType ''Point'' [])]),
      (''Point'', [(''x'', IntType), (''y'', IntType)])]"

definition egg_hen :: "struct_def list" where
  "egg_hen =
     [(''Egg'', [(''h'', StructType ''Hen'' [])]),
      (''Hen'', [(''e'', StructType ''Egg'' [])])]"

definition twice_a :: "struct_def list" where
  "twice_a =
     [(''A'', [(''x'', IntType)]),
      (''B'', [(''y'', IntType)]),
      (''A'', [(''b'', StructType ''B'' [(''y'', IntType)])])]"

text \<open>The entry of a struct in the struct table after the processing, when it
  succeeds.\<close>

definition stored_struct :: "string \<Rightarrow> (error + struct_tables) option \<Rightarrow> ir_type option" where
  "stored_struct struct_name result =
     (case result of Some (Inr tabs) \<Rightarrow> struct_types tabs struct_name | _ \<Rightarrow> None)"
section \<open>Code generator: declaration of globals and functions\<close>

text \<open>
  The attributes of the generator that the declaration phase reads and writes, on top of
  the struct tables: \<^verbatim>\<open>global_vars\<close> (the type of the storage of each declared
  global), \<^verbatim>\<open>type_map\<close> and \<^verbatim>\<open>functions\<close> (the type of each declared function, here \<open>declared_functions\<close>).
\<close>

record generator = struct_tables +
  global_vars :: "string \<rightharpoonup> ir_type"
  type_map :: "string \<rightharpoonup> noxy_type"
  declared_functions :: "string \<rightharpoonup> ir_type"

definition new_generator :: generator where
  "new_generator =
     \<lparr>struct_types = Map.empty, struct_fields = Map.empty, struct_field_types = Map.empty,
      struct_auto_references = Map.empty, insertions = [],
      global_vars = Map.empty, type_map = Map.empty, declared_functions = Map.empty\<rparr>"

text \<open>\<^verbatim>\<open>type(a) != type(b)\<close> on two source-language types compares their classes only.\<close>

fun class_of_type :: "noxy_type \<Rightarrow> string" where
  "class_of_type IntType = ''IntType''"
| "class_of_type FloatType = ''FloatType''"
| "class_of_type StringType = ''StringType''"
| "class_of_type StrType = ''StrType''"
| "class_of_type (ArrayType element_type n) = ''ArrayType''"
| "class_of_type VoidType = ''VoidType''"
| "class_of_type (FunctionType param_types return_type) = ''FunctionType''"
| "class_of_type BoolType = ''BoolType''"
| "class_of_type NullType = ''NullType''"
| "class_of_type (StructType struct_name fs) = ''StructType''"
| "class_of_type (ReferenceType target_type is_mutable) = ''ReferenceType''"

text \<open>The type of the storage that \<^verbatim>\<open>_declare_global_variable\<close> creates for a new
  global: an array of the element type for an array (of length 0 when the array has no
  size), the converted type otherwise.\<close>

fun global_storage_type ::
    "struct_types \<Rightarrow> noxy_type \<Rightarrow> ir_type \<Rightarrow> error + (ir_type \<times> struct_types)" where
  "global_storage_type st (ArrayType element_type n) var_lltype =
     (case convert_type st element_type of
        Inl e \<Rightarrow> Inl e
      | Inr (element_lltype, st') \<Rightarrow>
          Inr (ArrayTy element_lltype (case n of None \<Rightarrow> 0 | Some k \<Rightarrow> k), st'))"
| "global_storage_type st var_type var_lltype = Inr (var_lltype, st)"

text \<open>\<^verbatim>\<open>_declare_global_variable\<close>, on the identifier and the declared type of the
  assignment node.\<close>

definition declare_global_variable ::
    "string \<Rightarrow> noxy_type option \<Rightarrow> generator \<Rightarrow> error + generator" where
  "declare_global_variable identifier var_type g =
     (if global_vars g identifier \<noteq> None then
        (if var_type \<noteq> None \<and> type_map g identifier \<noteq> None
            \<and> class_of_type (the (type_map g identifier)) \<noteq> class_of_type (the var_type)
         then Inl (PyTypeError (''Redeclaracao de global '' @ identifier @ '' com tipo diferente''))
         else if type_map g identifier = None \<and> var_type \<noteq> None
         then Inr (g\<lparr>type_map := (type_map g)(identifier \<mapsto> the var_type)\<rparr>)
         else Inr g)
      else
        (case var_type of
           None \<Rightarrow> Inl (PyTypeError ''Tipo nao suportado: None'')
         | Some declared \<Rightarrow>
             (case convert_type (struct_types g) declared of
                Inl e \<Rightarrow> Inl e
              | Inr (var_lltype, st1) \<Rightarrow>
                  (case global_storage_type st1 declared var_lltype of
                     Inl e \<Rightarrow> Inl e
                   | Inr (storage, st2) \<Rightarrow>
                       Inr (g\<lparr>struct_types := st2,
                              global_vars := (global_vars g)(identifier \<mapsto> storage),
                              type_map := (type_map g)(identifier \<mapsto> declared)\<rparr>)))))"

text \<open>The type of a parameter or of the result in \<^verbatim>\<open>_declare_function\<close>: a reference
  to a struct is a pointer to the struct's type, or a byte pointer when the struct has no
  entry.\<close>

fun signature_type :: "struct_types \<Rightarrow> noxy_type \<Rightarrow> error + (ir_type \<times> struct_types)" where
  "signature_type st (ReferenceType (StructType struct_name fs) is_mutable) =
     (case st struct_name of
        Some struct_type \<Rightarrow> Inr (PointerTy struct_type, st)
      | None \<Rightarrow> Inr (PointerTy (IntTy 8), st))"
| "signature_type st param_type = convert_type st param_type"

text \<open>\<^verbatim>\<open>_declare_function\<close>\<close>

definition declare_function ::
    "string \<Rightarrow> (string \<times> noxy_type) list \<Rightarrow> noxy_type \<Rightarrow> generator \<Rightarrow> error + generator" where
  "declare_function name params return_type g =
     (case lower_fields signature_type (struct_types g) params [] of
        Inl e \<Rightarrow> Inl e
      | Inr (param_types, st1) \<Rightarrow>
          (case signature_type st1 return_type of
             Inl e \<Rightarrow> Inl e
           | Inr (return_lltype, st2) \<Rightarrow>
               Inr (g\<lparr>struct_types := st2,
                      declared_functions := (declared_functions g)(name \<mapsto> FunctionTy return_lltype param_types),
                      type_map := (type_map g)(name \<mapsto> FunctionType (map snd params) return_type)\<rparr>)))"

text \<open>
  The declaration loop of \<^verbatim>\<open>generate\<close> over the statements of the program, with its
  set \<^verbatim>\<open>declared_globals\<close>: a global whose identifier is already in the set is passed
  over.
\<close>

fun declare_statements :: "node list \<Rightarrow> string set \<Rightarrow> generator \<Rightarrow> error + generator" where
  "declare_statements [] declared_globals g = Inr g"
| "declare_statements (AssignmentNode identifier var_type val is_global # statements)
       declared_globals g =
     (if is_global then
        (if identifier \<in> declared_globals then declare_statements statements declared_globals g
         else (case declare_global_variable identifier var_type g of
                 Inl e \<Rightarrow> Inl e
               | Inr g' \<Rightarrow>
                   declare_statements statements (insert identifier declared_globals) g'))
      else declare_statements statements declared_globals g)"
| "declare_statements (FunctionNode name params return_type body # statements)
       declared_globals g =
     (case declare_function name params return_type g of
        Inl e \<Rightarrow> Inl e
      | Inr g' \<Rightarrow> declare_statements statements declared_globals g')"
| "declare_statements (stmt # statements) declared_globals g =
     declare_statements statements declared_globals g"

text \<open>The program \<^verbatim>\<open>let x: int = 1\<close>, \<^verbatim>\<open>let x: string = "a"\<close>.\<close>

definition conflicting_globals :: "node list" where
  "conflicting_globals =
     [AssignmentNode ''x'' (Some IntType) (Some (NumberNode 1)) True,
      AssignmentNode ''x'' (Some StringType) (Some (StringNode ''a'')) True]"

section \<open>Code generator: instructions and expressions\<close>

subsection \<open>Values and the instruction builder\<close>

text \<open>
  The generator drives an external instruction builder. The builder is given here by
  what the generator can observe of it: a method of the builder appends one
  instruction, named after the method, to the current block, and returns the value of
  that instruction. \<open>NoneValue\<close> is Python's \<^verbatim>\<open>None\<close>, which a branch of the
  generator returns when it falls through.
\<close>

datatype const_value = IntConst int | FloatConst string | NullConst | BytesConst string

datatype ir_value =
    Constant ir_type const_value
  | Register nat ir_type
  | GlobalValue string ir_type
  | Block string
  | NoneValue

fun type_of :: "ir_value \<Rightarrow> ir_type" where
  "type_of (Constant t c) = t"
| "type_of (Register n t) = t"
| "type_of (GlobalValue name t) = t"
| "type_of (Block name) = VoidTy"
| "type_of NoneValue = VoidTy"

datatype instruction =
  Instruction (instr_id: nat) (opcode: string) (operands: "ir_value list")

text \<open>
  The state of the generator while it emits code: the instructions emitted so far, each
  with the block it went to; the number of the next instruction; the current block and
  the blocks of the current function; the names of the module's globals; and the
  attributes of the memory tracking. \<open>allocation_array\<close> tells whether the attribute of
  that name (and \<^verbatim>\<open>allocation_count\<close> with it) is set.
\<close>

record builder =
  code :: "(string \<times> instruction) list"
  next_id :: nat
  block :: string
  block_names :: "string list"
  module_globals :: "string list"
  memory_tracking :: bool
  current_function :: "string option"
  allocation_array :: bool
  allocated_ptrs :: "ir_value list"

definition emit :: "string \<Rightarrow> ir_value list \<Rightarrow> ir_type \<Rightarrow> builder \<Rightarrow> ir_value \<times> builder" where
  "emit opc args result_type b =
     (Register (next_id b) result_type,
      b\<lparr>code := code b @ [(block b, Instruction (next_id b) opc args)],
        next_id := next_id b + 1\<rparr>)"

text \<open>The external functions the generator declares and calls here.\<close>

definition malloc :: ir_value where
  "malloc = GlobalValue ''malloc'' (FunctionTy (PointerTy (IntTy 8)) [IntTy 64])"
definition free :: ir_value where
  "free = GlobalValue ''free'' (FunctionTy VoidTy [PointerTy (IntTy 8)])"
definition strlen :: ir_value where
  "strlen = GlobalValue ''strlen'' (FunctionTy (IntTy 64) [PointerTy (IntTy 8)])"
definition strcpy :: ir_value where
  "strcpy = GlobalValue ''strcpy''
     (FunctionTy (PointerTy (IntTy 8)) [PointerTy (IntTy 8), PointerTy (IntTy 8)])"
definition strcat :: ir_value where
  "strcat = GlobalValue ''strcat''
     (FunctionTy (PointerTy (IntTy 8)) [PointerTy (IntTy 8), PointerTy (IntTy 8)])"
definition strcmp :: ir_value where
  "strcmp = GlobalValue ''strcmp'' (FunctionTy (IntTy 32) [PointerTy (IntTy 8), PointerTy (IntTy 8)])"
definition sprintf :: ir_value where
  "sprintf = GlobalValue ''sprintf'' (FunctionTy (IntTy 32) [PointerTy (IntTy 8), PointerTy (IntTy 8)])"
definition fmod :: ir_value where
  "fmod = GlobalValue ''fmod'' (FunctionTy DoubleTy [DoubleTy, DoubleTy])"

text \<open>\<^verbatim>\<open>builder.call\<close>: the value has the return type of the function called.\<close>

fun return_type_of :: "ir_value \<Rightarrow> ir_type" where
  "return_type_of (GlobalValue name (FunctionTy return_type param_types)) = return_type"
| "return_type_of callee = VoidTy"

definition call :: "ir_value \<Rightarrow> ir_value list \<Rightarrow> builder \<Rightarrow> ir_value \<times> builder" where
  "call callee args b = emit ''call'' (callee # args) (return_type_of callee) b"

text \<open>The globals \<^verbatim>\<open>allocation_array\<close> (100 byte pointers) and
  \<^verbatim>\<open>allocation_count\<close> (a 64-bit integer) of the module.\<close>

definition allocation_array_global :: ir_value where
  "allocation_array_global =
     GlobalValue ''allocation_array'' (PointerTy (ArrayTy (PointerTy (IntTy 8)) 100))"

definition allocation_count_global :: ir_value where
  "allocation_count_global = GlobalValue ''allocation_count'' (PointerTy (IntTy 64))"

subsection \<open>Memory tracking\<close>

text \<open>\<^verbatim>\<open>_track_allocation\<close>: with the array set, the code that stores the pointer at
  the index held in the counter and adds one to the counter; otherwise the pointer goes
  to the list \<^verbatim>\<open>allocated_ptrs\<close> of the generator.\<close>

definition track_allocation :: "ir_value \<Rightarrow> builder \<Rightarrow> builder" where
  "track_allocation ptr_value b =
     (if memory_tracking b \<and> ptr_value \<noteq> NoneValue then
        if current_function b \<noteq> None then
          if allocation_array b then
            (let (count_ptr, b1) = emit ''load'' [allocation_count_global] (IntTy 64) b;
                 (array_elem_ptr, b2) =
                   emit ''gep inbounds''
                     [allocation_array_global, Constant (IntTy 64) (IntConst 0), count_ptr]
                     (PointerTy (PointerTy (IntTy 8))) b1;
                 (stored, b3) = emit ''store'' [ptr_value, array_elem_ptr] VoidTy b2;
                 (new_count, b4) =
                   emit ''add'' [count_ptr, Constant (IntTy 64) (IntConst 1)] (IntTy 64) b3;
                 (stored', b5) = emit ''store'' [new_count, allocation_count_global] VoidTy b4
             in b5)
          else b\<lparr>allocated_ptrs := allocated_ptrs b @ [ptr_value]\<rparr>
        else b\<lparr>allocated_ptrs := allocated_ptrs b @ [ptr_value]\<rparr>
      else b)"

text \<open>\<^verbatim>\<open>append_basic_block\<close> and \<^verbatim>\<open>position_at_end\<close>. The builder renames a block
  whose name is taken; the blocks of the cleanup are created once, in \<^verbatim>\<open>main\<close>.\<close>

definition append_basic_block :: "string \<Rightarrow> builder \<Rightarrow> ir_value \<times> builder" where
  "append_basic_block name b = (Block name, b\<lparr>block_names := block_names b @ [name]\<rparr>)"

fun position_at_end :: "ir_value \<Rightarrow> builder \<Rightarrow> builder" where
  "position_at_end (Block name) b = b\<lparr>block := name\<rparr>"
| "position_at_end v b = b"

text \<open>\<^verbatim>\<open>_add_memory_cleanup\<close>, for the case in which the array is set: the loop that
  frees the entries below the counter. The branch for the list \<^verbatim>\<open>allocated_ptrs\<close> is
  the other case.\<close>

definition free_allocated_ptrs :: "ir_value list \<Rightarrow> builder \<Rightarrow> builder" where
  "free_allocated_ptrs ptrs b =
     foldl (\<lambda>b' ptr. case type_of ptr of
                        PointerTy t \<Rightarrow> snd (call free [ptr] b')
                      | _ \<Rightarrow> b') b ptrs"

definition add_memory_cleanup :: "builder \<Rightarrow> builder" where
  "add_memory_cleanup b =
     (if \<not> memory_tracking b then b
      else if allocation_array b then
        (let (count_ptr, b1) = emit ''load'' [allocation_count_global] (IntTy 64) b;
             (i_ptr, b2) = emit ''alloca'' [] (PointerTy (IntTy 64)) b1;
             (s0, b3) = emit ''store'' [Constant (IntTy 64) (IntConst 0), i_ptr] VoidTy b2;
             (cond_block, b4) = append_basic_block ''cleanup_cond'' b3;
             (body_block, b5) = append_basic_block ''cleanup_body'' b4;
             (end_block, b6) = append_basic_block ''cleanup_end'' b5;
             (br0, b7) = emit ''branch'' [cond_block] VoidTy b6;
             b8 = position_at_end cond_block b7;
             (i_val, b9) = emit ''load'' [i_ptr] (IntTy 64) b8;
             (condition, b10) = emit ''icmp_signed <'' [i_val, count_ptr] (IntTy 1) b9;
             (br1, b11) = emit ''cbranch'' [condition, body_block, end_block] VoidTy b10;
             b12 = position_at_end body_block b11;
             (array_elem_ptr, b13) =
               emit ''gep inbounds''
                 [allocation_array_global, Constant (IntTy 64) (IntConst 0), i_val]
                 (PointerTy (PointerTy (IntTy 8))) b12;
             (ptr_to_free, b14) = emit ''load'' [array_elem_ptr] (PointerTy (IntTy 8)) b13;
             (freed, b15) = call free [ptr_to_free] b14;
             (new_i, b16) = emit ''add'' [i_val, Constant (IntTy 64) (IntConst 1)] (IntTy 64) b15;
             (s1, b17) = emit ''store'' [new_i, i_ptr] VoidTy b16;
             (br2, b18) = emit ''branch'' [cond_block] VoidTy b17;
             b19 = position_at_end end_block b18
         in b19\<lparr>allocation_array := False\<rparr>)
      else if allocated_ptrs b = [] then b
      else (free_allocated_ptrs (allocated_ptrs b) b)\<lparr>allocated_ptrs := []\<rparr>)"

subsection \<open>Expressions\<close>

text \<open>Decimal digits of a number, for the names of globals.\<close>

fun decimal :: "nat \<Rightarrow> string" where
  "decimal n = (if n < 10 then [char_of (48 + n)] else decimal (n div 10) @ [char_of (48 + n mod 10)])"

declare decimal.simps [simp del]

text \<open>A constant string of the module: a private global array of bytes, and the pointer
  to its first byte. This is the lowering of a \<^verbatim>\<open>StringNode\<close>, and of the format
  strings of a cast, under the given prefix of the name.\<close>

definition string_global :: "string \<Rightarrow> string \<Rightarrow> builder \<Rightarrow> ir_value \<times> builder" where
  "string_global prefix bytes b =
     (let global_name = prefix @ decimal (length (module_globals b));
          str_global = GlobalValue global_name (PointerTy (ArrayTy (IntTy 8) (length bytes)));
          zero = Constant (IntTy 32) (IntConst 0)
      in emit ''gep inbounds'' [str_global, zero, zero] (PointerTy (IntTy 8))
           (b\<lparr>module_globals := module_globals b @ [global_name]\<rparr>))"

fun is_int_type :: "ir_type \<Rightarrow> bool" where
  "is_int_type (IntTy w) = True"
| "is_int_type t = False"

fun is_pointer_type :: "ir_type \<Rightarrow> bool" where
  "is_pointer_type (PointerTy t) = True"
| "is_pointer_type t = False"

fun pointee :: "ir_type \<Rightarrow> ir_type" where
  "pointee (PointerTy t) = t"
| "pointee t = VoidTy"

text \<open>The test for a string operand of \<^verbatim>\<open>+\<close>: a pointer to \<^verbatim>\<open>char_type\<close>, or the
  type \<^verbatim>\<open>string_type\<close>.\<close>

definition is_string :: "ir_value \<Rightarrow> bool" where
  "is_string v =
     ((is_pointer_type (type_of v) \<and> pointee (type_of v) = char_type) \<or> type_of v = string_type)"

fun is_null_constant :: "ir_value \<Rightarrow> bool" where
  "is_null_constant (Constant t NullConst) = True"
| "is_null_constant v = False"

text \<open>The body shared by \<^verbatim>\<open>ConcatNode\<close> and by \<^verbatim>\<open>+\<close> on two strings: the lengths,
  their sum plus one, the buffer, its registration, and the two copies.\<close>

definition concatenate :: "ir_value \<Rightarrow> ir_value \<Rightarrow> builder \<Rightarrow> ir_value \<times> builder" where
  "concatenate left right b =
     (let (len1, b1) = call strlen [left] b;
          (len2, b2) = call strlen [right] b1;
          (total_len, b3) = emit ''add'' [len1, len2] (type_of len1) b2;
          (total_len', b4) =
            emit ''add'' [total_len, Constant (IntTy 64) (IntConst 1)] (type_of total_len) b3;
          (result, b5) = call malloc [total_len'] b4;
          b6 = track_allocation result b5;
          (copied, b7) = call strcpy [result, left] b6;
          (appended, b8) = call strcat [result, right] b7
      in (result, b8))"

text \<open>
  The comparisons of the instruction builder are \<^verbatim>\<open>icmp_signed\<close>, \<^verbatim>\<open>icmp_unsigned\<close>,
  \<^verbatim>\<open>fcmp_ordered\<close> and \<^verbatim>\<open>fcmp_unordered\<close>, which take the operator as a string, as
  the cast to \<^verbatim>\<open>bool\<close> and the comparisons below call them. The builder has no
  method \<^verbatim>\<open>icmp_ne\<close>: looking the attribute up raises \<^verbatim>\<open>AttributeError\<close>, before the
  arguments of the call are evaluated.
\<close>

definition icmp_ne :: "ir_value \<Rightarrow> ir_value \<Rightarrow> builder \<Rightarrow> error + (ir_value \<times> builder)" where
  "icmp_ne lhs rhs b = Inl (PyAttributeError ''IRBuilder object has no attribute icmp_ne'')"

text \<open>Turning an operand of \<^verbatim>\<open>and\<close>, \<^verbatim>\<open>or\<close>, \<^verbatim>\<open>!\<close> into a truth value: the
  comparison with zero, unless the operand is a bool already.\<close>

definition truthify :: "ir_value \<Rightarrow> builder \<Rightarrow> error + (ir_value \<times> builder)" where
  "truthify v b =
     (if type_of v \<noteq> bool_type
      then icmp_ne v (Constant (type_of v) (IntConst 0)) b
      else Inr (v, b))"

text \<open>The arithmetic operators and the ordering comparisons: the opcode for integers
  and the opcode for floats.\<close>

fun numeric_opcodes :: "TokenType \<Rightarrow> (string \<times> string \<times> bool) option" where
  "numeric_opcodes MINUS = Some (''sub'', ''fsub'', False)"
| "numeric_opcodes MULTIPLY = Some (''mul'', ''fmul'', False)"
| "numeric_opcodes DIVIDE = Some (''sdiv'', ''fdiv'', False)"
| "numeric_opcodes GT = Some (''icmp_signed >'', ''fcmp_ordered >'', True)"
| "numeric_opcodes LT = Some (''icmp_signed <'', ''fcmp_ordered <'', True)"
| "numeric_opcodes GTE = Some (''icmp_signed >='', ''fcmp_ordered >='', True)"
| "numeric_opcodes LTE = Some (''icmp_signed <='', ''fcmp_ordered <='', True)"
| "numeric_opcodes operator = None"

text \<open>The branch for \<^verbatim>\<open>==\<close> and \<^verbatim>\<open>!=\<close>; \<open>pred\<close> is the comparison wanted.\<close>

definition equality ::
    "string \<Rightarrow> bool \<Rightarrow> ir_value \<Rightarrow> ir_value \<Rightarrow> builder \<Rightarrow> error + (ir_value \<times> builder)" where
  "equality pred is_float_op left right b =
     (if (is_pointer_type (type_of left) \<and> is_null_constant right) \<or>
         (is_pointer_type (type_of right) \<and> is_null_constant left)
      then Inr (emit (''icmp_signed '' @ pred) [left, right] (IntTy 1) b)
      else if (is_pointer_type (type_of left) \<and> pointee (type_of left) = char_type) \<and>
              (is_pointer_type (type_of right) \<and> pointee (type_of right) = char_type)
      then (let (cmp_result, b1) = call strcmp [left, right] b
            in Inr (emit (''icmp_signed '' @ pred) [cmp_result, Constant (IntTy 32) (IntConst 0)]
                      (IntTy 1) b1))
      else
        (let left_is_string = is_pointer_type (type_of left) \<and> pointee (type_of left) = char_type;
             right_is_string = is_pointer_type (type_of right) \<and> pointee (type_of right) = char_type;
             (left1, b1) = (if left_is_string \<and> \<not> right_is_string
                            then emit ''load'' [left] (pointee (type_of left)) b else (left, b));
             (right1, b2) = (if right_is_string \<and> \<not> left_is_string
                             then emit ''load'' [right] (pointee (type_of right)) b1 else (right, b1))
         in if type_of left1 = char_type \<and> type_of right1 = char_type
            then Inr (emit (''icmp_unsigned '' @ pred) [left1, right1] (IntTy 1) b2)
            else if is_float_op
            then Inr (emit (''fcmp_ordered '' @ pred) [left1, right1] (IntTy 1) b2)
            else if pred = ''==''
            then (if type_of left1 = bool_type \<or> type_of right1 = bool_type
                  then (case truthify left1 b2 of
                          Inl e \<Rightarrow> Inl e
                        | Inr (left2, b3) \<Rightarrow>
                            (case truthify right1 b3 of
                               Inl e \<Rightarrow> Inl e
                             | Inr (right2, b4) \<Rightarrow>
                                 Inr (emit ''icmp_signed =='' [left2, right2] (IntTy 1) b4)))
                  else Inr (emit ''icmp_signed =='' [left1, right1] (IntTy 1) b2))
            else Inr (emit ''icmp_signed !='' [left1, right1] (IntTy 1) b2)))"

text \<open>
  The branch for a \<^verbatim>\<open>BinaryOpNode\<close> once both operands are lowered: the promotion of an
  integer operand when the other is a float, then the operator. An operator with no case
  falls through and yields \<^verbatim>\<open>None\<close>; an operand that is \<^verbatim>\<open>None\<close> has no type.
\<close>

definition binary_operation ::
    "TokenType \<Rightarrow> ir_value \<Rightarrow> ir_value \<Rightarrow> builder \<Rightarrow> error + (ir_value \<times> builder)" where
  "binary_operation operator left0 right0 b0 =
     (if left0 = NoneValue \<or> right0 = NoneValue
      then Inl (PyAttributeError ''NoneType object has no attribute type'')
      else
       (let is_float_op = (type_of left0 = DoubleTy \<or> type_of right0 = DoubleTy);
            (left, b1) = (if is_float_op \<and> is_int_type (type_of left0)
                          then emit ''sitofp'' [left0] float_type b0 else (left0, b0));
            (right, b) = (if is_float_op \<and> is_int_type (type_of right0)
                           then emit ''sitofp'' [right0] float_type b1 else (right0, b1))
        in if operator = PLUS then
             (if is_string left \<or> is_string right then
                (if \<not> is_string left \<or> \<not> is_string right
                 then Inl (PyTypeError
                   ''Operacao + para strings requer que ambos os operandos sejam strings'')
                 else Inr (concatenate left right b))
              else if is_float_op then Inr (emit ''fadd'' [left, right] (type_of left) b)
              else Inr (emit ''add'' [left, right] (type_of left) b))
           else if operator = MODULO then
             (if is_float_op then Inr (call fmod [left, right] b)
              else Inr (emit ''srem'' [left, right] (type_of left) b))
           else if operator = EQ then equality ''=='' is_float_op left right b
           else if operator = NEQ then equality ''!='' is_float_op left right b
           else if operator = AND then
             (case truthify left b of
                Inl e \<Rightarrow> Inl e
              | Inr (left', b2) \<Rightarrow>
                  (case truthify right b2 of
                     Inl e \<Rightarrow> Inl e
                   | Inr (right', b3) \<Rightarrow>
                       Inr (emit ''and_'' [left', right'] (type_of left') b3)))
           else if operator = OR then
             (case truthify left b of
                Inl e \<Rightarrow> Inl e
              | Inr (left', b2) \<Rightarrow>
                  (case truthify right b2 of
                     Inl e \<Rightarrow> Inl e
                   | Inr (right', b3) \<Rightarrow>
                       Inr (emit ''or_'' [left', right'] (type_of left') b3)))
           else (case numeric_opcodes operator of
                   Some (int_op, float_op, is_comparison) \<Rightarrow>
                     Inr (emit (if is_float_op then float_op else int_op) [left, right]
                            (if is_comparison then IntTy 1 else type_of left) b)
                 | None \<Rightarrow> Inr (NoneValue, b))))"

text \<open>The branch for a \<^verbatim>\<open>CastNode\<close> once its operand is lowered.\<close>

definition cast_to_string :: "ir_value \<Rightarrow> builder \<Rightarrow> ir_value \<times> builder" where
  "cast_to_string expr_value b =
     (let (buffer, b1) = call malloc [Constant (IntTy 64) (IntConst 256)] b;
          b2 = track_allocation buffer b1
      in if is_int_type (type_of expr_value) then
           (let (fmt_ptr, b3) = string_global ''fmt_itoa_'' (''%lld'' @ [CHR 0x00]) b2;
                (printed, b4) = call sprintf [buffer, fmt_ptr, expr_value] b3
            in (buffer, b4))
         else if type_of expr_value = DoubleTy then
           (let (fmt_ptr, b3) = string_global ''fmt_ftoa_'' (''%f'' @ [CHR 0x00]) b2;
                (printed, b4) = call sprintf [buffer, fmt_ptr, expr_value] b3
            in (buffer, b4))
         else (expr_value, b2))"

definition cast_value ::
    "noxy_type \<Rightarrow> ir_value \<Rightarrow> builder \<Rightarrow> error + (ir_value \<times> builder)" where
  "cast_value target_type expr_value b =
     (if target_type = IntType then
        (if expr_value = NoneValue
         then Inl (PyAttributeError ''NoneType object has no attribute type'')
         else if type_of expr_value = DoubleTy
         then Inr (emit ''fptosi'' [expr_value] int_type b)
         else if type_of expr_value = string_type \<or>
                 (is_pointer_type (type_of expr_value) \<and> pointee (type_of expr_value) = char_type)
         then Inr (Constant int_type (IntConst 0), b)
         else Inr (expr_value, b))
      else if target_type = FloatType then
        (if expr_value = NoneValue
         then Inl (PyAttributeError ''NoneType object has no attribute type'')
         else if is_int_type (type_of expr_value)
         then Inr (emit ''sitofp'' [expr_value] float_type b)
         else Inr (expr_value, b))
      else if target_type = StringType then
        (if expr_value = NoneValue
         then Inl (PyAttributeError ''NoneType object has no attribute type'')
         else Inr (cast_to_string expr_value b))
      else if target_type = BoolType then
        (if expr_value = NoneValue
         then Inl (PyAttributeError ''NoneType object has no attribute type'')
         else if is_int_type (type_of expr_value)
         then Inr (emit ''icmp_signed !='' [expr_value, Constant (type_of expr_value) (IntConst 0)]
                     (IntTy 1) b)
         else if type_of expr_value = DoubleTy
         then Inr (emit ''fcmp_ordered !='' [expr_value, Constant (type_of expr_value) (FloatConst ''0.0'')]
                     (IntTy 1) b)
         else Inr (expr_value, b))
      else Inr (NoneValue, b))"

text \<open>The stores of a \<^verbatim>\<open>ZerosNode\<close>, one per index.\<close>

fun store_zeros :: "ir_value \<Rightarrow> ir_value \<Rightarrow> nat list \<Rightarrow> builder \<Rightarrow> builder" where
  "store_zeros typed_ptr zero_val [] b = b"
| "store_zeros typed_ptr zero_val (i # rest) b =
     (let (elem_ptr, b1) =
            emit ''gep inbounds'' [typed_ptr, Constant (IntTy 64) (IntConst (int i))]
              (type_of typed_ptr) b;
          (stored, b2) = emit ''store'' [zero_val, elem_ptr] VoidTy b1
      in store_zeros typed_ptr zero_val rest b2)"

text \<open>
  \<^verbatim>\<open>_generate_expression\<close>, for the node classes the claims concern: literals,
  references, \<^verbatim>\<open>zeros\<close>, casts, concatenations, binary and unary operators. The
  lowering of every other class (f-strings, identifiers, calls, struct and array
  accesses, array literals, constructors) is the parameter \<open>other\<close>, about which nothing
  is assumed. The optional argument is \<^verbatim>\<open>expected_type\<close>.
\<close>

fun generate_expression ::
    "(node \<Rightarrow> ir_type option \<Rightarrow> builder \<Rightarrow> error + (ir_value \<times> builder))
     \<Rightarrow> node \<Rightarrow> ir_type option \<Rightarrow> builder \<Rightarrow> error + (ir_value \<times> builder)" where
  "generate_expression other (NumberNode n) expected_type b =
     Inr (Constant int_type (IntConst n), b)"
| "generate_expression other (FloatNode f) expected_type b =
     Inr (Constant float_type (FloatConst f), b)"
| "generate_expression other (StringNode s) expected_type b =
     Inr (string_global ''str_'' (s @ [CHR 0x00]) b)"
| "generate_expression other (BooleanNode v) expected_type b =
     Inr (Constant bool_type (IntConst (if v then 1 else 0)), b)"
| "generate_expression other NullNode expected_type b =
     (case expected_type of
        Some (PointerTy t) \<Rightarrow> Inr (Constant (PointerTy t) NullConst, b)
      | Some (IntTy w) \<Rightarrow> Inr (Constant (IntTy w) (IntConst 0), b)
      | _ \<Rightarrow> Inr (Constant (PointerTy (IntTy 8)) NullConst, b))"
| "generate_expression other (ReferenceNode expression) expected_type b =
     generate_expression other expression None b"
| "generate_expression other (ZerosNode n element_type) expected_type b =
     (let (array_ptr, b1) = call malloc [Constant int_type (IntConst (int (n * 8)))] b;
          b2 = track_allocation array_ptr b1;
          (typed_ptr, b3) =
            (if element_type = IntType
             then emit ''bitcast'' [array_ptr] (PointerTy int_type) b2
             else emit ''bitcast'' [array_ptr] (PointerTy float_type) b2);
          zero_val = (if element_type = IntType then Constant int_type (IntConst 0)
                      else Constant float_type (FloatConst ''0.0''))
      in Inr (typed_ptr, store_zeros typed_ptr zero_val [0 ..< n] b3))"
| "generate_expression other (CastNode expression target_type) expected_type b =
     (case generate_expression other expression None b of
        Inl e \<Rightarrow> Inl e
      | Inr (expr_value, b1) \<Rightarrow> cast_value target_type expr_value b1)"
| "generate_expression other (ConcatNode left right) expected_type b =
     (case generate_expression other left None b of
        Inl e \<Rightarrow> Inl e
      | Inr (left_str, b1) \<Rightarrow>
          (case generate_expression other right None b1 of
             Inl e \<Rightarrow> Inl e
           | Inr (right_str, b2) \<Rightarrow> Inr (concatenate left_str right_str b2)))"
| "generate_expression other (BinaryOpNode left operator right) expected_type b =
     (case generate_expression other left None b of
        Inl e \<Rightarrow> Inl e
      | Inr (left_value, b1) \<Rightarrow>
          (case generate_expression other right None b1 of
             Inl e \<Rightarrow> Inl e
           | Inr (right_value, b2) \<Rightarrow> binary_operation operator left_value right_value b2))"
| "generate_expression other (UnaryOpNode operator operand) expected_type b =
     (case generate_expression other operand None b of
        Inl e \<Rightarrow> Inl e
      | Inr (operand_value, b1) \<Rightarrow>
          (if operator = NOT then
             (if operand_value = NoneValue
              then Inl (PyAttributeError ''NoneType object has no attribute type'')
              else (case truthify operand_value b1 of
                      Inl e \<Rightarrow> Inl e
                    | Inr (truth, b2) \<Rightarrow> Inr (emit ''not_'' [truth] (type_of truth) b2)))
           else Inl (PyNotImplementedError ''Operador unario nao implementado'')))"
| "generate_expression other expression expected_type b = other expression expected_type b"

text \<open>The generator at the start of the top-level statements of \<^verbatim>\<open>main\<close>: tracking
  on, the array and the counter created, nothing emitted yet but the reset of the
  counter, which is instruction 0.\<close>

definition main_builder :: builder where
  "main_builder =
     \<lparr>code = [(''entry'', Instruction 0 ''store''
                 [Constant (IntTy 64) (IntConst 0), allocation_count_global])],
      next_id = 1, block = ''entry'', block_names = [''entry''], module_globals = [],
      memory_tracking = True, current_function = Some ''main'', allocation_array = True,
      allocated_ptrs = []\<rparr>"

text \<open>A lowering of the other node classes that rejects every node, for examples that
  use none.\<close>

definition no_other :: "node \<Rightarrow> ir_type option \<Rightarrow> builder \<Rightarrow> error + (ir_value \<times> builder)" where
  "no_other expression expected_type b = Inl (PyValueError ''not an expression of the examples'')"

subsection \<open>The code expected for a concatenation\<close>

text \<open>
  The instructions of a concatenation of \<open>lv\<close> and \<open>rv\<close>, numbered from \<open>n\<close>, in the
  block \<open>blk\<close>: the two lengths, their sum, one more for the terminator, the buffer of
  that size from \<^verbatim>\<open>malloc\<close>, the registration of the buffer in the allocation array
  when \<open>tracked\<close> holds (the counter is read, the buffer is stored at that index, and the
  counter plus one is stored back), the copy of \<open>lv\<close> into the buffer and the append of
  \<open>rv\<close>.
\<close>

definition concatenation_code ::
    "bool \<Rightarrow> ir_value \<Rightarrow> ir_value \<Rightarrow> nat \<Rightarrow> string \<Rightarrow> (string \<times> instruction) list" where
  "concatenation_code tracked lv rv n blk =
     [(blk, Instruction n ''call'' [strlen, lv]),
      (blk, Instruction (n + 1) ''call'' [strlen, rv]),
      (blk, Instruction (n + 2) ''add'' [Register n (IntTy 64), Register (n + 1) (IntTy 64)]),
      (blk, Instruction (n + 3) ''add''
              [Register (n + 2) (IntTy 64), Constant (IntTy 64) (IntConst 1)]),
      (blk, Instruction (n + 4) ''call'' [malloc, Register (n + 3) (IntTy 64)])]
     @ (if tracked then
          [(blk, Instruction (n + 5) ''load'' [allocation_count_global]),
           (blk, Instruction (n + 6) ''gep inbounds''
                   [allocation_array_global, Constant (IntTy 64) (IntConst 0),
                    Register (n + 5) (IntTy 64)]),
           (blk, Instruction (n + 7) ''store''
                   [Register (n + 4) (PointerTy (IntTy 8)),
                    Register (n + 6) (PointerTy (PointerTy (IntTy 8)))]),
           (blk, Instruction (n + 8) ''add''
                   [Register (n + 5) (IntTy 64), Constant (IntTy 64) (IntConst 1)]),
           (blk, Instruction (n + 9) ''store''
                   [Register (n + 8) (IntTy 64), allocation_count_global])]
        else [])
     @ [(blk, Instruction (if tracked then n + 10 else n + 5) ''call''
               [strcpy, Register (n + 4) (PointerTy (IntTy 8)), lv]),
        (blk, Instruction (if tracked then n + 11 else n + 6) ''call''
               [strcat, Register (n + 4) (PointerTy (IntTy 8)), rv])]"

text \<open>Whether a pointer tracked now goes to the allocation array.\<close>

definition tracked_in_array :: "builder \<Rightarrow> bool" where
  "tracked_in_array b = (memory_tracking b \<and> current_function b \<noteq> None \<and> allocation_array b)"

section \<open>Verification: module resolver\<close>

lemma wrap_import_error_is_noxy_error: "\<exists>msg. wrap_import_error e = NoxyError msg"
  by (cases e) simp_all

lemma collect_total:
  "card (dom (map_of M) - c) < n \<Longrightarrow>
     \<exists>r. collect_dependencies n M s c = Some r \<and> (\<forall>c'. r = Inr c' \<longrightarrow> c \<subseteq> c')"
  "card (dom (map_of M) - c) < n \<Longrightarrow>
     \<exists>r. collect_each n M ds c = Some r \<and> (\<forall>c'. r = Inr c' \<longrightarrow> c \<subseteq> c')"
proof (induction n M s c and n M ds c rule: collect_dependencies_collect_each.induct)
  case (1 M s c)
  then show ?case by simp
next
  case (2 n M s c)
  show ?case
  proof (cases "s \<in> c")
    case True then show ?thesis by simp
  next
    case False
    show ?thesis
    proof (cases "map_of M s")
      case None with False show ?thesis by simp
    next
      case (Some info)
      have fin: "finite (dom (map_of M) - c)" by (simp add: finite_dom_map_of)
      have "s \<in> dom (map_of M) - c" using Some False by auto
      then have "card (dom (map_of M) - insert s c) < card (dom (map_of M) - c)"
        using fin by (metis Diff_insert card_Diff1_less)
      then have lt': "card (dom (map_of M) - insert s c) < n" using "2.prems" by simp
      show ?thesis
      proof (cases "sym_type info")
        case SymFunction
        show ?thesis
        proof (cases "analyze_function_dependencies (sym_node info)")
          case (Inl e)
          then show ?thesis using False Some SymFunction by simp
        next
          case (Inr ds)
          from "2.IH"[OF False Some SymFunction Inr lt']
          obtain r where "collect_each n M ds (insert s c) = Some r"
            "\<forall>c'. r = Inr c' \<longrightarrow> insert s c \<subseteq> c'"
            by blast
          then show ?thesis using False Some SymFunction Inr by auto
        qed
      qed (use False Some in auto)
    qed
  qed
next
  case (3 n M c)
  then show ?case by simp
next
  case (4 n M d ds c)
  have fin: "finite (dom (map_of M) - c)" by (simp add: finite_dom_map_of)
  show ?case
  proof (cases "map_of M d \<noteq> None \<and> d \<notin> c")
    case True
    from "4.IH"(1)[OF True "4.prems"] obtain r1 where
      r1: "collect_dependencies n M d c = Some r1" "\<forall>c'. r1 = Inr c' \<longrightarrow> c \<subseteq> c'" by blast
    show ?thesis
    proof (cases r1)
      case (Inl e)
      then show ?thesis using True r1(1) by simp
    next
      case (Inr c1)
      then have sub: "c \<subseteq> c1" using r1(2) by simp
      have "card (dom (map_of M) - c1) \<le> card (dom (map_of M) - c)"
        using sub fin by (intro card_mono) auto
      with "4.prems" have "card (dom (map_of M) - c1) < n" by simp
      from "4.IH"(2)[OF True r1(1) Inr this] obtain r2 where
        "collect_each n M ds c1 = Some r2" "\<forall>c'. r2 = Inr c' \<longrightarrow> c1 \<subseteq> c'" by blast
      then show ?thesis using True r1(1) Inr sub by auto
    qed
  next
    case False
    from "4.IH"(3)[OF False "4.prems"] obtain r where
      "collect_each n M ds c = Some r" "\<forall>c'. r = Inr c' \<longrightarrow> c \<subseteq> c'" by blast
    then show ?thesis using False by auto
  qed
qed

lemma collect_selected_missing:
  assumes "card (dom (map_of M) - acc) < n" "s \<in> set sel" "map_of M s = None"
  shows "\<exists>e. collect_selected n M mn sel acc = Some (Inl e)"
  using assms
proof (induction sel arbitrary: acc)
  case Nil
  then show ?case by simp
next
  case (Cons a sel)
  show ?case
  proof (cases "map_of M a = None")
    case True
    then show ?thesis by simp
  next
    case False
    with Cons.prems have s: "s \<in> set sel" by auto
    from collect_total(1)[OF Cons.prems(1), of a]
    obtain r1 where r1: "collect_dependencies n M a acc = Some r1"
      "\<forall>c'. r1 = Inr c' \<longrightarrow> acc \<subseteq> c'" by blast
    show ?thesis
    proof (cases r1)
      case (Inl e)
      then show ?thesis using False r1(1) by simp
    next
      case (Inr c1)
      then have sub: "acc \<subseteq> c1" using r1(2) by simp
      have fin: "finite (dom (map_of M) - acc)" by (simp add: finite_dom_map_of)
      have "card (dom (map_of M) - c1) \<le> card (dom (map_of M) - acc)"
        using sub fin by (intro card_mono) auto
      then have lt: "card (dom (map_of M) - c1) < n" using Cons.prems(1) by simp
      from Cons.IH[OF lt s Cons.prems(3)] obtain e where
        "collect_selected n M mn sel c1 = Some (Inl e)" by blast
      then show ?thesis using False r1(1) Inr by auto
    qed
  qed
qed

lemma card_dom_le: "card (dom (map_of M)) \<le> length M"
  by (metis dom_map_of_conv_image_fst card_image_le card_length le_trans List.finite_set set_map)

text \<open>
  Claim C1. The module \<^verbatim>\<open>logic\<close> exports the function \<^verbatim>\<open>negate\<close>, whose body is
  \<^verbatim>\<open>return !x\<close>. Handling \<^verbatim>\<open>use logic select negate\<close> does not import
  \<^verbatim>\<open>negate\<close>: the scan of the body reaches the operator of the negation, the walk
  through its attributes does not end, and the statement fails with the error that wraps
  Python's \<^verbatim>\<open>RecursionError\<close>.
\<close>

theorem negation_in_body_fails_the_import:
  "handle_use_statement (\<lambda>m. Parsed logic_statements) ''logic'' (Some [''negate'']) False
     Map.empty =
   Some (Inl (NoxyError ''Erro ao processar import: maximum recursion depth exceeded''))"
  by (simp add: handle_use_statement_def load_module_def logic_statements_def
      extract_exported_symbols_def visit_all_def visit_token_type_def)

text \<open>The scan also passes over a name that occurs only as the base of a field access:
  selecting \<^verbatim>\<open>bump\<close>, which reads \<^verbatim>\<open>cfg.x\<close>, imports \<^verbatim>\<open>bump\<close> without the
  exported variable \<^verbatim>\<open>cfg\<close>.\<close>

lemma field_access_base_is_not_imported:
  "\<exists>imp. handle_use_statement (\<lambda>m. Parsed config_statements) ''config'' (Some [''bump'']) False
            Map.empty = Some (Inr imp)
         \<and> map_of (extract_exported_symbols config_statements) ''cfg'' \<noteq> None
         \<and> imp ''bump'' \<noteq> None \<and> imp ''cfg'' = None"
  by (simp add: handle_use_statement_def load_module_def config_statements_def
      extract_exported_symbols_def import_selected_def builtin_functions_def visit_all_def)

text \<open>The scenario of the specification: selecting \<^verbatim>\<open>g\<close> brings \<^verbatim>\<open>h\<close> along and
  leaves \<^verbatim>\<open>k\<close> out; selecting \<^verbatim>\<open>h\<close> alone does not bring \<^verbatim>\<open>g\<close>.\<close>

lemma select_g_imports_g_and_h:
  "\<exists>imp. handle_use_statement (\<lambda>m. Parsed utils_statements) ''utils'' (Some [''g'']) False Map.empty
            = Some (Inr imp)
         \<and> imp ''g'' \<noteq> None \<and> imp ''h'' \<noteq> None \<and> imp ''k'' = None"
  by (simp add: handle_use_statement_def load_module_def utils_statements_def
      extract_exported_symbols_def import_selected_def builtin_functions_def visit_all_def)

lemma select_h_does_not_import_g:
  "\<exists>imp. handle_use_statement (\<lambda>m. Parsed utils_statements) ''utils'' (Some [''h'']) False Map.empty
            = Some (Inr imp)
         \<and> imp ''h'' \<noteq> None \<and> imp ''g'' = None"
  by (simp add: handle_use_statement_def load_module_def utils_statements_def
      extract_exported_symbols_def import_selected_def builtin_functions_def visit_all_def)

text \<open>
  Claim C8. If a requested symbol of \<^verbatim>\<open>use M select s1, ..., sn\<close> is not among the
  symbols the module exports, handling the statement raises an error, and processing the
  imports of a program that starts with this statement raises the same error.
\<close>

theorem missing_symbol_raises:
  assumes "modules module_name = Parsed statements"
    and "s \<in> set selected"
    and "map_of (extract_exported_symbols statements) s = None"
  shows "\<exists>msg. handle_use_statement modules module_name (Some selected) False imported =
           Some (Inl (NoxyError msg))
         \<and> process_imports modules (UseNode module_name (Some selected) False # rest) imported =
           Some (Inl (NoxyError msg))"
proof -
  let ?M = "extract_exported_symbols statements"
  have lt: "card (dom (map_of ?M) - {}) < Suc (length ?M)" using card_dom_le[of ?M] by simp
  from collect_selected_missing[OF lt assms(2,3), where mn="module_name"]
  obtain e where m: "collect_selected (Suc (length ?M)) ?M module_name selected {} = Some (Inl e)"
    by blast
  obtain msg where w: "wrap_import_error e = NoxyError msg"
    using wrap_import_error_is_noxy_error by blast
  have ne: "selected \<noteq> []" using assms(2) by auto
  have "handle_use_statement modules module_name (Some selected) False imported =
          Some (Inl (NoxyError msg))"
    using assms(1) ne m w by (simp add: handle_use_statement_def load_module_def)
  then show ?thesis by simp
qed

theorem missing_symbol_raises_witness:
  "(\<lambda>m. Parsed utils_statements) ''utils'' = Parsed utils_statements
   \<and> ''missing'' \<in> set [''g'', ''missing'']
   \<and> map_of (extract_exported_symbols utils_statements) ''missing'' = None
   \<and> (\<exists>msg. handle_use_statement (\<lambda>m. Parsed utils_statements) ''utils''
               (Some [''g'', ''missing'']) False Map.empty = Some (Inl (NoxyError msg))
            \<and> process_imports (\<lambda>m. Parsed utils_statements)
                 (UseNode ''utils'' (Some [''g'', ''missing'']) False # []) Map.empty
               = Some (Inl (NoxyError msg)))"
proof -
  have h: "map_of (extract_exported_symbols utils_statements) ''missing'' = None"
    by (simp add: utils_statements_def extract_exported_symbols_def)
  show ?thesis
    using h missing_symbol_raises [of "\<lambda>m. Parsed utils_statements" "''utils''" utils_statements
        "''missing''" "[''g'', ''missing'']" Map.empty "[]"]
    by simp
qed

section \<open>Verification: lexer\<close>

text \<open>
  Claim C6 as stated fails: in the f-string \<^verbatim>\<open>f"{ {a:b} }"\<close> the only colon of the
  expression sits inside inner braces (depth 1), and the lexer still cuts the expression
  there, giving the expression text \<^verbatim>\<open>{a\<close> and the format specifier \<^verbatim>\<open>b}\<close>.
\<close>

theorem nested_colon_is_split:
  "colon_depths '' {a:b} '' 0 = [1]
   \<and> tokenize nested_colon_fstring =
       Inr [Token FSTRING (PartsVal [EXPR_FORMAT ''{a'' ''b}'']) 1 1, Token EOF (StrVal []) 1 13]"
  by code_simp

text \<open>
  Claim C6, amended. The format specifier starts at the first colon of the stripped
  expression text, at whatever brace depth it stands: the stripped text before it is the
  expression, the stripped text after it is the specifier, and when that is empty the
  part carries the expression alone.
\<close>

theorem format_spec_at_first_colon:
  assumes "strip expr_text = a @ CHR '':'' # b" and "CHR '':'' \<notin> set a"
  shows "expression_part expr_text =
           (if strip b = [] then EXPR (strip a) else EXPR_FORMAT (strip a) (strip b))"
proof -
  have ne: "\<forall>x \<in> set a. x \<noteq> CHR '':''" using assms(2) by blast
  have tw: "takeWhile (\<lambda>c. c \<noteq> CHR '':'') (a @ CHR '':'' # b) = a"
    using ne by (simp add: takeWhile_tail)
  have dw: "dropWhile (\<lambda>c. c \<noteq> CHR '':'') (a @ CHR '':'' # b) = CHR '':'' # b"
    using ne by (simp add: dropWhile_append2)
  show ?thesis
    using assms(1) tw dw by (simp add: expression_part_def Let_def)
qed

theorem format_spec_at_first_colon_witness:
  "strip '' {a:b} '' = ''{a'' @ CHR '':'' # ''b}''
   \<and> CHR '':'' \<notin> set ''{a''
   \<and> expression_part '' {a:b} '' = EXPR_FORMAT ''{a'' ''b}''"
proof -
  have h1: "strip '' {a:b} '' = ''{a'' @ CHR '':'' # ''b}''" by code_simp
  have h2: "CHR '':'' \<notin> set ''{a''" by simp
  have h3: "strip ''b}'' = ''b}''" "strip ''{a'' = ''{a''" by code_simp+
  show ?thesis
    using h1 h2 h3 format_spec_at_first_colon [of "'' {a:b} ''" "''{a''" "''b}''"] by simp
qed

text \<open>
  Claim C7, where the code fails it: the string literal of \<^verbatim>\<open>let x = "a\<close>, newline,
  \<^verbatim>\<open>b"\<close> begins at offset 8, which is line 1, column 9; its token is recorded at
  line 2, column 9, the line on which the literal ends.
\<close>

theorem multiline_string_token_line:
  "location_of two_line_string 8 = (1, 9)
   \<and> tokenize two_line_string =
       Inr [Token LET (StrVal ''let'') 1 1, Token IDENTIFIER (StrVal ''x'') 1 5,
            Token ASSIGN (StrVal ''='') 1 7,
            Token STRING (StrVal [CHR ''a'', newline, CHR ''b'']) 2 9,
            Token EOF (StrVal []) 2 3]"
  by code_simp

section \<open>Verification: struct dependency order\<close>

subsection \<open>Lowering the fields of a struct\<close>

lemma convert_array_unfold:
  "\<not> (\<exists>struct_name fs n. t = StructType struct_name fs \<and> array_size = Some n) \<Longrightarrow>
   convert_type st (ArrayType t array_size) =
     (case convert_type st t of
        Inl e \<Rightarrow> Inl e
      | Inr (element_lltype, st') \<Rightarrow>
          Inr (case array_size of Some n \<Rightarrow> ArrayTy element_lltype n
                                | None \<Rightarrow> PointerTy element_lltype, st'))"
  by (cases t; cases array_size) (auto split: sum.splits)

lemma convert_reference_unfold:
  "\<not> (\<exists>struct_name fs. t = StructType struct_name fs) \<Longrightarrow>
   convert_type st (ReferenceType t is_mutable) =
     (case convert_type st t of
        Inl e \<Rightarrow> Inl e
      | Inr (target_lltype, st') \<Rightarrow> Inr (PointerTy target_lltype, st'))"
  by (cases t) auto

lemma convert_type_le: "convert_type st t = Inr (ty, st') \<Longrightarrow> st \<subseteq>\<^sub>m st'"
proof (induction t arbitrary: st ty st')
  case (ArrayType t array_size)
  show ?case
  proof (cases "\<exists>struct_name fs n. t = StructType struct_name fs \<and> array_size = Some n")
    case True
    then show ?thesis using ArrayType.prems by (auto split: option.splits simp: map_le_def)
  next
    case False
    from ArrayType.prems convert_array_unfold[OF False, of st]
    obtain l where "convert_type st t = Inr (l, st')" by (auto split: sum.splits)
    then show ?thesis by (rule ArrayType.IH)
  qed
next
  case (ReferenceType t is_mutable)
  show ?case
  proof (cases "\<exists>struct_name fs. t = StructType struct_name fs")
    case True
    then show ?thesis using ReferenceType.prems by (auto split: option.splits simp: map_le_def)
  next
    case False
    from ReferenceType.prems convert_reference_unfold[OF False, of st]
    obtain l where "convert_type st t = Inr (l, st')" by (auto split: sum.splits)
    then show ?thesis by (rule ReferenceType.IH)
  qed
qed (auto split: option.splits)

lemma lowerable_converts: "lowerable t \<Longrightarrow> \<exists>ty st'. convert_type st t = Inr (ty, st')"
proof (induction t arbitrary: st)
  case (ArrayType t array_size)
  show ?case
  proof (cases "\<exists>struct_name fs n. t = StructType struct_name fs \<and> array_size = Some n")
    case True
    then show ?thesis by (auto split: option.splits)
  next
    case False
    then have l: "lowerable t" using ArrayType.prems by (cases t; cases array_size) auto
    from ArrayType.IH[OF l, of st] obtain ty st' where "convert_type st t = Inr (ty, st')" by blast
    then show ?thesis using convert_array_unfold[OF False, of st] by simp
  qed
next
  case (ReferenceType t is_mutable)
  show ?case
  proof (cases "\<exists>struct_name fs. t = StructType struct_name fs")
    case True
    then show ?thesis by (auto split: option.splits)
  next
    case False
    then have l: "lowerable t" using ReferenceType.prems by (cases t) auto
    from ReferenceType.IH[OF l, of st] obtain ty st' where "convert_type st t = Inr (ty, st')"
      by blast
    then show ?thesis using convert_reference_unfold[OF False, of st] by simp
  qed
qed auto

lemma definition_field_type_cases:
  "(\<exists>n fs m. t = ReferenceType (StructType n fs) m) \<or> (\<exists>n fs. t = StructType n fs) \<or>
   definition_field_type st t = convert_type st t"
  by (induction st t rule: definition_field_type.induct) auto

lemma placeholder_field_type_cases:
  "(\<exists>n fs. t = StructType n fs) \<or> placeholder_field_type st t = convert_type st t"
  by (induction st t rule: placeholder_field_type.induct) auto

lemma lowerable_field_cases:
  "lowerable_field t \<Longrightarrow> (\<exists>n fs. t = StructType n fs) \<or> lowerable t"
  by (cases t) auto

lemma definition_field_type_le:
  assumes "definition_field_type st t = Inr (ty, st')"
  shows "st \<subseteq>\<^sub>m st'"
proof -
  consider (ref) n fs m where "t = ReferenceType (StructType n fs) m"
    | (str) n fs where "t = StructType n fs"
    | (conv) "definition_field_type st t = convert_type st t"
    using definition_field_type_cases[of t st] by blast
  then show ?thesis
  proof cases
    case ref
    with assms show ?thesis by simp
  next
    case str
    show ?thesis
    proof (cases "st n")
      case None
      with assms str have "st' = st(n \<mapsto> opaque_type)" by simp
      with None show ?thesis by (auto simp: map_le_def)
    next
      case (Some t')
      with assms str show ?thesis by simp
    qed
  next
    case conv
    with assms show ?thesis using convert_type_le by simp
  qed
qed

lemma placeholder_field_type_le:
  assumes "placeholder_field_type st t = Inr (ty, st')"
  shows "st \<subseteq>\<^sub>m st'"
proof -
  consider (str) n fs where "t = StructType n fs"
    | (conv) "placeholder_field_type st t = convert_type st t"
    using placeholder_field_type_cases[of t st] by blast
  then show ?thesis
  proof cases
    case str
    show ?thesis
    proof (cases "st n")
      case None
      with assms str show ?thesis by simp
    next
      case (Some t')
      with assms str show ?thesis by simp
    qed
  next
    case conv
    with assms show ?thesis using convert_type_le by simp
  qed
qed

lemma lowerable_definition_field:
  assumes "lowerable_field t"
  shows "\<exists>ty st'. definition_field_type st t = Inr (ty, st')"
proof -
  consider (ref) n fs m where "t = ReferenceType (StructType n fs) m"
    | (str) n fs where "t = StructType n fs"
    | (conv) "definition_field_type st t = convert_type st t" "\<not> (\<exists>n fs. t = StructType n fs)"
    using definition_field_type_cases[of t st] by blast
  then show ?thesis
  proof cases
    case ref
    then show ?thesis by simp
  next
    case str
    then show ?thesis by (cases "st n") simp_all
  next
    case conv
    with assms have "lowerable t" using lowerable_field_cases by blast
    with conv(1) show ?thesis using lowerable_converts by simp
  qed
qed

lemma lowerable_placeholder_field:
  assumes "lowerable_field t"
  shows "\<exists>ty st'. placeholder_field_type st t = Inr (ty, st')"
proof -
  consider (str) n fs where "t = StructType n fs"
    | (conv) "placeholder_field_type st t = convert_type st t" "\<not> (\<exists>n fs. t = StructType n fs)"
    using placeholder_field_type_cases[of t st] by blast
  then show ?thesis
  proof cases
    case str
    then show ?thesis by (cases "st n") simp_all
  next
    case conv
    with assms have "lowerable t" using lowerable_field_cases by blast
    with conv(1) show ?thesis using lowerable_converts by simp
  qed
qed

lemma lower_fields_succeeds:
  assumes "\<forall>st t. lowerable_field t \<longrightarrow> (\<exists>ty st'. lower st t = Inr (ty, st'))"
    and "\<forall>field \<in> set field_list. lowerable_field (snd field)"
  shows "\<exists>tys st'. lower_fields lower st field_list acc = Inr (tys, st')"
  using assms(2)
proof (induction field_list arbitrary: st acc)
  case Nil
  then show ?case by simp
next
  case (Cons field rest)
  obtain f t where field: "field = (f, t)" by (cases field)
  with Cons.prems have "lowerable_field t" by simp
  with assms(1) obtain ty st1 where "lower st t = Inr (ty, st1)" by blast
  moreover from Cons.IH[of st1 "acc @ [ty]"] Cons.prems
  obtain tys st' where "lower_fields lower st1 rest (acc @ [ty]) = Inr (tys, st')" by auto
  ultimately show ?case using field by simp
qed

lemma lower_fields_le:
  assumes "\<forall>st t ty st'. lower st t = Inr (ty, st') \<longrightarrow> st \<subseteq>\<^sub>m st'"
  shows "lower_fields lower st field_list acc = Inr (tys, st') \<Longrightarrow>
         st \<subseteq>\<^sub>m st' \<and> length tys = length acc + length field_list \<and> take (length acc) tys = acc"
proof (induction field_list arbitrary: st acc)
  case Nil
  then show ?case by simp
next
  case (Cons field rest)
  obtain f t where field: "field = (f, t)" by (cases field)
  with Cons.prems obtain ty st1 where
    l: "lower st t = Inr (ty, st1)" and
    r: "lower_fields lower st1 rest (acc @ [ty]) = Inr (tys, st')"
    by (auto split: sum.splits)
  from Cons.IH[OF r] have ih: "st1 \<subseteq>\<^sub>m st'" "length tys = length (acc @ [ty]) + length rest"
    "take (length (acc @ [ty])) tys = acc @ [ty]" by blast+
  have "st \<subseteq>\<^sub>m st1" using assms l by blast
  then have a: "st \<subseteq>\<^sub>m st'" using ih(1) by (rule map_le_trans)
  have "take (length acc) tys = take (length acc) (take (Suc (length acc)) tys)"
    by (simp add: min_def)
  also have "\<dots> = take (length acc) (acc @ [ty])" using ih(3) by simp
  finally have b: "take (length acc) tys = acc" by simp
  show ?case using a b ih(2) by simp
qed

lemma definition_field_type_le_all:
  "\<forall>st t ty st'. definition_field_type st t = Inr (ty, st') \<longrightarrow> st \<subseteq>\<^sub>m st'"
  using definition_field_type_le by blast

lemma placeholder_field_type_le_all:
  "\<forall>st t ty st'. placeholder_field_type st t = Inr (ty, st') \<longrightarrow> st \<subseteq>\<^sub>m st'"
  using placeholder_field_type_le by blast

lemma lower_fields_definition_nth:
  "lower_fields definition_field_type st field_list acc = Inr (tys, st') \<Longrightarrow>
   i < length field_list \<Longrightarrow> field_list ! i = (f, StructType b fs) \<Longrightarrow> st b = Some tb \<Longrightarrow>
   tys ! (length acc + i) = tb"
proof (induction field_list arbitrary: st acc i)
  case Nil
  then show ?case by simp
next
  case (Cons field rest)
  obtain g t where field: "field = (g, t)" by (cases field)
  with Cons.prems(1) obtain ty st1 where
    l: "definition_field_type st t = Inr (ty, st1)" and
    r: "lower_fields definition_field_type st1 rest (acc @ [ty]) = Inr (tys, st')"
    by (auto split: sum.splits)
  have le: "st \<subseteq>\<^sub>m st1" using definition_field_type_le[OF l] .
  show ?case
  proof (cases i)
    case 0
    with Cons.prems(3) field have t: "t = StructType b fs" by simp
    with l Cons.prems(4) have ty: "ty = tb" by simp
    from lower_fields_le[OF definition_field_type_le_all r]
    have "take (length (acc @ [ty])) tys = acc @ [ty]" by blast
    then have tk: "take (Suc (length acc)) tys = acc @ [ty]" by simp
    have "tys ! length acc = (take (Suc (length acc)) tys) ! length acc" by simp
    then have "tys ! length acc = ty" using tk by simp
    then show ?thesis using 0 ty by simp
  next
    case (Suc j)
    have "st1 b = Some tb" using le Cons.prems(4) by (auto simp: map_le_def dom_def)
    from Cons.IH[OF r _ _ this, of j] Cons.prems(2,3) Suc
    show ?thesis by simp
  qed
qed

subsection \<open>The two ways of storing a struct\<close>

lemma process_struct_definition_effect:
  assumes "process_struct_definition (a, field_list) tabs = Inr tabs'"
  shows "insertions tabs' = insertions tabs @ [Defined a]"
    and "\<exists>tys. struct_types tabs' a = Some (LiteralStructTy tys) \<and> length tys = length field_list \<and>
           (\<forall>i f b fs tb. i < length field_list \<and> field_list ! i = (f, StructType b fs) \<and>
                struct_types tabs b = Some tb \<longrightarrow> tys ! i = tb)"
    and "\<forall>x. x \<noteq> a \<and> x \<in> dom (struct_types tabs) \<longrightarrow> struct_types tabs' x = struct_types tabs x"
proof -
  from assms obtain tys st where
    l: "lower_fields definition_field_type (struct_types tabs) field_list [] = Inr (tys, st)" and
    t: "struct_types tabs' = st(a \<mapsto> LiteralStructTy tys)" and
    e: "insertions tabs' = insertions tabs @ [Defined a]"
    by (auto simp: process_struct_definition_def split: sum.splits)
  show "insertions tabs' = insertions tabs @ [Defined a]" by (rule e)
  from lower_fields_le[OF definition_field_type_le_all l]
  have le: "struct_types tabs \<subseteq>\<^sub>m st" and len: "length tys = length field_list" by simp_all
  have nth: "\<forall>i f b fs tb. i < length field_list \<and> field_list ! i = (f, StructType b fs) \<and>
                struct_types tabs b = Some tb \<longrightarrow> tys ! i = tb"
  proof (intro allI impI, elim conjE)
    fix i f b fs tb
    assume "i < length field_list" "field_list ! i = (f, StructType b fs)"
      "struct_types tabs b = Some tb"
    from lower_fields_definition_nth[OF l this] show "tys ! i = tb" by simp
  qed
  show "\<exists>tys. struct_types tabs' a = Some (LiteralStructTy tys) \<and> length tys = length field_list \<and>
           (\<forall>i f b fs tb. i < length field_list \<and> field_list ! i = (f, StructType b fs) \<and>
                struct_types tabs b = Some tb \<longrightarrow> tys ! i = tb)"
    using t len nth by auto
  show "\<forall>x. x \<noteq> a \<and> x \<in> dom (struct_types tabs) \<longrightarrow> struct_types tabs' x = struct_types tabs x"
    using t le by (auto simp: map_le_def)
qed

lemma process_struct_with_placeholders_effect:
  assumes "process_struct_with_placeholders (a, field_list) tabs = Inr tabs'"
  shows "insertions tabs' = insertions tabs @ [Placeheld a]"
    and "\<forall>x. x \<noteq> a \<and> x \<in> dom (struct_types tabs) \<longrightarrow> struct_types tabs' x = struct_types tabs x"
proof -
  from assms obtain tys st where
    l: "lower_fields placeholder_field_type (struct_types tabs) field_list [] = Inr (tys, st)" and
    t: "struct_types tabs' = st(a \<mapsto> LiteralStructTy tys)" and
    e: "insertions tabs' = insertions tabs @ [Placeheld a]"
    by (auto simp: process_struct_with_placeholders_def split: sum.splits)
  show "insertions tabs' = insertions tabs @ [Placeheld a]" by (rule e)
  from lower_fields_le[OF placeholder_field_type_le_all l]
  have le: "struct_types tabs \<subseteq>\<^sub>m st" by simp
  show "\<forall>x. x \<noteq> a \<and> x \<in> dom (struct_types tabs) \<longrightarrow> struct_types tabs' x = struct_types tabs x"
    using t le by (auto simp: map_le_def)
qed

lemma process_struct_definition_succeeds:
  assumes "\<forall>field \<in> set (snd d). lowerable_field (snd field)"
  shows "\<exists>tabs'. process_struct_definition d tabs = Inr tabs'"
proof -
  have "\<forall>st t. lowerable_field t \<longrightarrow> (\<exists>ty st'. definition_field_type st t = Inr (ty, st'))"
    using lowerable_definition_field by blast
  from lower_fields_succeeds[OF this assms, of "struct_types tabs" "[]"]
  obtain tys st' where
    "lower_fields definition_field_type (struct_types tabs) (snd d) [] = Inr (tys, st')" by blast
  then show ?thesis by (simp add: process_struct_definition_def)
qed

lemma process_struct_with_placeholders_succeeds:
  assumes "\<forall>field \<in> set (snd d). lowerable_field (snd field)"
  shows "\<exists>tabs'. process_struct_with_placeholders d tabs = Inr tabs'"
proof -
  have "\<forall>st t. lowerable_field t \<longrightarrow> (\<exists>ty st'. placeholder_field_type st t = Inr (ty, st'))"
    using lowerable_placeholder_field by blast
  from lower_fields_succeeds[OF this assms, of "struct_types tabs" "[]"]
  obtain tys st' where
    "lower_fields placeholder_field_type (struct_types tabs) (snd d) [] = Inr (tys, st')" by blast
  then show ?thesis by (simp add: process_struct_with_placeholders_def)
qed

subsection \<open>The processing comes to an end\<close>

lemma finite_unseen [simp]: "finite (unseen defs s)"
  by (simp add: unseen_def struct_names_def)

lemma find_first:
  assumes "find (\<lambda>d. fst d = n) defs = Some ds"
  shows "fst ds = n" "fst ds \<in> struct_names defs" "find (\<lambda>d. fst d = fst ds) defs = Some ds"
    "ds \<in> set defs"
proof -
  from assms show a: "fst ds = n" by (auto simp: find_Some_iff)
  from assms show "fst ds \<in> struct_names defs"
    by (auto simp: find_Some_iff struct_names_def)
  from assms a show "find (\<lambda>d. fst d = fst ds) defs = Some ds" by simp
  from assms show "ds \<in> set defs" by (auto simp: find_Some_iff)
qed

lemma process_total:
  "d \<in> set defs \<Longrightarrow> card (unseen defs s) < n \<Longrightarrow>
     \<exists>r. process_struct n so defs d s = Some r \<and>
       (\<forall>s'. r = Inr s' \<longrightarrow> processed s \<union> processing s \<subseteq> processed s' \<union> processing s') \<and>
       ((\<forall>d \<in> set defs. \<forall>field \<in> set (snd d). lowerable_field (snd field)) \<longrightarrow>
          (\<exists>s'. r = Inr s'))"
  "card (unseen defs s) < n \<Longrightarrow>
     \<exists>r. process_dependencies n so defs deps s = Some r \<and>
       (\<forall>s'. r = Inr s' \<longrightarrow> processed s \<union> processing s \<subseteq> processed s' \<union> processing s') \<and>
       ((\<forall>d \<in> set defs. \<forall>field \<in> set (snd d). lowerable_field (snd field)) \<longrightarrow>
          (\<exists>s'. r = Inr s'))"
proof (induction n so defs d s and n so defs deps s rule: process_struct_process_dependencies.induct)
  case (1 so defs d s)
  then show ?case by simp
next
  case (2 n so defs d s)
  let ?a = "fst d"
  let ?L = "\<forall>d \<in> set defs. \<forall>field \<in> set (snd d). lowerable_field (snd field)"
  have dl: "?L \<Longrightarrow> \<forall>field \<in> set (snd d). lowerable_field (snd field)"
    using "2.prems"(1) by blast
  show ?case
  proof (cases "?a \<in> processed s")
    case True
    then show ?thesis by simp
  next
    case np: False
    show ?thesis
    proof (cases "?a \<in> processing s")
      case True
      show ?thesis
      proof (cases "process_struct_with_placeholders d (tables s)")
        case (Inl e)
        have "\<not> ?L" using process_struct_with_placeholders_succeeds[OF dl, of "tables s"] Inl
          by auto
        then show ?thesis using np True Inl by simp
      next
        case (Inr tabs)
        then show ?thesis using np True by auto
      qed
    next
      case npg: False
      let ?s1 = "s\<lparr>processing := insert ?a (processing s)\<rparr>"
      have "?a \<in> struct_names defs" using "2.prems"(1) by (auto simp: struct_names_def)
      then have "?a \<in> unseen defs s" using np npg by (simp add: unseen_def)
      moreover have "unseen defs ?s1 = unseen defs s - {?a}" by (auto simp: unseen_def)
      ultimately have "card (unseen defs ?s1) < card (unseen defs s)"
        using card_Diff1_less[of "unseen defs s" ?a] by simp
      then have lt: "card (unseen defs ?s1) < n" using "2.prems"(2) by simp
      from "2.IH"[OF np npg lt]
      obtain r1 where r1: "process_dependencies n so defs (so (get_struct_dependencies d)) ?s1 = Some r1"
        "\<forall>s'. r1 = Inr s' \<longrightarrow> processed ?s1 \<union> processing ?s1 \<subseteq> processed s' \<union> processing s'"
        "?L \<longrightarrow> (\<exists>s'. r1 = Inr s')"
        by blast
      show ?thesis
      proof (cases r1)
        case (Inl e)
        then have "\<not> ?L" using r1(3) by auto
        then show ?thesis using np npg r1(1) Inl by simp
      next
        case (Inr s2)
        with r1(2) have sub: "processed s \<union> processing s \<subseteq> processed s2 \<union> processing s2" by auto
        show ?thesis
        proof (cases "process_struct_definition d (tables s2)")
          case (Inl e)
          have "\<not> ?L" using process_struct_definition_succeeds[OF dl, of "tables s2"] Inl by auto
          then show ?thesis using np npg r1(1) Inr Inl by simp
        next
          case (Inr tabs)
          then show ?thesis using np npg r1(1) \<open>r1 = Inr s2\<close> sub by auto
        qed
      qed
    qed
  qed
next
  case (3 n so defs s)
  then show ?case by simp
next
  case (4 n so defs dep deps s)
  let ?L = "\<forall>d \<in> set defs. \<forall>field \<in> set (snd d). lowerable_field (snd field)"
  show ?case
  proof (cases "find (\<lambda>d. fst d = dep) defs")
    case None
    with "4.IH"(1)[OF None "4.prems"] show ?thesis by simp
  next
    case (Some ds)
    from "4.IH"(2)[OF Some find_first(4)[OF Some] "4.prems"]
    obtain r1 where r1: "process_struct n so defs ds s = Some r1"
      "\<forall>s'. r1 = Inr s' \<longrightarrow> processed s \<union> processing s \<subseteq> processed s' \<union> processing s'"
      "?L \<longrightarrow> (\<exists>s'. r1 = Inr s')"
      by blast
    show ?thesis
    proof (cases r1)
      case (Inl e)
      then have "\<not> ?L" using r1(3) by auto
      then show ?thesis using Some r1(1) Inl by simp
    next
      case (Inr s1)
      with r1(2) have sub: "processed s \<union> processing s \<subseteq> processed s1 \<union> processing s1" by auto
      then have "unseen defs s1 \<subseteq> unseen defs s" by (auto simp: unseen_def)
      then have "card (unseen defs s1) \<le> card (unseen defs s)" by (simp add: card_mono)
      then have lt: "card (unseen defs s1) < n" using "4.prems" by simp
      from "4.IH"(3)[OF Some r1(1) Inr lt]
      obtain r2 where r2: "process_dependencies n so defs deps s1 = Some r2"
        "\<forall>s'. r2 = Inr s' \<longrightarrow> processed s1 \<union> processing s1 \<subseteq> processed s' \<union> processing s'"
        "?L \<longrightarrow> (\<exists>s'. r2 = Inr s')"
        by blast
      have "process_dependencies n so defs (dep # deps) s = Some r2"
        using Some r1(1) Inr r2(1) by simp
      moreover have "\<forall>s'. r2 = Inr s' \<longrightarrow> processed s \<union> processing s \<subseteq> processed s' \<union> processing s'"
        using sub r2(2) by blast
      ultimately show ?thesis using r2(3) by blast
    qed
  qed
qed

lemma process_each_total:
  "card (unseen defs s) < n \<Longrightarrow> set rest \<subseteq> set defs \<Longrightarrow>
   \<exists>r. process_each n so defs rest s = Some r \<and>
     ((\<forall>d \<in> set defs. \<forall>field \<in> set (snd d). lowerable_field (snd field)) \<longrightarrow>
        (\<exists>s'. r = Inr s'))"
proof (induction rest arbitrary: s)
  case Nil
  then show ?case by simp
next
  case (Cons d rest)
  let ?L = "\<forall>d \<in> set defs. \<forall>field \<in> set (snd d). lowerable_field (snd field)"
  have "d \<in> set defs" using Cons.prems(2) by simp
  from process_total(1)[OF this Cons.prems(1), of so]
  obtain r1 where r1: "process_struct n so defs d s = Some r1"
    "\<forall>s'. r1 = Inr s' \<longrightarrow> processed s \<union> processing s \<subseteq> processed s' \<union> processing s'"
    "?L \<longrightarrow> (\<exists>s'. r1 = Inr s')"
    by blast
  show ?case
  proof (cases r1)
    case (Inl e)
    then have "\<not> ?L" using r1(3) by auto
    then show ?thesis using r1(1) Inl by simp
  next
    case (Inr s1)
    with r1(2) have "unseen defs s1 \<subseteq> unseen defs s" by (auto simp: unseen_def)
    then have "card (unseen defs s1) \<le> card (unseen defs s)" by (simp add: card_mono)
    then have "card (unseen defs s1) < n" using Cons.prems(1) by simp
    from Cons.IH[OF this] Cons.prems(2) obtain r2 where
      "process_each n so defs rest s1 = Some r2" "?L \<longrightarrow> (\<exists>s'. r2 = Inr s')"
      by auto
    then show ?thesis using r1(1) Inr by simp
  qed
qed

subsection \<open>The invariant of the processing\<close>

lemma has_event_append: "has_event a evs \<Longrightarrow> has_event a (evs @ evs2)"
  by (auto simp: has_event_def)

lemma settled_stored:
  "settled defs a tabs \<Longrightarrow> a \<in> dom (struct_types tabs) \<and> Defined a \<in> set (insertions tabs)"
  by (auto simp: settled_def)

lemma settled_preserved:
  assumes "settled defs a tabs"
    and "insertions tabs' = insertions tabs @ evs"
    and "\<forall>y. Defined y \<in> set (insertions tabs) \<longrightarrow> struct_types tabs' y = struct_types tabs y"
  shows "settled defs a tabs'"
proof -
  from assms(1) obtain pre post field_list tys where
    s: "insertions tabs = pre @ Defined a # post"
       "find (\<lambda>d. fst d = a) defs = Some (a, field_list)"
       "struct_types tabs a = Some (LiteralStructTy tys)" "length tys = length field_list"
       "\<forall>i f b fs. i < length field_list \<and> field_list ! i = (f, StructType b fs) \<and>
                    b \<in> struct_names defs \<longrightarrow>
           (Defined b \<in> set pre \<and> struct_types tabs b = Some (tys ! i))
           \<or> (Placeheld b \<in> set pre \<and> (b, a) \<in> (value_dependency defs)\<^sup>+)"
    unfolding settled_def by blast
  have e: "insertions tabs' = pre @ Defined a # (post @ evs)" using assms(2) s(1) by simp
  have a: "struct_types tabs' a = Some (LiteralStructTy tys)" using assms(3) s(1,3) by simp
  have pre: "\<forall>b. Defined b \<in> set pre \<longrightarrow> struct_types tabs' b = struct_types tabs b"
    using assms(3) s(1) by simp
  have "\<forall>i f b fs. i < length field_list \<and> field_list ! i = (f, StructType b fs) \<and>
                    b \<in> struct_names defs \<longrightarrow>
           (Defined b \<in> set pre \<and> struct_types tabs' b = Some (tys ! i))
           \<or> (Placeheld b \<in> set pre \<and> (b, a) \<in> (value_dependency defs)\<^sup>+)"
    using s(5) pre by metis
  then show ?thesis unfolding settled_def using e s(2,4) a by blast
qed

lemma field_dependency:
  assumes "i < length field_list" "field_list ! i = (f, StructType b fs)"
  shows "b \<in> set (get_struct_dependencies (a, field_list))"
proof -
  have "(f, StructType b fs) \<in> set field_list" using assms by (metis nth_mem)
  then show ?thesis by force
qed

lemma dependency_field:
  "dep \<in> set (get_struct_dependencies d) \<Longrightarrow> \<exists>f fs. (f, StructType dep fs) \<in> set (snd d)"
  by (cases d) (auto split: noxy_type.splits)

lemma order_step:
  "process_struct n so defs d s = Some (Inr s') \<Longrightarrow> (\<forall>xs. set (so xs) = set xs) \<Longrightarrow>
   fst d \<in> processed s \<or> find (\<lambda>x. fst x = fst d) defs = Some d \<Longrightarrow> order_inv defs P s \<Longrightarrow>
   (\<forall>x \<in> P. (x, fst d) \<in> (value_dependency defs)\<^sup>+) \<Longrightarrow>
   order_inv defs P s' \<and> fst d \<in> processed s' \<and> processed s \<subseteq> processed s'"
  "process_dependencies n so defs deps s = Some (Inr s') \<Longrightarrow> (\<forall>xs. set (so xs) = set xs) \<Longrightarrow>
   order_inv defs P s \<Longrightarrow>
   (\<forall>dep \<in> set deps. dep \<in> struct_names defs \<longrightarrow>
      (\<forall>x \<in> P. (x, dep) \<in> (value_dependency defs)\<^sup>+)) \<Longrightarrow>
   order_inv defs P s' \<and> (\<forall>dep \<in> set deps. dep \<in> struct_names defs \<longrightarrow> dep \<in> processed s') \<and>
   processed s \<subseteq> processed s'"
proof (induction n so defs d s and n so defs deps s arbitrary: P s' and P s'
    rule: process_struct_process_dependencies.induct)
  case (1 so defs d s)
  then show ?case by simp
next
  case (2 n so defs d s)
  let ?a = "fst d"
  let ?D = "value_dependency defs"
  note inv = "2.prems"(4)
  from inv have
    i1: "processing s \<subseteq> P" and
    i6: "P \<subseteq> processing s \<union> processed s" and
    i2: "\<forall>x \<in> processed s - P. settled defs x (tables s)" and
    i3: "\<forall>x \<in> processed s. has_event x (insertions (tables s))" and
    i4: "\<forall>x. has_event x (insertions (tables s)) \<and> Defined x \<notin> set (insertions (tables s))
            \<longrightarrow> x \<in> P" and
    i5: "\<forall>x. Defined x \<in> set (insertions (tables s)) \<longrightarrow> x \<in> processed s - P" and
    i8: "\<forall>x. has_event x (insertions (tables s)) \<longrightarrow> x \<in> processed s" and
    i7: "distinct (insertions (tables s))"
    unfolding order_inv_def by blast+
  show ?case
  proof (cases "?a \<in> processed s")
    case True
    with "2.prems"(1) have "s' = s" by simp
    with True inv show ?thesis by simp
  next
    case np: False
    show ?thesis
    proof (cases "?a \<in> processing s")
      case True
      with np "2.prems"(1) obtain tabs where
        t: "process_struct_with_placeholders d (tables s) = Inr tabs" and
        s': "s' = s\<lparr>tables := tabs, processed := insert ?a (processed s),
                    processing := processing s - {?a}\<rparr>"
        by (auto split: sum.splits)
      have t': "process_struct_with_placeholders (?a, snd d) (tables s) = Inr tabs" using t by simp
      have ev: "insertions tabs = insertions (tables s) @ [Placeheld ?a]"
        using process_struct_with_placeholders_effect(1)[OF t'] .
      have same: "\<forall>x. x \<noteq> ?a \<and> x \<in> dom (struct_types (tables s)) \<longrightarrow>
                    struct_types tabs x = struct_types (tables s) x"
        using process_struct_with_placeholders_effect(2)[OF t'] .
      have aP: "?a \<in> P" using True i1 by blast
      have keep: "\<forall>y. Defined y \<in> set (insertions (tables s)) \<longrightarrow>
                    struct_types tabs y = struct_types (tables s) y"
      proof (intro allI impI)
        fix y assume "Defined y \<in> set (insertions (tables s))"
        then have y: "y \<in> processed s - P" using i5 by blast
        then have "y \<noteq> ?a" using aP by blast
        moreover have "y \<in> dom (struct_types (tables s))" using y i2 settled_stored by blast
        ultimately show "struct_types tabs y = struct_types (tables s) y" using same by blast
      qed
      have "order_inv defs P s'"
        unfolding order_inv_def
      proof (intro conjI ballI allI impI)
        show "processing s' \<subseteq> P" using s' i1 by auto
      next
        show "P \<subseteq> processing s' \<union> processed s'" using s' i6 by auto
      next
        fix x assume "x \<in> processed s' - P"
        then have "x \<in> processed s - P" using s' aP by auto
        then have "settled defs x (tables s)" using i2 by blast
        from settled_preserved[OF this ev keep] show "settled defs x (tables s')" using s' by simp
      next
        fix x assume x: "x \<in> processed s'"
        show "has_event x (insertions (tables s'))"
        proof (cases "x = ?a")
          case True
          then show ?thesis using s' ev by (simp add: has_event_def)
        next
          case False
          with x s' have "x \<in> processed s" by auto
          then have "has_event x (insertions (tables s))" using i3 by blast
          then show ?thesis using s' ev has_event_append by simp
        qed
      next
        fix x assume "has_event x (insertions (tables s')) \<and> Defined x \<notin> set (insertions (tables s'))"
        then have h: "has_event x (insertions (tables s) @ [Placeheld ?a])"
          "Defined x \<notin> set (insertions (tables s))"
          using s' ev by simp_all
        show "x \<in> P"
        proof (cases "x = ?a")
          case True then show ?thesis using aP by simp
        next
          case False
          with h(1) have "has_event x (insertions (tables s))" by (auto simp: has_event_def)
          with h(2) i4 show ?thesis by blast
        qed
      next
        fix x assume "Defined x \<in> set (insertions (tables s'))"
        then have "Defined x \<in> set (insertions (tables s))" using s' ev by simp
        then have "x \<in> processed s - P" using i5 by blast
        then show "x \<in> processed s' - P" using s' by auto
      next
        fix x assume "has_event x (insertions (tables s'))"
        then have "x = ?a \<or> has_event x (insertions (tables s))"
          using s' ev by (auto simp: has_event_def)
        then show "x \<in> processed s'" using s' i8 by auto
      next
        have "Placeheld ?a \<notin> set (insertions (tables s))"
          using i8 np by (auto simp: has_event_def)
        then show "distinct (insertions (tables s'))" using s' ev i7 by simp
      qed
      then show ?thesis using s' by auto
    next
      case npg: False
      let ?s1 = "s\<lparr>processing := insert ?a (processing s)\<rparr>"
      from np npg "2.prems"(1) obtain s2 tabs where
        d: "process_dependencies n so defs (so (get_struct_dependencies d)) ?s1 = Some (Inr s2)" and
        t: "process_struct_definition d (tables s2) = Inr tabs" and
        s': "s' = s2\<lparr>tables := tabs, processed := insert ?a (processed s2),
                     processing := processing s2 - {?a}\<rparr>"
        by (auto split: option.splits sum.splits)
      have first: "find (\<lambda>x. fst x = ?a) defs = Some d" using np "2.prems"(3) by simp
      have anP: "?a \<notin> P" using np npg i6 by blast
      have aname: "?a \<in> struct_names defs" using find_first(2)[OF first] .
      have inv1: "order_inv defs (insert ?a P) ?s1"
        unfolding order_inv_def using i1 i2 i3 i4 i5 i6 i7 i8 np by auto
      have depD: "\<forall>dep \<in> set (get_struct_dependencies d). dep \<in> struct_names defs \<longrightarrow> (?a, dep) \<in> ?D"
        using first dependency_field[of _ d]
        by (auto simp: value_dependency_def value_dependencies_def)
      have reach: "\<forall>dep \<in> set (so (get_struct_dependencies d)). dep \<in> struct_names defs \<longrightarrow>
                     (\<forall>x \<in> insert ?a P. (x, dep) \<in> ?D\<^sup>+)"
      proof (intro ballI impI)
        fix dep x assume dep: "dep \<in> set (so (get_struct_dependencies d))" "dep \<in> struct_names defs"
          and x: "x \<in> insert ?a P"
        from dep "2.prems"(2) have "dep \<in> set (get_struct_dependencies d)" by simp
        with dep(2) depD have e: "(?a, dep) \<in> ?D" by blast
        show "(x, dep) \<in> ?D\<^sup>+"
        proof (cases "x = ?a")
          case True with e show ?thesis by blast
        next
          case False
          with x "2.prems"(5) have "(x, ?a) \<in> ?D\<^sup>+" by blast
          then show ?thesis using e by (rule trancl_into_trancl)
        qed
      qed
      from "2.IH"[OF np npg d "2.prems"(2) inv1 reach]
      have inv2: "order_inv defs (insert ?a P) s2"
        and deps: "\<forall>dep \<in> set (so (get_struct_dependencies d)). dep \<in> struct_names defs \<longrightarrow> dep \<in> processed s2"
        and mono: "processed ?s1 \<subseteq> processed s2"
        by blast+
      from inv2 have
        j1: "processing s2 \<subseteq> insert ?a P" and
        j6: "insert ?a P \<subseteq> processing s2 \<union> processed s2" and
        j2: "\<forall>x \<in> processed s2 - insert ?a P. settled defs x (tables s2)" and
        j3: "\<forall>x \<in> processed s2. has_event x (insertions (tables s2))" and
        j4: "\<forall>x. has_event x (insertions (tables s2)) \<and> Defined x \<notin> set (insertions (tables s2))
                \<longrightarrow> x \<in> insert ?a P" and
        j5: "\<forall>x. Defined x \<in> set (insertions (tables s2)) \<longrightarrow> x \<in> processed s2 - insert ?a P" and
        j8: "\<forall>x. has_event x (insertions (tables s2)) \<longrightarrow> x \<in> processed s2" and
        j7: "distinct (insertions (tables s2))"
        unfolding order_inv_def by blast+
      obtain field_list where dd: "d = (?a, field_list)" by (cases d) auto
      have t': "process_struct_definition (?a, field_list) (tables s2) = Inr tabs" using t dd by simp
      have ev: "insertions tabs = insertions (tables s2) @ [Defined ?a]"
        using process_struct_definition_effect(1)[OF t'] .
      from process_struct_definition_effect(2)[OF t'] obtain tys where
        tys: "struct_types tabs ?a = Some (LiteralStructTy tys)" "length tys = length field_list"
          "\<forall>i f b fs tb. i < length field_list \<and> field_list ! i = (f, StructType b fs) \<and>
                struct_types (tables s2) b = Some tb \<longrightarrow> tys ! i = tb"
        by blast
      have same: "\<forall>x. x \<noteq> ?a \<and> x \<in> dom (struct_types (tables s2)) \<longrightarrow>
                    struct_types tabs x = struct_types (tables s2) x"
        using process_struct_definition_effect(3)[OF t'] .
      have keep: "\<forall>y. Defined y \<in> set (insertions (tables s2)) \<longrightarrow>
                    struct_types tabs y = struct_types (tables s2) y"
      proof (intro allI impI)
        fix y assume "Defined y \<in> set (insertions (tables s2))"
        then have y: "y \<in> processed s2 - insert ?a P" using j5 by blast
        then have "y \<noteq> ?a" by blast
        moreover have "y \<in> dom (struct_types (tables s2))" using y j2 settled_stored by blast
        ultimately show "struct_types tabs y = struct_types (tables s2) y" using same by blast
      qed
      have fields: "\<forall>i f b fs. i < length field_list \<and> field_list ! i = (f, StructType b fs) \<and>
                    b \<in> struct_names defs \<longrightarrow>
           (Defined b \<in> set (insertions (tables s2)) \<and> struct_types tabs b = Some (tys ! i))
           \<or> (Placeheld b \<in> set (insertions (tables s2)) \<and> (b, ?a) \<in> ?D\<^sup>+)"
      proof (intro allI impI, elim conjE)
        fix i f b fs
        assume i: "i < length field_list" and fi: "field_list ! i = (f, StructType b fs)"
          and bn: "b \<in> struct_names defs"
        have bd: "b \<in> set (get_struct_dependencies d)" using field_dependency[OF i fi] dd by metis
        then have "b \<in> set (so (get_struct_dependencies d))" using "2.prems"(2) by simp
        then have bp: "b \<in> processed s2" using deps bn by blast
        then have he: "has_event b (insertions (tables s2))" using j3 by blast
        show "(Defined b \<in> set (insertions (tables s2)) \<and> struct_types tabs b = Some (tys ! i))
           \<or> (Placeheld b \<in> set (insertions (tables s2)) \<and> (b, ?a) \<in> ?D\<^sup>+)"
        proof (cases "Defined b \<in> set (insertions (tables s2))")
          case True
          then have b2: "b \<in> processed s2 - insert ?a P" using j5 by blast
          then have "b \<in> dom (struct_types (tables s2))" using j2 settled_stored by blast
          then obtain tb where tb: "struct_types (tables s2) b = Some tb" by blast
          have "tys ! i = tb" using tys(3) i fi tb by blast
          moreover have "struct_types tabs b = Some tb" using keep True tb by simp
          ultimately show ?thesis using True by simp
        next
          case False
          with he have pl: "Placeheld b \<in> set (insertions (tables s2))" by (simp add: has_event_def)
          from he False j4 have "b \<in> insert ?a P" by blast
          moreover have e: "(?a, b) \<in> ?D" using depD bd bn by blast
          ultimately have "(b, ?a) \<in> ?D\<^sup>+"
          proof (cases "b = ?a")
            case True with e show ?thesis by auto
          next
            case False
            with \<open>b \<in> insert ?a P\<close> "2.prems"(5) show ?thesis by blast
          qed
          with pl show ?thesis by blast
        qed
      qed
      have seta: "settled defs ?a tabs"
        unfolding settled_def
        using ev first dd tys(1,2) fields
        by (intro exI[of _ "insertions (tables s2)"] exI[of _ "[]"] exI[of _ field_list]
            exI[of _ tys]) auto
      have "order_inv defs P s'"
        unfolding order_inv_def
      proof (intro conjI ballI allI impI)
        show "processing s' \<subseteq> P" using s' j1 by auto
      next
        show "P \<subseteq> processing s' \<union> processed s'" using s' j6 by auto
      next
        fix x assume x: "x \<in> processed s' - P"
        show "settled defs x (tables s')"
        proof (cases "x = ?a")
          case True
          then show ?thesis using seta s' by simp
        next
          case False
          with x s' have "x \<in> processed s2 - insert ?a P" by auto
          then have "settled defs x (tables s2)" using j2 by blast
          from settled_preserved[OF this ev keep] show ?thesis using s' by simp
        qed
      next
        fix x assume x: "x \<in> processed s'"
        show "has_event x (insertions (tables s'))"
        proof (cases "x = ?a")
          case True
          then show ?thesis using s' ev by (simp add: has_event_def)
        next
          case False
          with x s' have "x \<in> processed s2" by auto
          then have "has_event x (insertions (tables s2))" using j3 by blast
          then show ?thesis using s' ev has_event_append by simp
        qed
      next
        fix x assume "has_event x (insertions (tables s')) \<and> Defined x \<notin> set (insertions (tables s'))"
        then have h: "has_event x (insertions (tables s2) @ [Defined ?a])"
          "Defined x \<notin> set (insertions (tables s2))" "x \<noteq> ?a"
          using s' ev by auto
        from h(1,3) have "has_event x (insertions (tables s2))" by (auto simp: has_event_def)
        with h(2) j4 have "x \<in> insert ?a P" by blast
        with h(3) show "x \<in> P" by simp
      next
        fix x assume "Defined x \<in> set (insertions (tables s'))"
        then have "x = ?a \<or> Defined x \<in> set (insertions (tables s2))" using s' ev by auto
        then show "x \<in> processed s' - P"
        proof
          assume "x = ?a" then show ?thesis using s' anP by simp
        next
          assume "Defined x \<in> set (insertions (tables s2))"
          then have "x \<in> processed s2 - insert ?a P" using j5 by blast
          then show ?thesis using s' by auto
        qed
      next
        fix x assume "has_event x (insertions (tables s'))"
        then have "x = ?a \<or> has_event x (insertions (tables s2))"
          using s' ev by (auto simp: has_event_def)
        then show "x \<in> processed s'" using s' j8 by auto
      next
        have "Defined ?a \<notin> set (insertions (tables s2))" using j5 by blast
        then show "distinct (insertions (tables s'))" using s' ev j7 by simp
      qed
      moreover have "processed s \<subseteq> processed s'" using mono s' by auto
      ultimately show ?thesis using s' by auto
    qed
  qed
next
  case (3 n so defs s)
  then show ?case by simp
next
  case (4 n so defs dep deps s)
  show ?case
  proof (cases "find (\<lambda>d. fst d = dep) defs")
    case None
    with "4.prems"(1) have r: "process_dependencies n so defs deps s = Some (Inr s')" by simp
    have rp: "\<forall>dep \<in> set deps. dep \<in> struct_names defs \<longrightarrow>
                (\<forall>x \<in> P. (x, dep) \<in> (value_dependency defs)\<^sup>+)"
      using "4.prems"(4) by simp
    from "4.IH"(1)[OF None r "4.prems"(2,3) rp]
    have a: "order_inv defs P s'" "\<forall>x \<in> set deps. x \<in> struct_names defs \<longrightarrow> x \<in> processed s'"
      "processed s \<subseteq> processed s'" by blast+
    have "dep \<notin> struct_names defs" using None by (auto simp: find_None_iff struct_names_def)
    with a show ?thesis by auto
  next
    case (Some ds)
    with "4.prems"(1) obtain s1 where
      p: "process_struct n so defs ds s = Some (Inr s1)" and
      r: "process_dependencies n so defs deps s1 = Some (Inr s')"
      by (auto split: option.splits sum.splits)
    have first: "fst ds \<in> processed s \<or> find (\<lambda>x. fst x = fst ds) defs = Some ds"
      using find_first(3)[OF Some] by simp
    have "fst ds = dep" "dep \<in> struct_names defs" using find_first(1,2)[OF Some] by simp_all
    then have rp1: "\<forall>x \<in> P. (x, fst ds) \<in> (value_dependency defs)\<^sup>+"
      using "4.prems"(4) by simp
    have rp: "\<forall>dep \<in> set deps. dep \<in> struct_names defs \<longrightarrow>
                (\<forall>x \<in> P. (x, dep) \<in> (value_dependency defs)\<^sup>+)"
      using "4.prems"(4) by simp
    from "4.IH"(2)[OF Some p "4.prems"(2) first "4.prems"(3) rp1]
    have i1: "order_inv defs P s1" "fst ds \<in> processed s1" "processed s \<subseteq> processed s1" by blast+
    from "4.IH"(3)[OF Some p refl r "4.prems"(2) i1(1) rp]
    have i2: "order_inv defs P s'" "\<forall>x \<in> set deps. x \<in> struct_names defs \<longrightarrow> x \<in> processed s'"
      "processed s1 \<subseteq> processed s'" by blast+
    have "dep \<in> processed s'" using find_first(1)[OF Some] i1(2) i2(3) by auto
    with i1 i2 show ?thesis by auto
  qed
qed

subsection \<open>The whole set\<close>

lemma order_inv_settled:
  "order_inv defs P s \<Longrightarrow> a \<in> processed s \<Longrightarrow> a \<notin> P \<Longrightarrow> settled defs a (tables s)"
  unfolding order_inv_def by blast

lemma order_inv_distinct: "order_inv defs P s \<Longrightarrow> distinct (insertions (tables s))"
  unfolding order_inv_def by blast

lemma order_inv_initial:
  "order_inv defs {} \<lparr>processed = {}, processing = {}, tables = empty_struct_tables\<rparr>"
  unfolding order_inv_def by (simp add: empty_struct_tables_def has_event_def)

lemma find_append_none: "find P xs = None \<Longrightarrow> find P (xs @ ys) = find P ys"
  by (induction xs) (auto split: if_splits)

lemma process_each_inv:
  "process_each n so defs rest s = Some (Inr s') \<Longrightarrow> (\<forall>xs. set (so xs) = set xs) \<Longrightarrow>
   defs = seen @ rest \<Longrightarrow> fst ` set seen \<subseteq> processed s \<Longrightarrow> order_inv defs {} s \<Longrightarrow>
   order_inv defs {} s' \<and> struct_names defs \<subseteq> processed s'"
proof (induction rest arbitrary: s seen)
  case Nil
  then show ?case by (simp add: struct_names_def)
next
  case (Cons d rest)
  from Cons.prems(1) obtain s1 where
    p: "process_struct n so defs d s = Some (Inr s1)" and
    r: "process_each n so defs rest s1 = Some (Inr s')"
    by (auto split: option.splits sum.splits)
  have first: "fst d \<in> processed s \<or> find (\<lambda>x. fst x = fst d) defs = Some d"
  proof (cases "fst d \<in> processed s")
    case True
    then show ?thesis by simp
  next
    case False
    then have "fst d \<notin> fst ` set seen" using Cons.prems(4) by auto
    then have "\<forall>x \<in> set seen. fst x \<noteq> fst d" by (metis imageI)
    then have "find (\<lambda>x. fst x = fst d) seen = None" by (auto simp: find_None_iff)
    then show ?thesis using Cons.prems(3) by (simp add: find_append_none)
  qed
  have "\<forall>x \<in> {}. (x, fst d) \<in> (value_dependency defs)\<^sup>+" by simp
  from order_step(1)[OF p Cons.prems(2) first Cons.prems(5) this]
  have i1: "order_inv defs {} s1" "fst d \<in> processed s1" "processed s \<subseteq> processed s1" by blast+
  have "fst ` set (seen @ [d]) \<subseteq> processed s1" using Cons.prems(4) i1(2,3) by auto
  moreover have "defs = (seen @ [d]) @ rest" using Cons.prems(3) by simp
  ultimately show ?case using Cons.IH[OF r Cons.prems(2) _ _ i1(1)] by blast
qed

lemma card_unseen_initial:
  "card (unseen defs \<lparr>processed = {}, processing = {}, tables = tabs\<rparr>) < Suc (length defs)"
proof -
  have "card (unseen defs \<lparr>processed = {}, processing = {}, tables = tabs\<rparr>)
          \<le> card (fst ` set defs)"
    by (simp add: unseen_def struct_names_def)
  also have "\<dots> \<le> length defs"
    by (metis card_image_le card_length le_trans List.finite_set)
  finally show ?thesis by simp
qed

text \<open>Processing a set of struct definitions always returns, whatever the fields are,
  whatever cycles they form, and in whatever order the sets of dependencies are
  iterated.\<close>

lemma struct_processing_returns:
  "\<exists>r. process_structs_in_dependency_order set_order struct_definitions tabs = Some r"
proof -
  from process_each_total[where so=set_order, OF card_unseen_initial[of struct_definitions tabs] subset_refl]
  obtain r where "process_each (Suc (length struct_definitions)) set_order struct_definitions
                    struct_definitions \<lparr>processed = {}, processing = {}, tables = tabs\<rparr> = Some r"
    by blast
  then show ?thesis by (cases r) (simp_all add: process_structs_in_dependency_order_def)
qed

text \<open>
  Claim C4. Processing a set of struct definitions always returns, in whatever order the
  sets of dependencies are iterated, and it succeeds when the types of all fields can be
  lowered. Let \<open>a\<close> be defined in the set, by the first definition that carries the
  name, with a non-reference field number \<open>i\<close> whose type is a struct \<open>b\<close> of the set.
  When the processing succeeds, nothing is stored twice, the full definition of \<open>a\<close> is
  stored, and the entry of \<open>a\<close> in the struct table has one type per field. Either the
  full definition of \<open>b\<close> was stored before the full definition of \<open>a\<close>, and the type
  of field \<open>i\<close> in the entry of \<open>a\<close> is the entry of \<open>b\<close>; or \<open>b\<close> embeds \<open>a\<close> in
  turn through a chain of non-reference fields, and the definition of \<open>b\<close> with
  placeholders was stored before the full definition of \<open>a\<close>.
\<close>

theorem struct_dependency_order:
  assumes "\<forall>xs. set (set_order xs) = set xs"
    and "find (\<lambda>d. fst d = a) struct_definitions = Some (a, field_list)"
    and "i < length field_list"
    and "field_list ! i = (f, StructType b fs)"
    and "b \<in> fst ` set struct_definitions"
  shows "\<exists>r. process_structs_in_dependency_order set_order struct_definitions empty_struct_tables
               = Some r
         \<and> ((\<forall>d \<in> set struct_definitions. \<forall>field \<in> set (snd d). lowerable_field (snd field))
              \<longrightarrow> (\<exists>tabs. r = Inr tabs))
         \<and> (\<forall>tabs. r = Inr tabs \<longrightarrow>
              (\<exists>pre post tys.
                 insertions tabs = pre @ Defined a # post
               \<and> distinct (insertions tabs)
               \<and> struct_types tabs a = Some (LiteralStructTy tys)
               \<and> length tys = length field_list
               \<and> ((Defined b \<in> set pre \<and> struct_types tabs b = Some (tys ! i))
                  \<or> (Placeheld b \<in> set pre
                      \<and> (b, a) \<in> (value_dependency struct_definitions)\<^sup>+))))"
proof -
  let ?defs = struct_definitions
  let ?s0 = "\<lparr>processed = {}, processing = {}, tables = empty_struct_tables\<rparr>"
  let ?L = "\<forall>d \<in> set ?defs. \<forall>field \<in> set (snd d). lowerable_field (snd field)"
  from process_each_total[where so=set_order, OF card_unseen_initial[of ?defs empty_struct_tables] subset_refl]
  obtain r0 where r0: "process_each (Suc (length ?defs)) set_order ?defs ?defs ?s0 = Some r0"
    and ok: "?L \<longrightarrow> (\<exists>s'. r0 = Inr s')"
    by blast
  show ?thesis
  proof (cases r0)
    case (Inl e)
    have p: "process_structs_in_dependency_order set_order ?defs empty_struct_tables = Some (Inl e)"
      using r0 Inl by (simp add: process_structs_in_dependency_order_def)
    have "\<not> ?L" using ok Inl by auto
    then show ?thesis using p by auto
  next
    case (Inr s)
    have "order_inv ?defs {} s \<and> struct_names ?defs \<subseteq> processed s"
      by (rule process_each_inv[OF r0[unfolded Inr] assms(1), of "[]"])
         (simp_all add: order_inv_initial)
    then have inv: "order_inv ?defs {} s" and all: "struct_names ?defs \<subseteq> processed s"
      by simp_all
    have aname: "a \<in> struct_names ?defs" using find_first(2)[OF assms(2)] by simp
    with all have "a \<in> processed s" by blast
    then have "settled ?defs a (tables s)" using order_inv_settled[OF inv] by simp
    then obtain pre post field_list' tys where
      s: "insertions (tables s) = pre @ Defined a # post"
         "find (\<lambda>d. fst d = a) ?defs = Some (a, field_list')"
         "struct_types (tables s) a = Some (LiteralStructTy tys)" "length tys = length field_list'"
         "\<forall>i f b fs. i < length field_list' \<and> field_list' ! i = (f, StructType b fs) \<and>
                      b \<in> struct_names ?defs \<longrightarrow>
             (Defined b \<in> set pre \<and> struct_types (tables s) b = Some (tys ! i))
             \<or> (Placeheld b \<in> set pre \<and> (b, a) \<in> (value_dependency ?defs)\<^sup>+)"
      unfolding settled_def by blast
    have fl: "field_list' = field_list" using s(2) assms(2) by simp
    have bn: "b \<in> struct_names ?defs" using assms(5) by (simp add: struct_names_def)
    have f: "(Defined b \<in> set pre \<and> struct_types (tables s) b = Some (tys ! i))
             \<or> (Placeheld b \<in> set pre \<and> (b, a) \<in> (value_dependency ?defs)\<^sup>+)"
      using s(5) fl assms(3,4) bn by blast
    have d: "distinct (insertions (tables s))" using order_inv_distinct[OF inv] .
    have l: "length tys = length field_list" using s(4) fl by simp
    have p: "process_structs_in_dependency_order set_order ?defs empty_struct_tables
            = Some (Inr (tables s))"
      using r0 Inr by (simp add: process_structs_in_dependency_order_def)
    have "\<exists>pre post tys.
                 insertions (tables s) = pre @ Defined a # post
               \<and> distinct (insertions (tables s))
               \<and> struct_types (tables s) a = Some (LiteralStructTy tys)
               \<and> length tys = length field_list
               \<and> ((Defined b \<in> set pre \<and> struct_types (tables s) b = Some (tys ! i))
                  \<or> (Placeheld b \<in> set pre
                      \<and> (b, a) \<in> (value_dependency struct_definitions)\<^sup>+))"
      by (intro exI[of _ pre] exI[of _ post] exI[of _ tys] conjI) (rule s(1) d s(3) l f)+
    then show ?thesis using p by simp
  qed
qed

theorem struct_dependency_order_witness:
  "\<exists>tabs pre post tys.
     process_structs_in_dependency_order id line_point empty_struct_tables = Some (Inr tabs)
     \<and> insertions tabs = pre @ Defined ''Line'' # post
     \<and> distinct (insertions tabs)
     \<and> struct_types tabs ''Line'' = Some (LiteralStructTy tys)
     \<and> length tys = length [(''a'', StructType ''Point'' []), (''b'', StructType ''Point'' [])]
     \<and> ((Defined ''Point'' \<in> set pre \<and> struct_types tabs ''Point'' = Some (tys ! 0))
        \<or> (Placeheld ''Point'' \<in> set pre
            \<and> (''Point'', ''Line'') \<in> (value_dependency line_point)\<^sup>+))"
proof -
  have h1: "\<forall>xs :: string list. set (id xs) = set xs" by simp
  have h2: "\<forall>d \<in> set line_point. \<forall>field \<in> set (snd d). lowerable_field (snd field)"
    by (simp add: line_point_def)
  have h3: "find (\<lambda>d. fst d = ''Line'') line_point
       = Some (''Line'', [(''a'', StructType ''Point'' []), (''b'', StructType ''Point'' [])])"
    by (simp add: line_point_def)
  have h4: "0 < length [(''a'', StructType ''Point'' []), (''b'', StructType ''Point'' [])]"
    by simp
  have h5: "[(''a'', StructType ''Point'' []), (''b'', StructType ''Point'' [])] ! 0
              = (''a'', StructType ''Point'' [])"
    by simp
  have h6: "''Point'' \<in> fst ` set line_point" by (simp add: line_point_def)
  from struct_dependency_order [OF h1 h3 h4 h5 h6]
  obtain r where
    r: "process_structs_in_dependency_order id line_point empty_struct_tables = Some r"
    and ok: "(\<forall>d \<in> set line_point. \<forall>field \<in> set (snd d). lowerable_field (snd field))
              \<longrightarrow> (\<exists>tabs. r = Inr tabs)"
    and ord: "\<forall>tabs. r = Inr tabs \<longrightarrow>
              (\<exists>pre post tys.
                 insertions tabs = pre @ Defined ''Line'' # post
               \<and> distinct (insertions tabs)
               \<and> struct_types tabs ''Line'' = Some (LiteralStructTy tys)
               \<and> length tys = length [(''a'', StructType ''Point'' []), (''b'', StructType ''Point'' [])]
               \<and> ((Defined ''Point'' \<in> set pre \<and> struct_types tabs ''Point'' = Some (tys ! 0))
                  \<or> (Placeheld ''Point'' \<in> set pre
                      \<and> (''Point'', ''Line'') \<in> (value_dependency line_point)\<^sup>+)))"
    by blast
  from ok h2 obtain tabs where t: "r = Inr tabs" by blast
  with ord r show ?thesis by blast
qed

text \<open>The three example sets. With \<^verbatim>\<open>Line\<close> declared before the \<^verbatim>\<open>Point\<close> it embeds,
  \<^verbatim>\<open>Point\<close> is still stored first, and the entry of \<^verbatim>\<open>Line\<close> holds the entry of
  \<^verbatim>\<open>Point\<close> twice. On the cycle, \<^verbatim>\<open>Egg\<close> is stored with a byte pointer in place of
  \<^verbatim>\<open>Hen\<close>, then \<^verbatim>\<open>Hen\<close> with that entry of \<^verbatim>\<open>Egg\<close>, then \<^verbatim>\<open>Egg\<close> again in full.\<close>

lemma line_point_result:
  "map_option (map_sum id insertions)
     (process_structs_in_dependency_order id line_point empty_struct_tables)
   = Some (Inr [Defined ''Point'', Defined ''Line''])"
  "stored_struct ''Point'' (process_structs_in_dependency_order id line_point empty_struct_tables)
   = Some (LiteralStructTy [IntTy 64, IntTy 64])"
  "stored_struct ''Line'' (process_structs_in_dependency_order id line_point empty_struct_tables)
   = Some (LiteralStructTy [LiteralStructTy [IntTy 64, IntTy 64],
                            LiteralStructTy [IntTy 64, IntTy 64]])"
  by code_simp+

lemma egg_hen_result:
  "map_option (map_sum id insertions)
     (process_structs_in_dependency_order id egg_hen empty_struct_tables)
   = Some (Inr [Placeheld ''Egg'', Defined ''Hen'', Defined ''Egg''])"
  "stored_struct ''Hen'' (process_structs_in_dependency_order id egg_hen empty_struct_tables)
   = Some (LiteralStructTy [LiteralStructTy [PointerTy (IntTy 8)]])"
  "stored_struct ''Egg'' (process_structs_in_dependency_order id egg_hen empty_struct_tables)
   = Some (LiteralStructTy [LiteralStructTy [LiteralStructTy [PointerTy (IntTy 8)]]])"
  by code_simp+

text \<open>
  When a name is defined twice, only the first definition is processed. In the set
  \<open>twice_a\<close> the third definition gives \<^verbatim>\<open>A\<close> a non-reference field of type \<^verbatim>\<open>B\<close>, yet
  the definition stored for \<^verbatim>\<open>A\<close> is the first one, and it is stored before the
  definition of \<^verbatim>\<open>B\<close>.
\<close>

theorem redefined_struct_is_stored_before_its_field:
  "map_option (map_sum id insertions)
     (process_structs_in_dependency_order id twice_a empty_struct_tables)
   = Some (Inr [Defined ''A'', Defined ''B''])
   \<and> stored_struct ''A'' (process_structs_in_dependency_order id twice_a empty_struct_tables)
       = Some (LiteralStructTy [IntTy 64])
   \<and> twice_a ! 2 = (''A'', [(''b'', StructType ''B'' [(''y'', IntType)])])"
  by code_simp

section \<open>Verification: declaration of globals\<close>

text \<open>
  Claim C5, where the code fails it: for the program that declares \<^verbatim>\<open>x\<close> as an
  \<^verbatim>\<open>int\<close> and then as a \<^verbatim>\<open>string\<close>, the declaration loop ends without an error,
  with \<^verbatim>\<open>x\<close> declared once as a 64-bit integer. The check that reports the conflict
  exists in \<^verbatim>\<open>_declare_global_variable\<close> (it raises on the second declaration in the
  state the loop ends in), but the loop never calls it for an identifier it has already
  seen.
\<close>

theorem conflicting_redeclaration_not_reported:
  "(\<exists>g. declare_statements conflicting_globals {} new_generator = Inr g
        \<and> global_vars g ''x'' = Some (IntTy 64)
        \<and> type_map g ''x'' = Some IntType
        \<and> declare_global_variable ''x'' (Some StringType) g
            = Inl (PyTypeError ''Redeclaracao de global x com tipo diferente''))"
  by (simp add: conflicting_globals_def new_generator_def declare_global_variable_def
      int_type_def)

section \<open>Verification: expressions\<close>

lemma concatenate_code:
  "concatenate lv rv b2 =
     (Register (next_id b2 + 4) (PointerTy (IntTy 8)),
      b2\<lparr>code := code b2 @ concatenation_code (tracked_in_array b2) lv rv (next_id b2) (block b2),
         next_id := next_id b2 + (if tracked_in_array b2 then 12 else 7),
         allocated_ptrs :=
           (if memory_tracking b2 \<and> \<not> tracked_in_array b2
            then allocated_ptrs b2 @ [Register (next_id b2 + 4) (PointerTy (IntTy 8))]
            else allocated_ptrs b2)\<rparr>)"
proof (cases "tracked_in_array b2")
  case True
  then show ?thesis
    by (cases b2)
       (simp add: concatenate_def concatenation_code_def tracked_in_array_def call_def emit_def
          track_allocation_def strlen_def malloc_def strcpy_def strcat_def)
next
  case False
  then show ?thesis
    by (cases b2)
       (auto simp add: concatenate_def concatenation_code_def tracked_in_array_def call_def
          emit_def track_allocation_def strlen_def malloc_def strcpy_def strcat_def)
qed

lemma int_not_pointer: "is_int_type t \<Longrightarrow> \<not> is_pointer_type t"
  by (cases t) auto

lemma string_type_cases:
  "is_string v \<Longrightarrow> type_of v = PointerTy (IntTy 8)"
  by (cases "type_of v") (auto simp: is_string_def string_type_def char_type_def)

lemma int_not_double: "is_int_type t \<Longrightarrow> t \<noteq> DoubleTy"
  by (cases t) auto

lemma binary_plus:
  assumes "lv \<noteq> NoneValue" "rv \<noteq> NoneValue"
    and "\<not> (is_int_type (type_of lv) \<and> type_of rv = DoubleTy)"
    and "\<not> (is_int_type (type_of rv) \<and> type_of lv = DoubleTy)"
  shows "binary_operation PLUS lv rv b =
           (if is_string lv \<or> is_string rv then
              (if \<not> is_string lv \<or> \<not> is_string rv
               then Inl (PyTypeError
                 ''Operacao + para strings requer que ambos os operandos sejam strings'')
               else Inr (concatenate lv rv b))
            else if type_of lv = DoubleTy \<or> type_of rv = DoubleTy
            then Inr (emit ''fadd'' [lv, rv] (type_of lv) b)
            else Inr (emit ''add'' [lv, rv] (type_of lv) b))"
proof -
  have c1: "((type_of lv = DoubleTy \<or> type_of rv = DoubleTy) \<and> is_int_type (type_of lv)) = False"
    using assms(3) int_not_double[of "type_of lv"] by blast
  have c2: "((type_of lv = DoubleTy \<or> type_of rv = DoubleTy) \<and> is_int_type (type_of rv)) = False"
    using assms(4) int_not_double[of "type_of rv"] by blast
  show ?thesis
    unfolding binary_operation_def Let_def c1 c2 using assms(1,2) by simp
qed

lemma string_node_lowering:
  "\<exists>v b'. generate_expression other (StringNode s) None b = Inr (v, b') \<and> is_string v
     \<and> v \<noteq> NoneValue \<and> type_of v = PointerTy (IntTy 8) \<and> tracked_in_array b' = tracked_in_array b"
  by (simp add: string_global_def emit_def Let_def is_string_def char_type_def
      tracked_in_array_def)

text \<open>
  Claim C3. When both operands of \<^verbatim>\<open>+\<close> are lowered, to values one of which is a
  string and the other is not, the lowering fails with a type error. When both are
  strings, the result is the pointer returned by a call of \<^verbatim>\<open>malloc\<close> for the sum of
  the two \<^verbatim>\<open>strlen\<close> plus one, the instructions emitted are the two \<^verbatim>\<open>strlen\<close>, the
  two additions, the \<^verbatim>\<open>malloc\<close>, the registration of the buffer, \<^verbatim>\<open>strcpy\<close> of the
  left operand and \<^verbatim>\<open>strcat\<close> of the right one, and the buffer is registered: in the
  allocation array when the generator has it, in its list of pointers otherwise.
\<close>

theorem plus_on_strings:
  assumes "generate_expression other left None b = Inr (lv, b1)"
    and "generate_expression other right None b1 = Inr (rv, b2)"
    and "lv \<noteq> NoneValue" and "rv \<noteq> NoneValue"
  shows "(is_string lv \<noteq> is_string rv \<longrightarrow>
            (\<exists>msg. generate_expression other (BinaryOpNode left PLUS right) expected_type b
                     = Inl (PyTypeError msg)))
       \<and> (is_string lv \<and> is_string rv \<longrightarrow>
            generate_expression other (BinaryOpNode left PLUS right) expected_type b =
              Inr (Register (next_id b2 + 4) (PointerTy (IntTy 8)),
                   b2\<lparr>code := code b2 @
                         concatenation_code (tracked_in_array b2) lv rv (next_id b2) (block b2),
                      next_id := next_id b2 + (if tracked_in_array b2 then 12 else 7),
                      allocated_ptrs :=
                        (if memory_tracking b2 \<and> \<not> tracked_in_array b2
                         then allocated_ptrs b2 @ [Register (next_id b2 + 4) (PointerTy (IntTy 8))]
                         else allocated_ptrs b2)\<rparr>))"
proof -
  have g: "generate_expression other (BinaryOpNode left PLUS right) expected_type b =
             binary_operation PLUS lv rv b2"
    using assms(1,2) by simp
  show ?thesis
  proof (intro conjI impI)
    assume ne: "is_string lv \<noteq> is_string rv"
    then have nd: "\<not> (is_int_type (type_of lv) \<and> type_of rv = DoubleTy)"
      "\<not> (is_int_type (type_of rv) \<and> type_of lv = DoubleTy)"
      using string_type_cases[of lv] string_type_cases[of rv] by auto
    have "binary_operation PLUS lv rv b2 = Inl (PyTypeError
                 ''Operacao + para strings requer que ambos os operandos sejam strings'')"
      using binary_plus[OF assms(3,4) nd, of b2] ne by auto
    then show "\<exists>msg. generate_expression other (BinaryOpNode left PLUS right) expected_type b
            = Inl (PyTypeError msg)"
      using g by simp
  next
    assume both: "is_string lv \<and> is_string rv"
    then have nd: "\<not> (is_int_type (type_of lv) \<and> type_of rv = DoubleTy)"
      "\<not> (is_int_type (type_of rv) \<and> type_of lv = DoubleTy)"
      using string_type_cases[of lv] string_type_cases[of rv] by auto
    have "binary_operation PLUS lv rv b2 = Inr (concatenate lv rv b2)"
      using binary_plus[OF assms(3,4) nd, of b2] both by simp
    then show "generate_expression other (BinaryOpNode left PLUS right) expected_type b =
                Inr (Register (next_id b2 + 4) (PointerTy (IntTy 8)),
                     b2\<lparr>code := code b2 @
                           concatenation_code (tracked_in_array b2) lv rv (next_id b2) (block b2),
                        next_id := next_id b2 + (if tracked_in_array b2 then 12 else 7),
                        allocated_ptrs :=
                          (if memory_tracking b2 \<and> \<not> tracked_in_array b2
                           then allocated_ptrs b2 @ [Register (next_id b2 + 4) (PointerTy (IntTy 8))]
                           else allocated_ptrs b2)\<rparr>)"
      using g by (simp only: concatenate_code)
  qed
qed

theorem plus_on_strings_witness:
  "(\<exists>msg. generate_expression no_other (BinaryOpNode (StringNode ''a'') PLUS (NumberNode 1))
             None main_builder = Inl (PyTypeError msg))
   \<and> (\<exists>lv rv b2. generate_expression no_other
                     (BinaryOpNode (StringNode ''a'') PLUS (StringNode ''b'')) None main_builder =
              Inr (Register (next_id b2 + 4) (PointerTy (IntTy 8)),
                   b2\<lparr>code := code b2 @ concatenation_code True lv rv (next_id b2) (block b2),
                      next_id := next_id b2 + 12,
                      allocated_ptrs := allocated_ptrs b2\<rparr>))"
proof -
  obtain lv b1 where l: "generate_expression no_other (StringNode ''a'') None main_builder = Inr (lv, b1)"
    "is_string lv" "lv \<noteq> NoneValue" "tracked_in_array b1 = tracked_in_array main_builder"
    using string_node_lowering[of no_other "''a''" main_builder] by blast
  have r1: "generate_expression no_other (NumberNode 1) None b1 = Inr (Constant int_type (IntConst 1), b1)"
    by simp
  have n1: "\<not> is_string (Constant int_type (IntConst 1))" "Constant int_type (IntConst 1) \<noteq> NoneValue"
    by (simp_all add: is_string_def int_type_def string_type_def)
  obtain rv b2 where r: "generate_expression no_other (StringNode ''b'') None b1 = Inr (rv, b2)"
    "is_string rv" "rv \<noteq> NoneValue" "tracked_in_array b2 = tracked_in_array b1"
    using string_node_lowering[of no_other "''b''" b1] by blast
  have t: "tracked_in_array b2" using l(4) r(4) by (simp add: tracked_in_array_def main_builder_def)
  from plus_on_strings[OF l(1) r1 l(3) n1(2), of None] l(2) n1(1)
  have a: "\<exists>msg. generate_expression no_other (BinaryOpNode (StringNode ''a'') PLUS (NumberNode 1))
             None main_builder = Inl (PyTypeError msg)" by simp
  from plus_on_strings[OF l(1) r(1) l(3) r(3), of None] l(2) r(2) t
  have "generate_expression no_other
                     (BinaryOpNode (StringNode ''a'') PLUS (StringNode ''b'')) None main_builder =
              Inr (Register (next_id b2 + 4) (PointerTy (IntTy 8)),
                   b2\<lparr>code := code b2 @ concatenation_code True lv rv (next_id b2) (block b2),
                      next_id := next_id b2 + 12,
                      allocated_ptrs := allocated_ptrs b2\<rparr>)" by simp
  with a show ?thesis by blast
qed

text \<open>
  Claim C10. When the operand of a cast to \<^verbatim>\<open>int\<close> is lowered to a string (a byte
  pointer), the cast is the integer constant 0 and emits no instruction of its own: the
  generator is left as the lowering of the operand left it.
\<close>

theorem cast_string_to_int_is_zero:
  assumes "generate_expression other expression None b = Inr (v, b')"
    and "type_of v = PointerTy (IntTy 8)"
  shows "generate_expression other (CastNode expression IntType) expected_type b =
           Inr (Constant (IntTy 64) (IntConst 0), b')"
proof -
  have "v \<noteq> NoneValue" using assms(2) by auto
  then show ?thesis
    using assms by (simp add: cast_value_def string_type_def int_type_def)
qed

theorem cast_string_to_int_is_zero_witness:
  "\<exists>v b'. generate_expression no_other (StringNode ''42'') None main_builder = Inr (v, b')
     \<and> type_of v = PointerTy (IntTy 8)
     \<and> generate_expression no_other (CastNode (StringNode ''42'') IntType) None main_builder =
           Inr (Constant (IntTy 64) (IntConst 0), b')"
proof -
  obtain v b' where l: "generate_expression no_other (StringNode ''42'') None main_builder = Inr (v, b')"
    "type_of v = PointerTy (IntTy 8)"
    using string_node_lowering[of no_other "''42''" main_builder] by blast
  from cast_string_to_int_is_zero[OF l, of None] l show ?thesis by blast
qed



lemma truthify_bool: "type_of v = IntTy 1 \<Longrightarrow> truthify v b = Inr (v, b)"
  by (simp add: truthify_def bool_type_def)

lemma truthify_other:
  "type_of v \<noteq> IntTy 1 \<Longrightarrow>
   truthify v b = Inl (PyAttributeError ''IRBuilder object has no attribute icmp_ne'')"
  by (simp add: truthify_def bool_type_def icmp_ne_def)

text \<open>
  On operands that are truth values already, \<^verbatim>\<open>and\<close> and \<^verbatim>\<open>or\<close> lower both
  operands, the right one from the state the left one leaves and whatever the left one
  is, and then emit one \<^verbatim>\<open>and_\<close> or \<^verbatim>\<open>or_\<close> instruction on the two values in the
  same block: no block is created and no branch is emitted.
\<close>

lemma logical_operators_on_booleans:
  assumes "operator = AND \<or> operator = OR"
    and "generate_expression other left None b = Inr (lv, b1)"
    and "generate_expression other right None b1 = Inr (rv, b2)"
    and "type_of lv = IntTy 1" and "type_of rv = IntTy 1"
  shows "generate_expression other (BinaryOpNode left operator right) expected_type b =
           Inr (Register (next_id b2) (IntTy 1),
                b2\<lparr>code := code b2 @
                      [(block b2, Instruction (next_id b2)
                                   (if operator = AND then ''and_'' else ''or_'') [lv, rv])],
                   next_id := next_id b2 + 1\<rparr>)"
proof -
  have n: "lv \<noteq> NoneValue" "rv \<noteq> NoneValue" using assms(4,5) by auto
  have f: "\<not> (type_of lv = DoubleTy \<or> type_of rv = DoubleTy)" using assms(4,5) by simp
  have g: "generate_expression other (BinaryOpNode left operator right) expected_type b =
             binary_operation operator lv rv b2"
    using assms(2,3) by simp
  show ?thesis unfolding g
    using assms(1) n f truthify_bool[OF assms(4), of b2] truthify_bool[OF assms(5), of b2]
    by (auto simp add: binary_operation_def emit_def assms(4))
qed

text \<open>
  Claim C9. The operands of \<^verbatim>\<open>1 & 2\<close> and of \<^verbatim>\<open>1 | 2\<close> are integers, not truth
  values, so each is to be compared with zero first. The generator asks the builder for
  \<^verbatim>\<open>icmp_ne\<close>, which the builder does not have: the lowering of the expression raises
  \<^verbatim>\<open>AttributeError\<close> and yields no value.
\<close>

theorem logical_operator_on_integers_fails:
  "generate_expression no_other (BinaryOpNode (NumberNode 1) AND (NumberNode 2)) None main_builder
     = Inl (PyAttributeError ''IRBuilder object has no attribute icmp_ne'')
   \<and> generate_expression no_other (BinaryOpNode (NumberNode 1) OR (NumberNode 2)) None main_builder
     = Inl (PyAttributeError ''IRBuilder object has no attribute icmp_ne'')"
  by (simp add: binary_operation_def truthify_def icmp_ne_def int_type_def bool_type_def)


end
